(* ===== verification/Prelude.thy ===== *)
theory Prelude
  imports Main "HOL-Library.Word" "HOL-Library.State_Monad"
begin

text \<open>
  Shared ground of the development: the collections that the component theories feed,
  the two list scanners that Go's \<open>strings.Cut\<close> and \<open>strings.Split\<close> are when
  the separator is one byte, and the facts about the state monad and about association
  lists that more than one component uses.

  A Go string is a sequence of bytes, so it is modelled by HOL's \<open>string\<close>
  (a list of 8-bit characters), and the length of the list is Go's \<open>len\<close>.
\<close>

named_theorems go_string_simps \<open>unfolding the Go string functions on concrete bytes\<close>
named_theorems err_simps \<open>how errors.Is answers on the errors the code builds\<close>
named_theorems step_simps \<open>running the state-monad operations one call further\<close>

type_synonym ('e, 'a) result = "'e + 'a"

abbreviation byte :: "char \<Rightarrow> int" where
  "byte c \<equiv> of_char c"

subsection \<open>strings.Cut, strings.Split and index search, for a one-byte separator\<close>

fun cut_at :: "'a \<Rightarrow> 'a list \<Rightarrow> 'a list \<times> 'a list \<times> bool" where
  "cut_at x [] = ([], [], False)"
| "cut_at x (c # cs) =
     (if c = x then ([], cs, True)
      else (case cut_at x cs of (b, a, found) \<Rightarrow> (c # b, a, found)))"

fun split_on :: "'a \<Rightarrow> 'a list \<Rightarrow> 'a list list" where
  "split_on x [] = [] # []"
| "split_on x (c # cs) =
     (if c = x then [] # split_on x cs
      else (case split_on x cs of [] \<Rightarrow> [c] # [] | p # ps \<Rightarrow> (c # p) # ps))"

fun index_of :: "'a \<Rightarrow> 'a list \<Rightarrow> nat option" where
  "index_of x [] = None"
| "index_of x (c # cs) = (if c = x then Some 0 else map_option Suc (index_of x cs))"

fun last_index_of :: "'a \<Rightarrow> 'a list \<Rightarrow> nat option" where
  "last_index_of x [] = None"
| "last_index_of x (c # cs) =
     (case last_index_of x cs of
        Some i \<Rightarrow> Some (Suc i)
      | None \<Rightarrow> if c = x then Some 0 else None)"

fun join_with :: "'a list \<Rightarrow> 'a list list \<Rightarrow> 'a list" where
  "join_with sep [] = []"
| "join_with sep [p] = p"
| "join_with sep (p # ps) = p @ sep @ join_with sep ps"

lemma cut_at_absent: "x \<notin> set s \<Longrightarrow> cut_at x s = (s, [], False)"
  by (induction s) auto

lemma cut_at_present: "x \<notin> set b \<Longrightarrow> cut_at x (b @ x # a) = (b, a, True)"
  by (induction b) auto

lemma cut_at_found: "cut_at x s = (b, a, True) \<Longrightarrow> s = b @ x # a \<and> x \<notin> set b"
  by (induction s arbitrary: b a) (auto split: if_splits prod.splits)

lemma cut_at_not_found: "cut_at x s = (b, a, False) \<Longrightarrow> b = s \<and> a = [] \<and> x \<notin> set s"
  by (induction s arbitrary: b a) (auto split: if_splits prod.splits)

lemma split_on_not_Nil [simp]: "split_on x s \<noteq> []"
  by (induction s) (auto split: list.splits)

lemma join_split: "join_with [x] (split_on x s) = s"
proof (induction s)
  case (Cons c cs)
  then show ?case
    by (cases "split_on x cs") (auto, (cases "tl (split_on x cs)"; simp)+)
qed simp

lemma split_on_pieces: "p \<in> set (split_on x s) \<Longrightarrow> x \<notin> set p"
  by (induction s arbitrary: p) (auto split: list.splits if_splits)

lemma index_of_None: "index_of x s = None \<longleftrightarrow> x \<notin> set s"
  by (induction s) auto

lemma last_index_of_None: "last_index_of x s = None \<longleftrightarrow> x \<notin> set s"
  by (induction s) (auto split: option.splits)

lemma last_index_of_snoc:
  "x \<notin> set a \<Longrightarrow> last_index_of x (b @ x # a) = Some (length b)"
  by (induction b) (auto simp: last_index_of_None[THEN iffD2])

lemma last_index_of_Some:
  "last_index_of x s = Some i \<Longrightarrow>
     i < length s \<and> s ! i = x \<and> x \<notin> set (drop (Suc i) s)"
  by (induction s arbitrary: i)
     (auto split: option.splits if_splits simp: last_index_of_None)

subsection \<open>State monad and association facts\<close>

lemma run_state_case_sum [step_simps]:
  "run_state (case x of Inl e \<Rightarrow> f e | Inr v \<Rightarrow> g v) s =
     (case x of Inl e \<Rightarrow> run_state (f e) s | Inr v \<Rightarrow> run_state (g v) s)"
  by (cases x) simp_all

lemma run_state_if [step_simps]:
  "run_state (if b then m else n) s = (if b then run_state m s else run_state n s)"
  by simp

lemma run_state_let [step_simps]:
  "run_state (let x = v in m x) s = (let x = v in run_state (m x) s)"
  by simp

definition assoc_set :: "'k \<Rightarrow> 'v \<Rightarrow> ('k \<times> 'v) list \<Rightarrow> ('k \<times> 'v) list" where
  "assoc_set k v kvs = (k, v) # filter (\<lambda>p. fst p \<noteq> k) kvs"

lemma map_of_filter_other: "k \<noteq> k' \<Longrightarrow> map_of (filter (\<lambda>p. fst p \<noteq> k) kvs) k' = map_of kvs k'"
  by (induction kvs) auto

lemma map_of_assoc_set [simp]: "map_of (assoc_set k v kvs) = (map_of kvs)(k \<mapsto> v)"
  by (rule ext) (auto simp: assoc_set_def map_of_filter_other)

lemma distinct_assoc_set:
  "distinct (map fst kvs) \<Longrightarrow> distinct (map fst (assoc_set k v kvs))"
  by (auto simp: assoc_set_def distinct_map inj_on_def)

subsection \<open>Triples over the state monad\<close>

text \<open>
  \<open>triple P m Q\<close>: started in a state with \<open>P\<close>, the operation ends with a result and a
  state that \<open>Q\<close> relates.  The rules are applied backwards by the structure of the
  operation; those of an operation of a component join the collection \<open>triples\<close>.
\<close>

named_theorems triples \<open>triples of the operations, for stepping through a program\<close>

definition triple :: "('s \<Rightarrow> bool) \<Rightarrow> ('s, 'a) state \<Rightarrow> ('a \<Rightarrow> 's \<Rightarrow> bool) \<Rightarrow> bool" where
  "triple P m Q \<longleftrightarrow> (\<forall>s. P s \<longrightarrow> Q (fst (run_state m s)) (snd (run_state m s)))"

lemma tripleI: "(\<And>s. P s \<Longrightarrow> Q (fst (run_state m s)) (snd (run_state m s))) \<Longrightarrow> triple P m Q"
  by (simp add: triple_def)

lemma tripleD: "triple P m Q \<Longrightarrow> P s \<Longrightarrow> run_state m s = (x, s') \<Longrightarrow> Q x s'"
  by (auto simp: triple_def)

lemma triple_return: "(\<And>s. P s \<Longrightarrow> Q x s) \<Longrightarrow> triple P (State_Monad.return x) Q"
  by (simp add: triple_def)

lemma triple_bind:
  "triple P m R \<Longrightarrow> (\<And>x. triple (R x) (f x) Q) \<Longrightarrow> triple P (State_Monad.bind m f) Q"
  by (auto simp: triple_def split: prod.split)

lemma triple_sum:
  "(\<And>e. x = Inl e \<Longrightarrow> triple P (f e) Q) \<Longrightarrow> (\<And>v. x = Inr v \<Longrightarrow> triple P (g v) Q) \<Longrightarrow>
   triple P (case x of Inl e \<Rightarrow> f e | Inr v \<Rightarrow> g v) Q"
  by (cases x) simp_all

lemma triple_option:
  "(x = None \<Longrightarrow> triple P f Q) \<Longrightarrow> (\<And>v. x = Some v \<Longrightarrow> triple P (g v) Q) \<Longrightarrow>
   triple P (case x of None \<Rightarrow> f | Some v \<Rightarrow> g v) Q"
  by (cases x) simp_all

lemma triple_prod:
  "(\<And>a b. x = (a, b) \<Longrightarrow> triple P (f a b) Q) \<Longrightarrow> triple P (case x of (a, b) \<Rightarrow> f a b) Q"
  by (cases x) simp

lemma triple_if:
  "(b \<Longrightarrow> triple P m Q) \<Longrightarrow> (\<not> b \<Longrightarrow> triple P n Q) \<Longrightarrow> triple P (if b then m else n) Q"
  by simp

lemma triple_let: "triple P (f v) Q \<Longrightarrow> triple P (let x = v in f x) Q"
  by simp

lemma triple_weaken:
  "triple P' m Q' \<Longrightarrow> (\<And>s. P s \<Longrightarrow> P' s) \<Longrightarrow> (\<And>x s. Q' x s \<Longrightarrow> Q x s) \<Longrightarrow> triple P m Q"
  by (auto simp: triple_def)

lemma triple_False: "triple (\<lambda>_. False) m Q"
  by (simp add: triple_def)

lemmas triple_rules = triple_return triple_sum triple_option triple_prod triple_if triple_let

end
