(* ===== verification/Go_Strings.thy ===== *)
theory Go_Strings
  imports Prelude
begin

text \<open>
  The functions of Go's \<open>unicode\<close>, \<open>unicode/utf8\<close>, \<open>strings\<close> and
  \<open>strconv\<close> packages that the program calls, on byte strings.

  UTF-8 is decoded as \<open>utf8.DecodeRuneInString\<close> does it: an ill-formed byte is the
  replacement rune with width one.  \<open>to_lower\<close> and \<open>equal_fold\<close> are exact
  where their result is compared with an ASCII word, which is the only use the program
  makes of them: every rune whose lower case is ASCII is mapped, other runes are left.
\<close>

subsection \<open>UTF-8\<close>

abbreviation rune_error :: int where "rune_error \<equiv> 65533"

abbreviation cont_byte :: "char \<Rightarrow> bool" where
  "cont_byte c \<equiv> 128 \<le> byte c \<and> byte c \<le> 191"

definition decode2 :: "int \<Rightarrow> string \<Rightarrow> int \<times> nat" where
  "decode2 b0 r =
     (case r of
        c1 # _ \<Rightarrow>
          if cont_byte c1 then ((b0 - 192) * 64 + (byte c1 - 128), 2) else (rune_error, 1)
      | [] \<Rightarrow> (rune_error, 1))"

definition decode3 :: "int \<Rightarrow> string \<Rightarrow> int \<times> nat" where
  "decode3 b0 r =
     (case r of
        c1 # c2 # _ \<Rightarrow>
          if (if b0 = 224 then 160 else 128) \<le> byte c1 \<and>
             byte c1 \<le> (if b0 = 237 then 159 else 191) \<and> cont_byte c2
          then ((b0 - 224) * 4096 + (byte c1 - 128) * 64 + (byte c2 - 128), 3)
          else (rune_error, 1)
      | _ \<Rightarrow> (rune_error, 1))"

definition decode4 :: "int \<Rightarrow> string \<Rightarrow> int \<times> nat" where
  "decode4 b0 r =
     (case r of
        c1 # c2 # c3 # _ \<Rightarrow>
          if (if b0 = 240 then 144 else 128) \<le> byte c1 \<and>
             byte c1 \<le> (if b0 = 244 then 143 else 191) \<and> cont_byte c2 \<and> cont_byte c3
          then ((b0 - 240) * 262144 + (byte c1 - 128) * 4096 + (byte c2 - 128) * 64
                  + (byte c3 - 128), 4)
          else (rune_error, 1)
      | _ \<Rightarrow> (rune_error, 1))"

definition decode_rune :: "string \<Rightarrow> int \<times> nat" where
  "decode_rune s =
     (case s of
        [] \<Rightarrow> (rune_error, 0)
      | c0 # r \<Rightarrow>
        if byte c0 < 128 then (byte c0, 1)
        else if 194 \<le> byte c0 \<and> byte c0 \<le> 223 then decode2 (byte c0) r
        else if 224 \<le> byte c0 \<and> byte c0 \<le> 239 then decode3 (byte c0) r
        else if 240 \<le> byte c0 \<and> byte c0 \<le> 244 then decode4 (byte c0) r
        else (rune_error, 1))"

lemma decode2_bounds:
  "1 \<le> snd (decode2 b r) \<and> snd (decode2 b r) \<le> Suc (length r)"
  "194 \<le> b \<Longrightarrow> 128 \<le> fst (decode2 b r)"
  by (auto simp: decode2_def split: list.splits)

lemma decode3_bounds:
  "1 \<le> snd (decode3 b r) \<and> snd (decode3 b r) \<le> Suc (length r)"
  "224 \<le> b \<Longrightarrow> 128 \<le> fst (decode3 b r)"
proof -
  show "1 \<le> snd (decode3 b r) \<and> snd (decode3 b r) \<le> Suc (length r)"
    by (simp add: decode3_def split: list.split)
  assume "224 \<le> b"
  then show "128 \<le> fst (decode3 b r)"
    by (cases "b = 224") (auto simp: decode3_def split: list.split)
qed

lemma decode4_bounds:
  "1 \<le> snd (decode4 b r) \<and> snd (decode4 b r) \<le> Suc (length r)"
  "240 \<le> b \<Longrightarrow> 128 \<le> fst (decode4 b r)"
proof -
  show "1 \<le> snd (decode4 b r) \<and> snd (decode4 b r) \<le> Suc (length r)"
    by (simp add: decode4_def split: list.split)
  assume "240 \<le> b"
  then show "128 \<le> fst (decode4 b r)"
    by (cases "b = 240") (auto simp: decode4_def split: list.split)
qed

lemma decode_rune_width:
  "s \<noteq> [] \<Longrightarrow> 1 \<le> snd (decode_rune s) \<and> snd (decode_rune s) \<le> length s"
  by (cases s)
     (simp_all add: decode_rune_def decode2_bounds decode3_bounds decode4_bounds
        decode2_bounds(1)[simplified] decode3_bounds(1)[simplified] decode4_bounds(1)[simplified])

lemma decode_rune_ascii [simp]: "byte c < 128 \<Longrightarrow> decode_rune (c # s) = (byte c, 1)"
  by (simp add: decode_rune_def)

lemma decode_rune_multibyte: "\<not> byte c < 128 \<Longrightarrow> 128 \<le> fst (decode_rune (c # s))"
  by (simp add: decode_rune_def decode2_bounds decode3_bounds decode4_bounds)

text \<open>The runes of a string in order, each with the bytes it was decoded from.\<close>

function (sequential) chunks :: "string \<Rightarrow> (int \<times> string) list" where
  "chunks [] = []"
| "chunks (c # s) =
     (let n = snd (decode_rune (c # s))
      in (fst (decode_rune (c # s)), take n (c # s)) # chunks (drop n (c # s)))"
  by pat_completeness auto
termination
proof (relation "measure length")
  fix c s n
  assume "n = snd (decode_rune (c # s))"
  then show "(drop n (c # s), c # s) \<in> measure length"
    using decode_rune_width[of "c # s"] by auto
qed simp

lemma chunks_ascii [simp]: "byte c < 128 \<Longrightarrow> chunks (c # s) = (byte c, [c]) # chunks s"
  by simp

declare chunks.simps(2) [simp del]

lemma concat_chunks: "concat (map snd (chunks s)) = s"
proof (induction s rule: chunks.induct)
  case (2 c s)
  then show ?case by (simp add: chunks.simps(2) Let_def)
qed simp

definition valid_utf8 :: "string \<Rightarrow> bool" where
  "valid_utf8 s = list_all (\<lambda>(r, b). \<not> (r = rune_error \<and> length b = 1)) (chunks s)"

lemma valid_utf8_ascii: "list_all (\<lambda>c. byte c < 128) s \<Longrightarrow> valid_utf8 s"
  by (induction s) (auto simp: valid_utf8_def)

subsection \<open>White space\<close>

definition is_space :: "int \<Rightarrow> bool" where
  "is_space r \<longleftrightarrow>
     r \<in> {9, 10, 11, 12, 13, 32, 133, 160, 5760, 8232, 8233, 8239, 8287, 12288} \<or>
     8192 \<le> r \<and> r \<le> 8202"

definition contains_space :: "string \<Rightarrow> bool" where
  "contains_space s = list_ex (\<lambda>(r, _). is_space r) (chunks s)"

definition trim_space :: "string \<Rightarrow> string" where
  "trim_space s =
     concat (map snd (rev (dropWhile (\<lambda>(r, _). is_space r)
       (rev (dropWhile (\<lambda>(r, _). is_space r) (chunks s))))))"

lemma contains_space_Nil [simp]: "\<not> contains_space []"
  by (simp add: contains_space_def)

lemma dropWhile_none: "\<forall>x \<in> set xs. \<not> P x \<Longrightarrow> dropWhile P xs = xs"
  by (cases xs) auto

lemma trim_space_no_space: "\<not> contains_space s \<Longrightarrow> trim_space s = s"
  by (simp add: trim_space_def contains_space_def list_ex_iff dropWhile_none concat_chunks)

lemma trim_space_Nil [simp]: "trim_space [] = []"
  by (simp add: trim_space_def)

subsection \<open>Case folding against ASCII words\<close>

definition ascii_lower :: "char \<Rightarrow> char" where
  "ascii_lower c = (if 65 \<le> byte c \<and> byte c \<le> 90 then char_of (byte c + 32) else c)"

definition lower_rune :: "int \<times> string \<Rightarrow> string" where
  "lower_rune rb =
     (case rb of (r, b) \<Rightarrow>
        if r < 128 then map ascii_lower b
        else if r = 304 then ''i''
        else if r = 8490 then ''k''
        else if r = rune_error then [char_of (239::int), char_of (191::int), char_of (189::int)]
        else b)"

definition to_lower :: "string \<Rightarrow> string" where
  "to_lower s = concat (map lower_rune (chunks s))"

text \<open>
  \<open>strings.EqualFold\<close> with an ASCII word that holds neither k nor s, the two
  letters a non-ASCII rune folds to: equal after lower-casing the ASCII letters.
\<close>

definition equal_fold :: "string \<Rightarrow> string \<Rightarrow> bool" where
  "equal_fold s t = (map ascii_lower s = map ascii_lower t)"

subsection \<open>strconv\<close>

abbreviation is_digit :: "char \<Rightarrow> bool" where
  "is_digit c \<equiv> 48 \<le> byte c \<and> byte c \<le> 57"

fun parse_digits :: "int \<Rightarrow> int \<Rightarrow> string \<Rightarrow> int option" where
  "parse_digits lim n [] = Some n"
| "parse_digits lim n (c # cs) =
     (if is_digit c then
        (let n' = n * 10 + (byte c - 48) in if n' > lim then None else parse_digits lim n' cs)
      else None)"

definition parse_uint :: "nat \<Rightarrow> string \<Rightarrow> int option" where
  "parse_uint bits s = (if s = [] then None else parse_digits (2 ^ bits - 1) 0 s)"

definition atoi :: "string \<Rightarrow> int option" where
  "atoi s =
     (case s of
        [] \<Rightarrow> None
      | c # cs \<Rightarrow>
        if c = CHR ''-'' then
          (if cs = [] then None else map_option uminus (parse_digits (2 ^ 63) 0 cs))
        else
          (let ds = (if c = CHR ''+'' then cs else s)
           in if ds = [] then None else parse_digits (2 ^ 63 - 1) 0 ds))"

definition digit_char :: "int \<Rightarrow> char" where
  "digit_char n = char_of (48 + n)"

function format_uint :: "int \<Rightarrow> string" where
  "format_uint n =
     (if n < 10 then [digit_char n] else format_uint (n div 10) @ [digit_char (n mod 10)])"
  by pat_completeness auto
termination
  by (relation "measure nat") auto

definition format_int :: "int \<Rightarrow> string" where
  "format_int i = (if i < 0 then CHR ''-'' # format_uint (- i) else format_uint i)"

definition parse_bool :: "string \<Rightarrow> bool option" where
  "parse_bool s =
     (if s \<in> {''1'', ''t'', ''T'', ''true'', ''TRUE'', ''True''} then Some True
      else if s \<in> {''0'', ''f'', ''F'', ''false'', ''FALSE'', ''False''} then Some False
      else None)"

declare format_uint.simps [simp del]

text \<open>The value of a digit string, read without a bound.\<close>

fun digits_value :: "int \<Rightarrow> string \<Rightarrow> int" where
  "digits_value n [] = n"
| "digits_value n (c # cs) = digits_value (n * 10 + (byte c - 48)) cs"

lemma digits_value_ge: "0 \<le> n \<Longrightarrow> list_all is_digit s \<Longrightarrow> n \<le> digits_value n s"
proof (induction s arbitrary: n)
  case (Cons c cs)
  then have "n \<le> n * 10 + (byte c - 48)" and "0 \<le> n * 10 + (byte c - 48)" by auto
  moreover from this Cons have "n * 10 + (byte c - 48) \<le> digits_value (n * 10 + (byte c - 48)) cs"
    by simp
  ultimately show ?case by simp
qed simp

lemma parse_digits_eq:
  "0 \<le> n \<Longrightarrow> n \<le> lim \<Longrightarrow> parse_digits lim n s =
     (if list_all is_digit s \<and> digits_value n s \<le> lim then Some (digits_value n s) else None)"
proof (induction s arbitrary: n)
  case (Cons c cs)
  let ?n = "n * 10 + (byte c - 48)"
  show ?case
  proof (cases "is_digit c")
    case True
    with Cons.prems have n0: "0 \<le> ?n" by linarith
    show ?thesis
    proof (cases "?n > lim")
      case big: True
      have "\<not> (list_all is_digit cs \<and> digits_value ?n cs \<le> lim)"
        using digits_value_ge[OF n0, of cs] big by linarith
      with big True show ?thesis
        by (simp only: parse_digits.simps digits_value.simps Let_def if_True list.pred_inject) auto
    next
      case False
      then have "?n \<le> lim" by linarith
      note IH = Cons.IH[OF n0 this]
      from False True show ?thesis
        by (simp only: parse_digits.simps digits_value.simps Let_def if_False IH list.pred_inject) auto
    qed
  qed auto
qed simp

lemma parse_uint_eq:
  "parse_uint bits s =
     (if s \<noteq> [] \<and> list_all is_digit s \<and> digits_value 0 s < 2 ^ bits
      then Some (digits_value 0 s) else None)"
proof -
  have "(0::int) \<le> 2 ^ bits - 1" by simp
  note eq = parse_digits_eq[OF order_refl this, of s]
  show ?thesis by (auto simp: parse_uint_def eq)
qed

lemma byte_digit_char [simp]: "0 \<le> d \<Longrightarrow> d < 10 \<Longrightarrow> byte (digit_char d) = 48 + d"
  by (simp add: digit_char_def)

lemma digits_value_append:
  "digits_value n (s @ [c]) = digits_value n s * 10 + (byte c - 48)"
  by (induction s arbitrary: n) simp_all

lemma format_uint_digits: "0 \<le> n \<Longrightarrow> list_all is_digit (format_uint n)"
proof (induction n rule: format_uint.induct)
  case (1 n)
  then show ?case by (subst format_uint.simps) (auto simp: list_all_iff)
qed

lemma format_uint_value: "0 \<le> n \<Longrightarrow> digits_value 0 (format_uint n) = n"
proof (induction n rule: format_uint.induct)
  case (1 n)
  then show ?case by (subst format_uint.simps) (auto simp: digits_value_append)
qed

lemma format_uint_not_Nil [simp]: "format_uint n \<noteq> []"
  by (subst format_uint.simps) simp

lemma parse_format_uint: "0 \<le> n \<Longrightarrow> n < 2 ^ bits \<Longrightarrow> parse_uint bits (format_uint n) = Some n"
  by (simp add: parse_uint_eq format_uint_digits format_uint_value)

lemma format_uint_inj: "0 \<le> m \<Longrightarrow> 0 \<le> n \<Longrightarrow> format_uint m = format_uint n \<longleftrightarrow> m = n"
  by (metis format_uint_value)

lemmas utf8_eval = decode_rune_def decode2_def decode3_def decode4_def chunks.simps(2) Let_def
lemmas space_eval = contains_space_def trim_space_def is_space_def

end
