(* ===== verification/Service.thy ===== *)
theory Service
  imports Go_Strings
begin

text \<open>
  \<open>internal/hypervisor/service.go\<close>: the sentinel errors, the result types of the
  \<open>Service\<close> interface and \<open>StateName\<close>; and the Go errors built from them.

  A Go error is a value: a sentinel, an error of the libvirt binding, a context error, a
  fresh error, or one that \<open>fmt.Errorf\<close> wrapped with \<open>%w\<close>.  A message is a list of parts,
  so that what comes from the program (\<open>Lit\<close>), an argument printed with \<open>%q\<close> (\<open>Quo\<close>) and
  the text of a library's error (\<open>Ext\<close>) stay apart.
\<close>

subsection \<open>Errors\<close>

datatype sentinel = ErrNotFound | ErrSnapshotNotFound | ErrConflict | ErrUnsupported

datatype lv_code =
    ERR_NO_DOMAIN
  | ERR_OPERATION_INVALID
  | ERR_NO_SUPPORT
  | ERR_OPERATION_UNSUPPORTED
  | ERR_CONFIG_UNSUPPORTED
  | ERR_ARGUMENT_UNSUPPORTED
  | ERR_NO_DOMAIN_SNAPSHOT
  | ERR_OTHER int

text \<open>An error of the binding: \<open>libvirt.Error\<close> with its code, or another error value.\<close>

datatype lverr = LvError lv_code string | LvPlain string

datatype ctx_err = Canceled | DeadlineExceeded

datatype msgpart = Lit string | Quo string | Ext string

datatype goerr =
    Sentinel sentinel
  | Lib lverr
  | Ctx ctx_err
  | New "msgpart list"
  | Wrap "msgpart list" goerr "msgpart list"

fun sentinel_text :: "sentinel \<Rightarrow> string" where
  "sentinel_text ErrNotFound = ''domain not found''"
| "sentinel_text ErrSnapshotNotFound = ''snapshot not found''"
| "sentinel_text ErrConflict = ''domain state conflict''"
| "sentinel_text ErrUnsupported = ''operation unsupported''"

fun ctx_text :: "ctx_err \<Rightarrow> string" where
  "ctx_text Canceled = ''context canceled''"
| "ctx_text DeadlineExceeded = ''context deadline exceeded''"

fun lverr_text :: "lverr \<Rightarrow> string" where
  "lverr_text (LvError _ m) = m"
| "lverr_text (LvPlain m) = m"

text \<open>\<open>errors.Is\<close> against a sentinel and against a libvirt error number.\<close>

fun is_err :: "goerr \<Rightarrow> sentinel \<Rightarrow> bool" where
  "is_err (Sentinel s) t = (s = t)"
| "is_err (Wrap _ e _) t = is_err e t"
| "is_err _ _ = False"

fun is_lv :: "goerr \<Rightarrow> lv_code \<Rightarrow> bool" where
  "is_lv (Lib (LvError c _)) n = (c = n)"
| "is_lv (Wrap _ e _) n = is_lv e n"
| "is_lv _ _ = False"

fun lv_is :: "lverr \<Rightarrow> lv_code \<Rightarrow> bool" where
  "lv_is (LvError c _) n = (c = n)"
| "lv_is (LvPlain _) n = False"

fun error_text :: "goerr \<Rightarrow> msgpart list" where
  "error_text (Sentinel s) = [Lit (sentinel_text s)]"
| "error_text (Lib e) = [Ext (lverr_text e)]"
| "error_text (Ctx e) = [Lit (ctx_text e)]"
| "error_text (New m) = m"
| "error_text (Wrap pre e post) = pre @ error_text e @ post"

fun is_ext :: "msgpart \<Rightarrow> bool" where
  "is_ext (Ext _) = True"
| "is_ext _ = False"

text \<open>The text of a library's error occurs in the message.\<close>

definition leaks :: "msgpart list \<Rightarrow> bool" where
  "leaks m = list_ex is_ext m"

lemma leaks_simps [simp]:
  "\<not> leaks []" "leaks (Lit s # m) = leaks m" "leaks (Quo s # m) = leaks m" "leaks (Ext s # m)"
  "leaks (m @ n) = (leaks m \<or> leaks n)"
  by (simp_all add: leaks_def)

lemma is_err_unique: "is_err e s \<Longrightarrow> is_err e t \<Longrightarrow> s = t"
  by (induction e) auto

lemma is_err_not_lv: "is_err e s \<Longrightarrow> \<not> is_lv e n"
  by (induction e) auto

lemma is_lv_Lib [simp]: "is_lv (Lib e) n = lv_is e n"
  by (cases e) auto

text \<open>
  The errors that the HTTP layer turns into a client error carry no library text:
  the message of a classified error may be shown.
\<close>

definition presentable :: "goerr \<Rightarrow> bool" where
  "presentable e \<longleftrightarrow> (is_err e ErrConflict \<or> is_err e ErrUnsupported \<longrightarrow> \<not> leaks (error_text e))"

lemma presentable_unclassified:
  "\<not> is_err e ErrConflict \<Longrightarrow> \<not> is_err e ErrUnsupported \<Longrightarrow> presentable e"
  by (simp add: presentable_def)

lemma presentable_Lib [simp]: "presentable (Lib e)" "presentable (Wrap p (Lib e) q)"
  "presentable (Ctx c)" "presentable (Wrap p (Ctx c) q)" "presentable (New m)"
  "presentable (Wrap p (New m) q)"
  by (simp_all add: presentable_def)

lemma presentable_Sentinel [simp]:
  "presentable (Sentinel s)" "\<not> leaks p \<Longrightarrow> \<not> leaks q \<Longrightarrow> presentable (Wrap p (Sentinel s) q)"
  by (simp_all add: presentable_def)

subsection \<open>Times\<close>

text \<open>
  A \<open>time.Time\<close> read in whole seconds since year 1, the representation the package
  compares: a signed 64-bit count.  \<open>time.Unix\<close> adds the offset of the Unix epoch,
  wrapping around.  JSON can represent the years 0 to 9999 only.
\<close>

type_synonym gotime = "64 word"

definition time_unix :: "64 word \<Rightarrow> gotime" where
  "time_unix sec = sec + 62135596800"

definition time_before :: "gotime \<Rightarrow> gotime \<Rightarrow> bool" where
  "time_before t u \<longleftrightarrow> sint t < sint u"

definition time_encodable :: "gotime \<Rightarrow> bool" where
  "time_encodable t \<longleftrightarrow> - 31622400 \<le> sint t \<and> sint t < 315537897600"

subsection \<open>Requests and results of the Service interface\<close>

datatype DomainFilter = DomainAll | DomainActive | DomainInactive

text \<open>The string types of the package and their constants.\<close>

type_synonym PowerMode = string
type_synonym InterfaceAddressSource = string
type_synonym SnapshotKind = string
type_synonym SnapshotRevertState = string

abbreviation PowerModeDefault :: PowerMode where "PowerModeDefault \<equiv> ''default''"
abbreviation PowerModeACPI :: PowerMode where "PowerModeACPI \<equiv> ''acpi''"
abbreviation PowerModeGuestAgent :: PowerMode where "PowerModeGuestAgent \<equiv> ''guest-agent''"

abbreviation InterfaceSourceLease :: InterfaceAddressSource where "InterfaceSourceLease \<equiv> ''lease''"
abbreviation InterfaceSourceAgent :: InterfaceAddressSource where "InterfaceSourceAgent \<equiv> ''agent''"
abbreviation InterfaceSourceARP :: InterfaceAddressSource where "InterfaceSourceARP \<equiv> ''arp''"

abbreviation SnapshotKindSystem :: SnapshotKind where "SnapshotKindSystem \<equiv> ''system''"
abbreviation SnapshotKindDisk :: SnapshotKind where "SnapshotKindDisk \<equiv> ''disk''"

abbreviation SnapshotRevertRecorded :: SnapshotRevertState where
  "SnapshotRevertRecorded \<equiv> ''snapshot''"
abbreviation SnapshotRevertRunning :: SnapshotRevertState where
  "SnapshotRevertRunning \<equiv> ''running''"
abbreviation SnapshotRevertPaused :: SnapshotRevertState where
  "SnapshotRevertPaused \<equiv> ''paused''"

record Host =
  host_Name :: string
  host_Model :: string
  host_MemoryKiB :: "64 word"
  host_CPUs :: "64 word"
  host_MHz :: "64 word"
  host_NUMANodes :: "64 word"
  host_Sockets :: "64 word"
  host_Cores :: "64 word"
  host_Threads :: "64 word"

record Domain =
  dom_Name :: string
  dom_UUID :: string
  dom_ID :: int
  dom_State :: string
  dom_Active :: bool

record DomainInfo =
  info_Domain :: Domain
  info_StateCode :: int
  info_MaxMemoryKiB :: "64 word"
  info_MemoryKiB :: "64 word"
  info_VCPUs :: "64 word"
  info_CPUTimeNS :: "64 word"

record Viewer =
  viewer_Type :: string
  viewer_Listen :: "string option"
  viewer_Port :: "int option"

record ActionResult =
  act_Name :: string
  act_UUID :: string
  act_State :: string
  act_Status :: string

record CPUStats =
  cpu_CPUTimeNS :: "64 word option"
  cpu_UserTimeNS :: "64 word option"
  cpu_SystemTimeNS :: "64 word option"

record HostStats =
  hs_SampledAt :: gotime
  hs_CPU :: CPUStats
  hs_MemoryKiB :: "(string \<times> 64 word) list"

record BlockStats =
  blk_Device :: string
  blk_ReadBytes :: "int option"
  blk_ReadRequests :: "int option"
  blk_WriteBytes :: "int option"
  blk_WriteRequests :: "int option"

record NetworkStats =
  net_Device :: string
  net_RXBytes :: "int option"
  net_RXPackets :: "int option"
  net_TXBytes :: "int option"
  net_TXPackets :: "int option"

record DomainStats =
  ds_SampledAt :: gotime
  ds_Name :: string
  ds_UUID :: string
  ds_State :: string
  ds_CPU :: CPUStats
  ds_MemoryKiB :: "(string \<times> 64 word) list"
  ds_Disks :: "BlockStats list"
  ds_Interfaces :: "NetworkStats list"

record IPAddress =
  ip_Family :: string
  ip_Address :: string
  ip_Prefix :: "64 word"

record DomainInterface =
  if_Name :: string
  if_MAC :: string
  if_Addresses :: "IPAddress list"

record DomainInterfaces =
  ifs_Name :: string
  ifs_UUID :: string
  ifs_Source :: InterfaceAddressSource
  ifs_Interfaces :: "DomainInterface list"

record Autostart =
  auto_Name :: string
  auto_UUID :: string
  auto_Enabled :: bool

record Snapshot =
  snap_Name :: string
  snap_Description :: string
  snap_Parent :: string
  snap_State :: string
  snap_CreatedAt :: "gotime option"
  snap_Current :: bool

record SnapshotCreateRequest =
  scr_Name :: string
  scr_Description :: string
  scr_Kind :: SnapshotKind
  scr_Quiesce :: bool

record SnapshotRevertRequest =
  srr_State :: SnapshotRevertState
  srr_Force :: bool

record SnapshotActionResult =
  sar_Name :: string
  sar_UUID :: string
  sar_Snapshot :: string
  sar_Status :: string

subsection \<open>StateName\<close>

definition state_names :: "string list" where
  "state_names = [''no-state'', ''running'', ''blocked'', ''paused'', ''shutdown'',
                  ''shutoff'', ''crashed'', ''suspended'']"

definition StateName :: "int \<Rightarrow> string" where
  "StateName code =
     (if code < 0 \<or> code \<ge> int (length state_names) then ''unknown''
      else state_names ! nat code)"

lemma StateName_in: "StateName code \<in> insert ''unknown'' (set state_names)"
  by (auto simp: StateName_def)

end
