(* ===== verification/Go_Channel.thy ===== *)
theory Go_Channel
  imports Prelude
begin

text \<open>
  Go's buffered channels as values, and the outcomes a Go operation can have besides
  returning: a run-time panic (send on a closed channel, close of a closed channel) or
  blocking for ever.  The locale \<open>bounded_queue\<close> is what the clients of a channel rely
  on; the channel model is its interpretation.
\<close>

datatype 'a outcome = Ok 'a | Panicked | Blocked

fun bind_outcome :: "'a outcome \<Rightarrow> ('a \<Rightarrow> 'b outcome) \<Rightarrow> 'b outcome" where
  "bind_outcome (Ok x) f = f x"
| "bind_outcome Panicked f = Panicked"
| "bind_outcome Blocked f = Blocked"

lemma bind_outcome_Ok: "bind_outcome m f = Ok y \<longleftrightarrow> (\<exists>x. m = Ok x \<and> f x = Ok y)"
  by (cases m) auto

record 'a channel =
  ch_buf :: "'a list"
  ch_cap :: nat
  ch_closed :: bool

definition ch_make :: "nat \<Rightarrow> 'a channel" where
  "ch_make n = \<lparr>ch_buf = [], ch_cap = n, ch_closed = False\<rparr>"

definition ch_full :: "'a channel \<Rightarrow> bool" where
  "ch_full c \<longleftrightarrow> ch_cap c \<le> length (ch_buf c)"

text \<open>\<open>c <- x\<close>: panics on a closed channel, blocks on a full one.\<close>

definition ch_send :: "'a \<Rightarrow> 'a channel \<Rightarrow> 'a channel outcome" where
  "ch_send x c =
     (if ch_closed c then Panicked
      else if ch_full c then Blocked
      else Ok (c\<lparr>ch_buf := ch_buf c @ [x]\<rparr>))"

definition ch_close :: "'a channel \<Rightarrow> 'a channel outcome" where
  "ch_close c = (if ch_closed c then Panicked else Ok (c\<lparr>ch_closed := True\<rparr>))"

text \<open>
  \<open>x, open := <-c\<close>: the first buffered value, \<open>None\<close> once the channel is closed and
  drained; it blocks on an open empty channel.
\<close>

definition ch_recv :: "'a channel \<Rightarrow> ('a option \<times> 'a channel) outcome" where
  "ch_recv c =
     (case ch_buf c of
        x # xs \<Rightarrow> Ok (Some x, c\<lparr>ch_buf := xs\<rparr>)
      | [] \<Rightarrow> if ch_closed c then Ok (None, c) else Blocked)"

fun ch_send_all :: "'a list \<Rightarrow> 'a channel \<Rightarrow> 'a channel outcome" where
  "ch_send_all [] c = Ok c"
| "ch_send_all (x # xs) c = bind_outcome (ch_send x c) (ch_send_all xs)"

locale bounded_queue =
  fixes send :: "'a \<Rightarrow> 'q \<Rightarrow> 'q outcome"
    and content :: "'q \<Rightarrow> 'a list"
    and room :: "'q \<Rightarrow> nat"
    and live :: "'q \<Rightarrow> bool"
  assumes send_ok: "live q \<Longrightarrow> 0 < room q \<Longrightarrow>
      \<exists>q'. send x q = Ok q' \<and> content q' = content q @ [x] \<and> room q' = room q - 1 \<and> live q'"
begin

fun send_all :: "'a list \<Rightarrow> 'q \<Rightarrow> 'q outcome" where
  "send_all [] q = Ok q"
| "send_all (x # xs) q = bind_outcome (send x q) (send_all xs)"

lemma send_all_fits:
  "live q \<Longrightarrow> length xs \<le> room q \<Longrightarrow>
     \<exists>q'. send_all xs q = Ok q' \<and> content q' = content q @ xs \<and>
          room q' = room q - length xs \<and> live q'"
proof (induction xs arbitrary: q)
  case (Cons x xs)
  then obtain q1 where q1: "send x q = Ok q1" "content q1 = content q @ [x]"
      "room q1 = room q - 1" "live q1"
    using send_ok[of q x] by auto
  with Cons obtain q2 where "send_all xs q1 = Ok q2" "content q2 = content q1 @ xs"
      "room q2 = room q1 - length xs" "live q2"
    by fastforce
  with q1 show ?case by auto
qed simp

end

interpretation chan: bounded_queue ch_send ch_buf "\<lambda>c. ch_cap c - length (ch_buf c)" "\<lambda>c. \<not> ch_closed c"
  by unfold_locales (auto simp: ch_send_def ch_full_def)

lemma ch_send_all_chan: "ch_send_all xs c = chan.send_all xs c"
proof (induction xs arbitrary: c)
  case (Cons x xs)
  then show ?case by (cases "ch_send x c") simp_all
qed simp

text \<open>A fresh channel takes as many values as it has capacity, without blocking.\<close>

lemma ch_send_all_make:
  assumes "length xs \<le> n"
  shows "ch_send_all xs (ch_make n) = Ok \<lparr>ch_buf = xs, ch_cap = n, ch_closed = False\<rparr>"
proof -
  have frame: "ch_send_all ys c = Ok c' \<Longrightarrow> ch_cap c' = ch_cap c \<and> ch_closed c' = ch_closed c"
    for ys :: "'a list" and c c'
    by (induction ys arbitrary: c) (auto simp: bind_outcome_Ok ch_send_def split: if_splits)
  have "\<not> ch_closed (ch_make n)" and "length xs \<le> ch_cap (ch_make n) - length (ch_buf (ch_make n))"
    using assms by (simp_all add: ch_make_def)
  from chan.send_all_fits[OF this] obtain c' where
    "ch_send_all xs (ch_make n) = Ok c'" "ch_buf c' = xs"
    by (auto simp: ch_send_all_chan ch_make_def)
  with frame[of xs "ch_make n" c'] show ?thesis
    by (cases c') (simp add: ch_make_def)
qed

end
