(* ===== verification/Events.thy ===== *)
theory Events
  imports Service Go_Channel
begin

text \<open>
  \<open>internal/hypervisor/events.go\<close>: the lifecycle event broker.  Every operation of the
  broker runs under its mutex, so each is one atomic function of the broker's state; the
  map of subscribers is the list of its keys, and the channels live in a store addressed
  by number.  A channel send or close that Go would panic or block on is an outcome.

  Theory \<open>EventFeed\<close> runs the broker with its clients and proves the contract of the feed.
\<close>

subsection \<open>Data\<close>

record LifecycleEvent =
  ev_ID :: "64 word"
  ev_Cursor :: string
  ev_OccurredAt :: gotime
  ev_Name :: string
  ev_UUID :: string
  ev_Event :: string
  ev_Detail :: int
  ev_StreamReset :: bool

record eventBroker =
  nextID :: "64 word"
  history :: "LifecycleEvent list"
  subscribers :: "nat list"
  closed :: bool
  generation :: string
  chans :: "nat \<Rightarrow> LifecycleEvent channel"
  next_chan :: nat
  cancelled :: "nat \<Rightarrow> bool"

subsection \<open>Operations\<close>

definition hex_digit :: "int \<Rightarrow> char" where
  "hex_digit d = (if d < 10 then char_of (48 + d) else char_of (87 + d))"

definition hex_encode :: "8 word list \<Rightarrow> string" where
  "hex_encode bs = concat (map (\<lambda>b. [hex_digit (uint b div 16), hex_digit (uint b mod 16)]) bs)"

function format_base36 :: "int \<Rightarrow> string" where
  "format_base36 n =
     (if n < 36 then [hex_digit n] else format_base36 (n div 36) @ [hex_digit (n mod 36)])"
  by pat_completeness auto
termination
  by (relation "measure nat") auto

declare format_base36.simps [simp del]

definition empty_broker :: "string \<Rightarrow> eventBroker" where
  "empty_broker gen =
     \<lparr>nextID = 0, history = [], subscribers = [], closed = False, generation = gen,
      chans = (\<lambda>_. ch_make 0), next_chan = 0, cancelled = (\<lambda>_. False)\<rparr>"

text \<open>The argument is what \<open>rand.Read\<close> gives, and the clock for when it fails.\<close>

definition newEventBroker :: "8 word list option \<Rightarrow> int \<Rightarrow> eventBroker" where
  "newEventBroker random unixnano =
     (case random of
        None \<Rightarrow> empty_broker ((if unixnano < 0 then ''-'' else []) @ format_base36 \<bar>unixnano\<bar>)
      | Some bytes \<Rightarrow> empty_broker (hex_encode bytes))"

definition cursor :: "eventBroker \<Rightarrow> 64 word \<Rightarrow> string" where
  "cursor b i = generation b @ '':'' @ format_uint (uint i)"

definition afterCursor :: "eventBroker \<Rightarrow> string \<Rightarrow> 64 word \<times> bool" where
  "afterCursor b cur =
     (if cur = [] then (0, False)
      else (case cut_at (CHR '':'') cur of
          (gen, sequence, found) \<Rightarrow>
            if \<not> found \<or> gen \<noteq> generation b then (0, True)
            else (case parse_uint 64 sequence of
                None \<Rightarrow> (0, True)
              | Some after \<Rightarrow>
                if word_of_int after > nextID b then (0, True) else (word_of_int after, False))))"

definition deliver :: "LifecycleEvent \<Rightarrow> nat \<Rightarrow> eventBroker \<Rightarrow> eventBroker outcome" where
  "deliver event i b =
     (case ch_send event (chans b i) of
        Ok c \<Rightarrow> Ok (b\<lparr>chans := (chans b)(i := c)\<rparr>)
      | Panicked \<Rightarrow> Panicked
      | Blocked \<Rightarrow>
        (case ch_close (chans b i) of
           Ok c \<Rightarrow> Ok (b\<lparr>chans := (chans b)(i := c),
                       subscribers := filter (\<lambda>j. j \<noteq> i) (subscribers b)\<rparr>)
         | _ \<Rightarrow> Panicked))"

fun deliver_all :: "LifecycleEvent \<Rightarrow> nat list \<Rightarrow> eventBroker \<Rightarrow> eventBroker outcome" where
  "deliver_all event [] b = Ok b"
| "deliver_all event (i # is) b = bind_outcome (deliver event i b) (deliver_all event is)"

definition publish :: "gotime \<Rightarrow> LifecycleEvent \<Rightarrow> eventBroker \<Rightarrow> eventBroker outcome" where
  "publish now event b =
     (if closed b then Ok b
      else
        (let i = nextID b + 1;
             event = event\<lparr>ev_ID := i, ev_Cursor := cursor b i, ev_OccurredAt := now\<rparr>;
             h = history b @ [event];
             h = (if length h > 256 then drop (length h - 256) h else h)
         in deliver_all event (subscribers b) (b\<lparr>nextID := i, history := h\<rparr>)))"

text \<open>Lines 78 to 81 of \<open>subscribe\<close>: where the replay starts, or that it cannot.\<close>

definition replayPoint :: "eventBroker \<Rightarrow> string \<Rightarrow> 64 word \<times> bool" where
  "replayPoint b cur =
     (let (after, unreplayable) = afterCursor b cur in
      if \<not> unreplayable \<and> history b \<noteq> [] \<and> after < ev_ID (hd (history b)) - 1
      then (after, True) else (after, unreplayable))"

definition resetEvent :: "gotime \<Rightarrow> eventBroker \<Rightarrow> LifecycleEvent" where
  "resetEvent now b =
     \<lparr>ev_ID = nextID b, ev_Cursor = cursor b (nextID b), ev_OccurredAt = now, ev_Name = [],
      ev_UUID = [], ev_Event = [], ev_Detail = 0, ev_StreamReset = True\<rparr>"

definition subscribe :: "gotime \<Rightarrow> string \<Rightarrow> eventBroker \<Rightarrow> (nat \<times> eventBroker) outcome" where
  "subscribe now cur b =
     (let i = next_chan b; channel = ch_make (length (history b) + 33) in
      if closed b then
        bind_outcome (ch_close channel)
          (\<lambda>c. Ok (i, b\<lparr>chans := (chans b)(i := c), next_chan := Suc i\<rparr>))
      else
        (let (after, unreplayable) = replayPoint b cur in
         bind_outcome
           (if unreplayable then ch_send (resetEvent now b) channel
            else ch_send_all (filter (\<lambda>e. ev_ID e > after) (history b)) channel)
           (\<lambda>c. Ok (i, b\<lparr>chans := (chans b)(i := c), next_chan := Suc i,
                         subscribers := subscribers b @ [i]\<rparr>))))"

text \<open>The \<open>cancel\<close> closure of subscription \<open>i\<close>, also run when its context is done.\<close>

definition cancel :: "nat \<Rightarrow> eventBroker \<Rightarrow> eventBroker outcome" where
  "cancel i b =
     (if cancelled b i then Ok b
      else
        (let b = b\<lparr>cancelled := (cancelled b)(i := True)\<rparr> in
         if i \<in> set (subscribers b) then
           bind_outcome (ch_close (chans b i))
             (\<lambda>c. Ok (b\<lparr>subscribers := filter (\<lambda>j. j \<noteq> i) (subscribers b),
                         chans := (chans b)(i := c)\<rparr>))
         else Ok b))"

fun close_all :: "nat list \<Rightarrow> eventBroker \<Rightarrow> eventBroker outcome" where
  "close_all [] b = Ok b"
| "close_all (i # is) b =
     bind_outcome (ch_close (chans b i)) (\<lambda>c. close_all is (b\<lparr>chans := (chans b)(i := c)\<rparr>))"

definition close :: "eventBroker \<Rightarrow> eventBroker outcome" where
  "close b =
     (if closed b then Ok b
      else bind_outcome (close_all (subscribers b) (b\<lparr>closed := True\<rparr>))
        (\<lambda>b. Ok (b\<lparr>subscribers := []\<rparr>)))"

subsection \<open>Cursors\<close>

lemma cursor_cut:
  "CHR '':'' \<notin> set (generation b) \<Longrightarrow>
     cut_at (CHR '':'') (cursor b i) = (generation b, format_uint (uint i), True)"
  by (simp add: cursor_def cut_at_present)

lemma parse_format_word: "parse_uint 64 (format_uint (uint (i :: 64 word))) = Some (uint i)"
  by (rule parse_format_uint) (use uint_lt2p[of i] in simp_all)

lemma afterCursor_cursor:
  "CHR '':'' \<notin> set (generation b) \<Longrightarrow>
     afterCursor b (cursor b i) = (if i \<le> nextID b then (i, False) else (0, True))"
  using cursor_cut[of b i]
  by (auto simp: afterCursor_def parse_format_word cursor_def)

lemma afterCursor_bound: "fst (afterCursor b cur) \<le> nextID b"
  by (auto simp: afterCursor_def split: prod.split option.split)

lemma afterCursor_foreign:
  "CHR '':'' \<notin> set gen \<Longrightarrow> gen \<noteq> generation b \<Longrightarrow> snd (afterCursor b (gen @ '':'' @ s))"
  by (simp add: afterCursor_def cut_at_present)

lemma hex_digit_not_colon: "0 \<le> d \<Longrightarrow> d < 36 \<Longrightarrow> hex_digit d \<noteq> CHR '':''"
proof
  assume "0 \<le> d" "d < 36" "hex_digit d = CHR '':''"
  then have "byte (hex_digit d) = 58" by simp
  with \<open>0 \<le> d\<close> \<open>d < 36\<close> show False by (auto simp: hex_digit_def split: if_splits)
qed

lemma hex_encode_no_colon: "CHR '':'' \<notin> set (hex_encode bs)"
proof -
  have "hex_digit (uint b div 16) \<noteq> CHR '':''" and "hex_digit (uint b mod 16) \<noteq> CHR '':''"
    for b :: "8 word"
  proof -
    have "0 \<le> x div 16 \<and> x div 16 < 36 \<and> 0 \<le> x mod 16 \<and> x mod 16 < 36"
      if "0 \<le> x" "x < 256" for x :: int
      using that by presburger
    from this[of "uint b"] show "hex_digit (uint b div 16) \<noteq> CHR '':''"
      "hex_digit (uint b mod 16) \<noteq> CHR '':''"
      using uint_lt2p[of b] by (simp_all add: hex_digit_not_colon)
  qed
  then show ?thesis by (auto simp: hex_encode_def) metis+
qed

lemma format_base36_no_colon: "0 \<le> n \<Longrightarrow> CHR '':'' \<notin> set (format_base36 n)"
proof (induction n rule: format_base36.induct)
  case (1 n)
  then show ?case
    using hex_digit_not_colon[of n] hex_digit_not_colon[of "n mod 36"]
    by (subst format_base36.simps) auto
qed

lemma newEventBroker_generation: "CHR '':'' \<notin> set (generation (newEventBroker r t))"
  by (auto simp: newEventBroker_def empty_broker_def hex_encode_no_colon format_base36_no_colon
      split: option.split)

end
