(* ===== verification/EventFeed.thy ===== *)
theory EventFeed
  imports Events
begin

text \<open>
  The broker together with its clients.  The ghost fields of the system record every
  event published so far, and for each subscription the position its stream starts at,
  the reset notice it was given (if any) and the events read from its channel.  An action
  is one atomic operation of the broker or one receive by a subscriber; a reachable state
  is the result of any sequence of them, so what is proved of reachable states holds under
  every interleaving.
\<close>

subsection \<open>Effect of the delivery loop\<close>

definition deliver_chan :: "LifecycleEvent \<Rightarrow> LifecycleEvent channel \<Rightarrow> LifecycleEvent channel" where
  "deliver_chan event c =
     (if ch_full c then c\<lparr>ch_closed := True\<rparr> else c\<lparr>ch_buf := ch_buf c @ [event]\<rparr>)"

definition after_delivery :: "LifecycleEvent \<Rightarrow> nat list \<Rightarrow> eventBroker \<Rightarrow> eventBroker" where
  "after_delivery event is b =
     b\<lparr>chans := (\<lambda>i. if i \<in> set is then deliver_chan event (chans b i) else chans b i),
       subscribers := filter (\<lambda>i. \<not> (i \<in> set is \<and> ch_full (chans b i))) (subscribers b)\<rparr>"

lemma deliver_open:
  "\<not> ch_closed (chans b i) \<Longrightarrow> deliver event i b = Ok (after_delivery event [i] b)"
  by (auto simp: deliver_def after_delivery_def deliver_chan_def ch_send_def ch_close_def fun_eq_iff
      intro!: filter_cong)

lemma after_delivery_Cons:
  "i \<notin> set is \<Longrightarrow> after_delivery event is (after_delivery event [i] b) = after_delivery event (i # is) b"
  by (rule eventBroker.equality) (auto simp: after_delivery_def fun_eq_iff intro!: filter_cong)

lemma deliver_all_open:
  "distinct is \<Longrightarrow> \<forall>i \<in> set is. \<not> ch_closed (chans b i) \<Longrightarrow>
     deliver_all event is b = Ok (after_delivery event is b)"
proof (induction "is" arbitrary: b)
  case Nil
  then show ?case by (simp add: after_delivery_def)
next
  case (Cons i "is")
  let ?b = "after_delivery event [i] b"
  have "\<forall>j \<in> set is. \<not> ch_closed (chans ?b j)"
    using Cons.prems by (auto simp: after_delivery_def)
  with Cons have "deliver_all event is ?b = Ok (after_delivery event is ?b)" by simp
  with Cons.prems show ?case by (simp add: deliver_open after_delivery_Cons)
qed

text \<open>The iteration order of the subscriber map makes no difference.\<close>

lemma deliver_all_order:
  assumes "distinct is" and "set js = set is" and "distinct js"
    and "\<forall>i \<in> set is. \<not> ch_closed (chans b i)"
  shows "deliver_all event js b = deliver_all event is b"
  using assms by (simp add: deliver_all_open after_delivery_def)

lemma close_all_open:
  "distinct is \<Longrightarrow> \<forall>i \<in> set is. \<not> ch_closed (chans b i) \<Longrightarrow>
     close_all is b =
       Ok (b\<lparr>chans := (\<lambda>i. if i \<in> set is then (chans b i)\<lparr>ch_closed := True\<rparr> else chans b i)\<rparr>)"
proof (induction "is" arbitrary: b)
  case (Cons i "is")
  then show ?case by (auto simp: ch_close_def fun_eq_iff)
qed simp

subsection \<open>The system\<close>

record feed =
  broker :: eventBroker
  published :: "LifecycleEvent list"
  base :: "nat \<Rightarrow> nat"
  notice :: "nat \<Rightarrow> LifecycleEvent list"
  received :: "nat \<Rightarrow> LifecycleEvent list"

datatype action =
    Publish gotime string string string int
  | Subscribe gotime string
  | Cancel nat
  | Receive nat
  | CloseBroker

definition lifecycle_event :: "string \<Rightarrow> string \<Rightarrow> string \<Rightarrow> int \<Rightarrow> LifecycleEvent" where
  "lifecycle_event name uuid event detail =
     \<lparr>ev_ID = 0, ev_Cursor = [], ev_OccurredAt = 0, ev_Name = name, ev_UUID = uuid,
      ev_Event = event, ev_Detail = detail, ev_StreamReset = False\<rparr>"

definition stamped :: "gotime \<Rightarrow> LifecycleEvent \<Rightarrow> eventBroker \<Rightarrow> LifecycleEvent" where
  "stamped now event b =
     event\<lparr>ev_ID := nextID b + 1, ev_Cursor := cursor b (nextID b + 1), ev_OccurredAt := now\<rparr>"

definition stream :: "feed \<Rightarrow> nat \<Rightarrow> LifecycleEvent list" where
  "stream s i = received s i @ ch_buf (chans (broker s) i)"

fun perform :: "action \<Rightarrow> feed \<Rightarrow> feed outcome" where
  "perform (Publish now name uuid event detail) s =
     (let e = lifecycle_event name uuid event detail in
      bind_outcome (publish now e (broker s))
        (\<lambda>b. Ok (s\<lparr>broker := b,
                   published := published s @
                     (if closed (broker s) then [] else [stamped now e (broker s)])\<rparr>)))"
| "perform (Subscribe now cur) s =
     bind_outcome (subscribe now cur (broker s))
       (\<lambda>(i, b).
          let (after, unreplayable) = replayPoint (broker s) cur; open = \<not> closed (broker s) in
          Ok (s\<lparr>broker := b,
                received := (received s)(i := []),
                notice := (notice s)(i := (if open \<and> unreplayable then [resetEvent now (broker s)] else [])),
                base := (base s)(i := (if open \<and> \<not> unreplayable then unat after
                                       else length (published s)))\<rparr>))"
| "perform (Cancel i) s = bind_outcome (cancel i (broker s)) (\<lambda>b. Ok (s\<lparr>broker := b\<rparr>))"
| "perform (Receive i) s =
     bind_outcome (ch_recv (chans (broker s) i))
       (\<lambda>(x, c). Ok (s\<lparr>broker := (broker s)\<lparr>chans := (chans (broker s))(i := c)\<rparr>,
                       received := (received s)(i := received s i @
                         (case x of None \<Rightarrow> [] | Some e \<Rightarrow> [e]))\<rparr>))"
| "perform CloseBroker s = bind_outcome (close (broker s)) (\<lambda>b. Ok (s\<lparr>broker := b\<rparr>))"

definition initial_feed :: "string \<Rightarrow> feed" where
  "initial_feed gen =
     \<lparr>broker = empty_broker gen, published = [], base = (\<lambda>_. 0), notice = (\<lambda>_. []),
      received = (\<lambda>_. [])\<rparr>"

inductive reachable :: "string \<Rightarrow> feed \<Rightarrow> bool" for gen where
  start: "reachable gen (initial_feed gen)"
| step: "reachable gen s \<Longrightarrow> perform a s = Ok s' \<Longrightarrow> reachable gen s'"

subsection \<open>Invariant\<close>

text \<open>Identifiers and cursors number the published events from one.\<close>

definition numbered :: "eventBroker \<Rightarrow> LifecycleEvent list \<Rightarrow> bool" where
  "numbered b es \<longleftrightarrow>
     (\<forall>k < length es. ev_ID (es ! k) = of_nat (Suc k) \<and>
        ev_Cursor (es ! k) = cursor b (of_nat (Suc k)) \<and> \<not> ev_StreamReset (es ! k))"

definition window :: "'a list \<Rightarrow> 'a list" where
  "window es = drop (length es - 256) es"

definition stream_ok :: "feed \<Rightarrow> nat \<Rightarrow> bool" where
  "stream_ok s i \<longleftrightarrow>
     (\<exists>upto. base s i \<le> upto \<and> upto \<le> length (published s) \<and>
        stream s i = notice s i @ drop (base s i) (take upto (published s)) \<and>
        (i \<in> set (subscribers (broker s)) \<longrightarrow> upto = length (published s)))"

definition notice_ok :: "feed \<Rightarrow> nat \<Rightarrow> bool" where
  "notice_ok s i \<longleftrightarrow>
     (\<forall>r \<in> set (notice s i). ev_StreamReset r \<and> ev_ID r = of_nat (base s i) \<and>
        ev_Cursor r = cursor (broker s) (of_nat (base s i))) \<and> length (notice s i) \<le> 1"

definition subs_ok :: "eventBroker \<Rightarrow> bool" where
  "subs_ok b \<longleftrightarrow>
     distinct (subscribers b) \<and>
     (\<forall>i \<in> set (subscribers b). i < next_chan b) \<and>
     (\<forall>i < next_chan b. ch_closed (chans b i) \<longleftrightarrow> i \<notin> set (subscribers b)) \<and>
     (closed b \<longrightarrow> subscribers b = [])"

definition feed_inv :: "string \<Rightarrow> feed \<Rightarrow> bool" where
  "feed_inv gen s \<longleftrightarrow>
     generation (broker s) = gen \<and>
     nextID (broker s) = of_nat (length (published s)) \<and>
     history (broker s) = window (published s) \<and>
     numbered (broker s) (published s) \<and>
     subs_ok (broker s) \<and>
     (\<forall>i < next_chan (broker s). stream_ok s i \<and> notice_ok s i)"

lemma window_snoc:
  "(let h = window es @ [e] in if length h > 256 then drop (length h - 256) h else h) =
     window (es @ [e])"
proof (cases "length es < 256")
  case False
  then obtain k where k: "length es = 256 + k" using le_Suc_ex by (metis not_less)
  then have "Suc (length es) - 256 = Suc k" "length es - 256 = k" by simp_all
  then show ?thesis using k by (simp add: window_def Let_def)
qed (simp add: window_def)

lemma numbered_snoc:
  "numbered b es \<Longrightarrow> ev_ID e = of_nat (Suc (length es)) \<Longrightarrow>
   ev_Cursor e = cursor b (of_nat (Suc (length es))) \<Longrightarrow> \<not> ev_StreamReset e \<Longrightarrow>
   numbered b (es @ [e])"
proof -
  assume *: "numbered b es" "ev_ID e = of_nat (Suc (length es))"
    "ev_Cursor e = cursor b (of_nat (Suc (length es)))" "\<not> ev_StreamReset e"
  have "ev_ID ((es @ [e]) ! k) = of_nat (Suc k) \<and>
      ev_Cursor ((es @ [e]) ! k) = cursor b (of_nat (Suc k)) \<and> \<not> ev_StreamReset ((es @ [e]) ! k)"
    if "k < length (es @ [e])" for k
  proof (cases "k < length es")
    case True
    with *(1) show ?thesis by (simp only: numbered_def nth_append if_True simp_thms)
  next
    case False
    with that have "k = length es" by simp
    with *(2-4) show ?thesis by (simp only: nth_append_length simp_thms)
  qed
  then show ?thesis unfolding numbered_def by blast
qed

lemma cursor_generation: "generation b' = generation b \<Longrightarrow> cursor b' i = cursor b i"
  by (simp add: cursor_def)

lemma numbered_generation: "generation b' = generation b \<Longrightarrow> numbered b' es = numbered b es"
  by (simp add: numbered_def cursor_def)

lemma feed_inv_start: "feed_inv gen (initial_feed gen)"
  unfolding feed_inv_def initial_feed_def empty_broker_def numbered_def subs_ok_def
  by (simp add: window_def)

subsection \<open>Replay\<close>

lemma unat_of_nat_64: "n < 2 ^ 64 \<Longrightarrow> unat (of_nat n :: 64 word) = n"
  by (simp add: unat_of_nat take_bit_nat_eq_self)

lemma numbered_nth: "numbered b es \<Longrightarrow> k < length es \<Longrightarrow> ev_ID (es ! k) = of_nat (Suc k)"
  unfolding numbered_def by blast

lemma numbered_less:
  "numbered b es \<Longrightarrow> length es < 2 ^ 64 \<Longrightarrow> k < length es \<Longrightarrow>
     after < ev_ID (es ! k) \<longleftrightarrow> unat after \<le> k"
  by (simp only: numbered_nth word_less_nat_alt) (simp only: unat_of_nat_64 less_Suc_eq_le)

lemma filter_numbered:
  assumes "numbered b es" and "length es < 2 ^ 64" and "k \<le> unat after"
  shows "filter (\<lambda>e. after < ev_ID e) (drop k es) = drop (unat after) es"
proof -
  let ?m = "unat after"
  have "drop k es = take (?m - k) (drop k es) @ drop ?m es"
    using append_take_drop_id[of "?m - k" "drop k es"] assms(3) by simp
  moreover have "filter (\<lambda>e. after < ev_ID e) (take (?m - k) (drop k es)) = []"
    using assms numbered_less[OF assms(1,2)]
    by (auto simp: filter_empty_conv in_set_conv_nth)
  moreover have "filter (\<lambda>e. after < ev_ID e) (drop ?m es) = drop ?m es"
    using numbered_less[OF assms(1,2)]
    by (auto simp: filter_id_conv in_set_conv_nth)
  ultimately show ?thesis by (metis append_Nil filter_append)
qed

lemma replay_start:
  assumes "numbered b es" and "length es < 2 ^ 64" and "es \<noteq> []"
  shows "after < ev_ID (hd (window es)) - 1 \<longleftrightarrow> unat after < length es - 256"
proof -
  let ?k = "length es - 256"
  have k: "?k < length es" using assms(3) by (cases es) auto
  then have "hd (window es) = es ! ?k" by (simp add: window_def hd_drop_conv_nth)
  then have "ev_ID (hd (window es)) - 1 = of_nat ?k"
    using numbered_nth[OF assms(1) k] by simp
  then show ?thesis
    using k assms(2) by (simp only: word_less_nat_alt) (simp only: unat_of_nat_64 less_trans)
qed

lemma window_Nil: "window es = [] \<longleftrightarrow> es = []"
  by (cases es) (auto simp: window_def)

lemma replayPoint_ok:
  assumes "feed_inv gen s" and "length (published s) < 2 ^ 64"
    and "replayPoint (broker s) cur = (after, False)"
  shows "unat after \<le> length (published s)" and "length (published s) - 256 \<le> unat after"
    and "filter (\<lambda>e. after < ev_ID e) (history (broker s)) = drop (unat after) (published s)"
proof -
  let ?b = "broker s" and ?P = "published s"
  have h: "history ?b = window ?P" "numbered ?b ?P" "nextID ?b = of_nat (length ?P)"
    using assms(1) by (auto simp: feed_inv_def)
  have a: "afterCursor ?b cur = (after, False)"
    "?P = [] \<or> \<not> after < ev_ID (hd (window ?P)) - 1"
    using assms(3) h(1) by (auto simp: replayPoint_def window_Nil split: prod.splits if_splits)
  have "after \<le> of_nat (length ?P)"
    using afterCursor_bound[of ?b cur] a(1) h(3) by simp
  then show up: "unat after \<le> length ?P"
    using assms(2) by (simp only: word_le_nat_alt unat_of_nat_64)
  show low: "length ?P - 256 \<le> unat after"
    using a(2) replay_start[OF h(2) assms(2)] by (cases "?P = []") auto
  show "filter (\<lambda>e. after < ev_ID e) (history ?b) = drop (unat after) ?P"
    using filter_numbered[OF h(2) assms(2) low] by (simp only: h(1) window_def)
qed

subsection \<open>Every action keeps the invariant\<close>

lemma subs_open: "subs_ok b \<Longrightarrow> i \<in> set (subscribers b) \<Longrightarrow> \<not> ch_closed (chans b i)"
  by (auto simp: subs_ok_def)

lemma publish_effect:
  assumes "subs_ok b" and "\<not> closed b"
  shows "publish now e b =
    Ok (after_delivery (stamped now e b) (subscribers b)
          (b\<lparr>nextID := nextID b + 1,
             history := (let h = history b @ [stamped now e b] in
                         if length h > 256 then drop (length h - 256) h else h)\<rparr>))"
  using assms subs_open[OF assms(1)]
  by (auto simp: publish_def Let_def stamped_def deliver_all_open subs_ok_def)

lemma after_delivery_subs_ok:
  "subs_ok b \<Longrightarrow> subs_ok (after_delivery e (subscribers b) b)"
  by (auto simp: subs_ok_def after_delivery_def deliver_chan_def)

lemma stream_ok_publish:
  assumes "stream_ok s i"
    and "broker s' = after_delivery e (subscribers (broker s)) b"
    and "chans b = chans (broker s)" and "subscribers b = subscribers (broker s)"
    and "published s' = published s @ [e]" and "base s' = base s" and "notice s' = notice s"
    and "received s' = received s"
  shows "stream_ok s' i"
proof -
  from assms(1) obtain upto where upto: "base s i \<le> upto" "upto \<le> length (published s)"
    "stream s i = notice s i @ drop (base s i) (take upto (published s))"
    "i \<in> set (subscribers (broker s)) \<Longrightarrow> upto = length (published s)"
    by (auto simp: stream_ok_def)
  show ?thesis
  proof (cases "i \<in> set (subscribers (broker s)) \<and> \<not> ch_full (chans (broker s) i)")
    case True
    then have "stream s' i = stream s i @ [e]"
      using assms by (simp add: stream_def after_delivery_def deliver_chan_def)
    with upto True assms(5-7) show ?thesis
      unfolding stream_ok_def by (intro exI[of _ "Suc upto"]) simp
  next
    case False
    then have "stream s' i = stream s i" "i \<notin> set (subscribers (broker s'))"
      using assms by (auto simp: stream_def after_delivery_def deliver_chan_def)
    with upto assms(5-7) show ?thesis
      unfolding stream_ok_def by (intro exI[of _ upto]) simp
  qed
qed

lemma feed_inv_publish:
  assumes inv: "feed_inv gen s" and step: "perform (Publish now name uuid event detail) s = Ok s'"
  shows "feed_inv gen s'"
proof (cases "closed (broker s)")
  case True
  with step have "s' = s" by (simp add: publish_def Let_def)
  with inv show ?thesis by simp
next
  case False
  let ?b = "broker s"
  let ?e = "stamped now (lifecycle_event name uuid event detail) ?b"
  let ?b1 = "?b\<lparr>nextID := nextID ?b + 1,
             history := (let h = history ?b @ [?e] in
                         if length h > 256 then drop (length h - 256) h else h)\<rparr>"
  have ok: "subs_ok ?b" and h: "history ?b = window (published s)"
    using inv by (simp_all add: feed_inv_def)
  have s': "s' = s\<lparr>broker := after_delivery ?e (subscribers ?b) ?b1, published := published s @ [?e]\<rparr>"
    using step False publish_effect[OF ok False] by (simp only: perform.simps Let_def bind_outcome.simps) simp
  have "subs_ok ?b1" using ok by (simp add: subs_ok_def)
  from after_delivery_subs_ok[OF this] have 1: "subs_ok (broker s')" by (simp add: s')
  have "numbered ?b (published s @ [?e])"
    using inv by (intro numbered_snoc)
      (simp_all add: feed_inv_def stamped_def lifecycle_event_def add.commute)
  then have 2: "numbered (broker s') (published s')"
    by (simp add: s' numbered_generation[of "broker s'" ?b] after_delivery_def numbered_def cursor_def)
  have 3: "history (broker s') = window (published s')"
    using window_snoc[of "published s" ?e] by (simp add: s' after_delivery_def h)
  have 4: "stream_ok s' i \<and> notice_ok s' i" if "i < next_chan ?b" for i
  proof -
    have "stream_ok s i" "notice_ok s i" using inv that by (simp_all add: feed_inv_def)
    then show ?thesis
      using stream_ok_publish[of s i s' ?e ?b1] by (simp add: s' notice_ok_def after_delivery_def cursor_def)
  qed
  show ?thesis
    using inv 1 2 3 4 by (simp add: feed_inv_def) (simp add: s' after_delivery_def)
qed

text \<open>
  What a new subscription gets: nothing from a closed broker; one reset notice if its
  cursor cannot be replayed; otherwise the published events after its cursor.  The
  channel is large enough for all of it, so the sends under the mutex do not block.
\<close>

lemma subscribe_effect:
  assumes "feed_inv gen s" and "length (published s) < 2 ^ 64"
    and "replayPoint (broker s) cur = (after, unreplayable)"
  shows "subscribe now cur (broker s) =
    (let b = broker s; i = next_chan b; n = length (history b) + 33;
         c = (if closed b then \<lparr>ch_buf = [], ch_cap = n, ch_closed = True\<rparr>
              else \<lparr>ch_buf = (if unreplayable then [resetEvent now b]
                              else drop (unat after) (published s)), ch_cap = n, ch_closed = False\<rparr>)
     in Ok (i, b\<lparr>chans := (chans b)(i := c), next_chan := Suc i,
                 subscribers := subscribers b @ (if closed b then [] else [i])\<rparr>))"
proof (cases "closed (broker s)")
  case True
  then show ?thesis by (simp add: subscribe_def Let_def ch_close_def ch_make_def)
next
  case opened: False
  let ?h = "history (broker s)"
  show ?thesis
  proof (cases unreplayable)
    case True
    with opened assms(3) show ?thesis
      by (simp add: subscribe_def Let_def ch_send_def ch_full_def ch_make_def)
  next
    case False
    with assms(3) have rp: "replayPoint (broker s) cur = (after, False)" by simp
    let ?es = "filter (\<lambda>e. after < ev_ID e) ?h"
    have "length ?es \<le> length ?h + 33"
      using length_filter_le[of "\<lambda>e. after < ev_ID e" ?h] by linarith
    from ch_send_all_make[OF this] opened False rp replayPoint_ok(3)[OF assms(1,2) rp]
    show ?thesis by (simp add: subscribe_def Let_def)
  qed
qed

lemma feed_inv_subscribe:
  assumes inv: "feed_inv gen s" and small: "length (published s) < 2 ^ 64"
    and step: "perform (Subscribe now cur) s = Ok s'"
  shows "feed_inv gen s'"
proof -
  let ?b = "broker s" and ?P = "published s"
  obtain after unreplayable where rp: "replayPoint ?b cur = (after, unreplayable)"
    by (cases "replayPoint ?b cur")
  note s' = step[unfolded perform.simps subscribe_effect[OF inv small rp] rp Let_def, simplified,
      symmetric]
  let ?i = "next_chan ?b"
  have ok: "subs_ok ?b" and last: "nextID ?b = of_nat (length ?P)"
    using inv by (simp_all add: feed_inv_def)
  then have fresh: "?i \<notin> set (subscribers ?b)" by (auto simp: subs_ok_def)
  have 1: "subs_ok (broker s')"
    using ok fresh by (auto simp: s' subs_ok_def less_Suc_eq)
  have old: "stream_ok s' j \<and> notice_ok s' j" if "j < ?i" for j
  proof -
    have "stream_ok s j" "notice_ok s j" using inv that by (simp_all add: feed_inv_def)
    then show ?thesis using that by (auto simp: s' stream_ok_def notice_ok_def stream_def cursor_def)
  qed
  have new: "stream_ok s' ?i \<and> notice_ok s' ?i"
  proof (cases "\<not> closed ?b \<and> \<not> unreplayable")
    case True
    then have "unat after \<le> length ?P" using replayPoint_ok(1)[OF inv small] rp by simp
    with True show ?thesis
      by (auto simp: s' stream_ok_def notice_ok_def stream_def intro!: exI[of _ "length ?P"])
  next
    case False
    then show ?thesis
      using fresh
      by (auto simp: s' stream_ok_def notice_ok_def stream_def resetEvent_def cursor_def last
          intro!: exI[of _ "length ?P"])
  qed
  have "next_chan (broker s') = Suc ?i" by (simp add: s')
  with old new have 2: "\<forall>j < next_chan (broker s'). stream_ok s' j \<and> notice_ok s' j"
    by (auto simp: less_Suc_eq)
  have 3: "generation (broker s') = gen" "nextID (broker s') = of_nat (length (published s'))"
    "history (broker s') = window (published s')" "numbered (broker s') (published s')"
    using inv by (simp_all add: feed_inv_def s' numbered_def cursor_def)
  from 1 2 3 show ?thesis by (simp only: feed_inv_def simp_thms)
qed

text \<open>The remaining actions leave the published events and the streams as they are.\<close>

lemma feed_inv_frame:
  assumes "feed_inv gen s" and "subs_ok (broker s')"
    and "set (subscribers (broker s')) \<subseteq> set (subscribers (broker s))"
    and "\<And>i. stream s' i = stream s i"
    and "published s' = published s" "base s' = base s" "notice s' = notice s"
    and "generation (broker s') = generation (broker s)" "nextID (broker s') = nextID (broker s)"
    and "history (broker s') = history (broker s)" "next_chan (broker s') = next_chan (broker s)"
  shows "feed_inv gen s'"
proof -
  have "stream_ok s' i \<and> notice_ok s' i" if "i < next_chan (broker s)" for i
  proof -
    have "stream_ok s i" "notice_ok s i" using assms(1) that by (simp_all add: feed_inv_def)
    then show ?thesis using assms(3-8) by (auto simp: stream_ok_def notice_ok_def cursor_def)
  qed
  then show ?thesis
    using assms by (simp add: feed_inv_def numbered_def cursor_def)
qed

lemma cancel_effect:
  assumes "subs_ok b"
  shows "cancel i b = Ok (if cancelled b i then b else
    b\<lparr>cancelled := (cancelled b)(i := True), subscribers := filter (\<lambda>j. j \<noteq> i) (subscribers b),
      chans := (if i \<in> set (subscribers b) then (chans b)(i := (chans b i)\<lparr>ch_closed := True\<rparr>)
                else chans b)\<rparr>)"
proof (cases "i \<in> set (subscribers b)")
  case True
  with subs_open[OF assms] show ?thesis by (simp add: cancel_def Let_def ch_close_def)
next
  case False
  then have "filter (\<lambda>j. j \<noteq> i) (subscribers b) = subscribers b" by (auto simp: filter_id_conv)
  with False show ?thesis by (simp add: cancel_def Let_def)
qed

lemma feed_inv_cancel:
  assumes inv: "feed_inv gen s" and step: "perform (Cancel i) s = Ok s'"
  shows "feed_inv gen s'"
proof (cases "cancelled (broker s) i")
  case True
  with inv step show ?thesis by (simp add: cancel_def)
next
  case False
  have ok: "subs_ok (broker s)" using inv by (simp add: feed_inv_def)
  define b where "b = (broker s)\<lparr>cancelled := (cancelled (broker s))(i := True),
    subscribers := filter (\<lambda>j. j \<noteq> i) (subscribers (broker s)),
    chans := (if i \<in> set (subscribers (broker s))
              then (chans (broker s))(i := (chans (broker s) i)\<lparr>ch_closed := True\<rparr>)
              else chans (broker s))\<rparr>"
  have s': "s' = s\<lparr>broker := b\<rparr>"
    using step False by (simp add: cancel_effect[OF ok] b_def)
  have "subs_ok b" using ok by (auto simp: subs_ok_def b_def)
  moreover have "ch_buf (chans b j) = ch_buf (chans (broker s) j)" for j by (simp add: b_def)
  ultimately show ?thesis
    by (intro feed_inv_frame[OF inv]) (simp_all add: s' stream_def, simp_all add: b_def)
qed

lemma feed_inv_receive:
  assumes inv: "feed_inv gen s" and step: "perform (Receive i) s = Ok s'"
  shows "feed_inv gen s'"
proof -
  have ok: "subs_ok (broker s)" using inv by (simp add: feed_inv_def)
  show ?thesis
    using step ok
    by (intro feed_inv_frame[OF inv])
       (auto simp: bind_outcome_Ok ch_recv_def subs_ok_def stream_def split: list.splits if_splits)
qed

lemma close_effect:
  assumes "subs_ok b" and "\<not> closed b"
  shows "close b = Ok (b\<lparr>closed := True, subscribers := [],
    chans := (\<lambda>i. if i \<in> set (subscribers b) then (chans b i)\<lparr>ch_closed := True\<rparr> else chans b i)\<rparr>)"
proof -
  have "distinct (subscribers b)" using assms(1) by (simp add: subs_ok_def)
  moreover have "\<forall>i \<in> set (subscribers b). \<not> ch_closed (chans (b\<lparr>closed := True\<rparr>) i)"
    using subs_open[OF assms(1)] by simp
  moreover have "chans (b\<lparr>closed := True\<rparr>) = chans b" by simp
  ultimately have "close_all (subscribers b) (b\<lparr>closed := True\<rparr>) = Ok (b\<lparr>closed := True,
      chans := (\<lambda>i. if i \<in> set (subscribers b) then (chans b i)\<lparr>ch_closed := True\<rparr> else chans b i)\<rparr>)"
    using close_all_open[of "subscribers b" "b\<lparr>closed := True\<rparr>"] by metis
  with assms(2) show ?thesis by (simp add: close_def)
qed

lemma feed_inv_close:
  assumes inv: "feed_inv gen s" and step: "perform CloseBroker s = Ok s'"
  shows "feed_inv gen s'"
proof (cases "closed (broker s)")
  case True
  with step inv show ?thesis by (simp add: close_def)
next
  case False
  have ok: "subs_ok (broker s)" using inv by (simp add: feed_inv_def)
  show ?thesis
    using step ok False
    by (intro feed_inv_frame[OF inv]) (auto simp: close_effect subs_ok_def stream_def)
qed

lemma feed_inv_step:
  assumes "feed_inv gen s" and "length (published s) < 2 ^ 64" and "perform a s = Ok s'"
  shows "feed_inv gen s'"
  using assms
  by (cases a) (blast intro: feed_inv_publish feed_inv_subscribe feed_inv_cancel feed_inv_receive
      feed_inv_close)+

lemma perform_published: "perform a s = Ok s' \<Longrightarrow> length (published s) \<le> length (published s')"
proof (cases a)
  case (Subscribe now cur)
  assume "perform a s = Ok s'"
  with Subscribe show ?thesis
    by (cases "replayPoint (broker s) cur") (auto simp: bind_outcome_Ok Let_def)
qed (auto simp: bind_outcome_Ok Let_def)

lemma reachable_inv: "reachable gen s \<Longrightarrow> length (published s) < 2 ^ 64 \<Longrightarrow> feed_inv gen s"
proof (induction rule: reachable.induct)
  case start
  show ?case by (rule feed_inv_start)
next
  case (step s a s')
  then show ?case using feed_inv_step perform_published[OF step(2)] by (meson le_less_trans)
qed

subsection \<open>No operation panics or blocks\<close>

lemma perform_ok:
  assumes inv: "feed_inv gen s" and small: "length (published s) < 2 ^ 64"
  shows "(\<exists>s'. perform a s = Ok s') \<or>
    (\<exists>i. a = Receive i \<and> perform a s = Blocked \<and> ch_buf (chans (broker s) i) = [])"
proof -
  have ok: "subs_ok (broker s)" using inv by (simp add: feed_inv_def)
  show ?thesis
  proof (cases a)
    case (Publish now name uuid event detail)
    then show ?thesis
      using publish_effect[OF ok] by (cases "closed (broker s)") (auto simp: publish_def Let_def)
  next
    case (Subscribe now cur)
    obtain after unreplayable where "replayPoint (broker s) cur = (after, unreplayable)"
      by (cases "replayPoint (broker s) cur")
    from subscribe_effect[OF inv small this] Subscribe this show ?thesis by (simp add: Let_def)
  next
    case (Cancel i)
    then show ?thesis
      using subs_open[OF ok] by (auto simp: cancel_def Let_def ch_close_def)
  next
    case (Receive i)
    then show ?thesis by (auto simp: ch_recv_def split: list.split)
  next
    case CloseBroker
    then show ?thesis
      using close_effect[OF ok] by (cases "closed (broker s)") (auto simp: close_def)
  qed
qed

subsection \<open>Sequences of actions\<close>

fun perform_all :: "action list \<Rightarrow> feed \<Rightarrow> feed outcome" where
  "perform_all [] s = Ok s"
| "perform_all (a # as) s = bind_outcome (perform a s) (perform_all as)"

lemma perform_all_reachable:
  "perform_all as s = Ok s' \<Longrightarrow> reachable gen s \<Longrightarrow> reachable gen s'"
  by (induction as arbitrary: s) (auto simp: bind_outcome_Ok intro: reachable.step)

text \<open>A run with a client that reads, one that cancels, and a late one that resumes.\<close>

definition sample_actions :: "action list" where
  "sample_actions =
     [Subscribe 10 [], Subscribe 10 [], Publish 11 ''vm'' ''u'' ''started'' 0, Receive 0, Cancel 1,
      Publish 12 ''vm'' ''u'' ''stopped'' 1, Subscribe 13 ''g:1'', Subscribe 14 ''old:7'']"

definition sample_feed :: feed where
  "sample_feed =
     (case perform_all sample_actions (initial_feed ''g'') of Ok s \<Rightarrow> s | _ \<Rightarrow> initial_feed ''g'')"

lemma sample_run:
  "(case perform_all sample_actions (initial_feed ''g'') of
      Ok s \<Rightarrow> length (published s) = 2 \<and> map (\<lambda>i. map ev_ID (received s i)) [0..<4] = [[1], [], [], []] \<and>
        map (\<lambda>i. map ev_ID (ch_buf (chans (broker s) i))) [0..<4] = [[2], [1], [2], [2]] \<and>
        subscribers (broker s) = [0, 2, 3] \<and> next_chan (broker s) = 4 \<and> \<not> closed (broker s) \<and>
        generation (broker s) = ''g''
    | _ \<Rightarrow> False)"
  by code_simp

lemma sample_feed:
  "reachable ''g'' sample_feed" "length (published sample_feed) = 2"
  "next_chan (broker sample_feed) = 4" "subscribers (broker sample_feed) = [0, 2, 3]"
  "\<not> closed (broker sample_feed)" "generation (broker sample_feed) = ''g''"
  using sample_run perform_all_reachable[of sample_actions "initial_feed ''g''" _ "''g''", OF _ reachable.start]
  by (auto simp: sample_feed_def split: outcome.splits)

subsection \<open>The contract of the event feed\<close>

lemma reachable_feed_inv:
  assumes "reachable gen s" and "length (published s) < 2 ^ 64"
  shows "generation (broker s) = gen" "nextID (broker s) = of_nat (length (published s))"
    "history (broker s) = window (published s)" "numbered (broker s) (published s)"
    "subs_ok (broker s)"
  using reachable_inv[OF assms] by (simp_all add: feed_inv_def)

lemma reset_buffer:
  assumes "reachable gen s" and "length (published s) < 2 ^ 64" and "\<not> closed (broker s)"
    and "snd (replayPoint (broker s) cur)"
  shows "\<exists>b. subscribe now cur (broker s) = Ok (next_chan (broker s), b) \<and>
    ch_buf (chans b (next_chan (broker s))) = [resetEvent now (broker s)]"
  using subscribe_effect[OF reachable_inv[OF assms(1,2)] assms(2),
      of cur "fst (replayPoint (broker s) cur)" True now] assms(3,4)
  by (simp add: Let_def prod_eq_iff)

lemma replay_own_cursor:
  assumes "reachable gen s" and "length (published s) < 2 ^ 64" and "CHR '':'' \<notin> set gen"
    and "k \<le> length (published s)"
  shows "replayPoint (broker s) (cursor (broker s) (of_nat k)) =
    (of_nat k, \<not> length (published s) - 256 \<le> k)"
proof -
  let ?b = "broker s" and ?P = "published s"
  note inv = reachable_feed_inv[OF assms(1,2)]
  have k: "unat (of_nat k :: 64 word) = k" using assms(2,4) by (intro unat_of_nat_64) simp
  have "(of_nat k :: 64 word) \<le> nextID ?b"
    unfolding inv(2) word_le_nat_alt k using assms(2,4) by (simp only: unat_of_nat_64)
  then have cut: "afterCursor ?b (cursor ?b (of_nat k)) = (of_nat k, False)"
    using afterCursor_cursor[of ?b "of_nat k"] assms(3) inv(1) by simp
  show ?thesis
  proof (cases "?P = []")
    case True
    then show ?thesis using cut inv(3) assms(4) by (simp add: replayPoint_def window_Nil)
  next
    case False
    then have "window ?P \<noteq> []" by (simp add: window_Nil)
    with replay_start[OF inv(4) assms(2) False, of "of_nat k"] cut show ?thesis
      unfolding replayPoint_def inv(3) k by (simp add: not_le)
  qed
qed

lemma resume_at:
  assumes "reachable gen s" and "length (published s) < 2 ^ 64" and "\<not> closed (broker s)"
    and "CHR '':'' \<notin> set gen" and "k \<le> length (published s)"
  shows "\<exists>b. subscribe now (cursor (broker s) (of_nat k)) (broker s) = Ok (next_chan (broker s), b) \<and>
    ch_buf (chans b (next_chan (broker s))) =
      (if length (published s) - 256 \<le> k then drop k (published s)
       else [resetEvent now (broker s)])"
proof (cases "length (published s) - 256 \<le> k")
  case True
  have "unat (of_nat k :: 64 word) = k" using assms(2,5) by (intro unat_of_nat_64) simp
  with True assms(3) subscribe_effect[OF reachable_inv[OF assms(1,2)] assms(2)
      replay_own_cursor[OF assms(1,2,4,5)], of now]
  show ?thesis by (simp add: Let_def)
next
  case False
  then show ?thesis
    using reset_buffer[OF assms(1-3)] replay_own_cursor[OF assms(1,2,4,5)] by simp
qed

text \<open>
  C1: Whatever the interleaving, what a subscriber has read followed by what waits in its
  channel is its reset notice (if it was given one) followed by a contiguous block of the
  published events, in order, starting where its subscription starts; and as long as the
  broker still counts it as a subscriber, the block reaches the newest event: nothing is
  lost, duplicated or reordered.
\<close>

theorem feed_delivery:
  assumes "reachable gen s" and "length (published s) < 2 ^ 64" and "i < next_chan (broker s)"
  shows "\<exists>upto. base s i \<le> upto \<and> upto \<le> length (published s) \<and>
    received s i @ ch_buf (chans (broker s) i) =
      notice s i @ drop (base s i) (take upto (published s)) \<and>
    (i \<in> set (subscribers (broker s)) \<longrightarrow> upto = length (published s))"
  using reachable_inv[OF assms(1,2)] assms(3) by (simp add: feed_inv_def stream_ok_def stream_def)

theorem feed_delivery_witness:
  "length (published sample_feed) = 2 \<and>
   received sample_feed 0 @ ch_buf (chans (broker sample_feed) 0) =
     notice sample_feed 0 @ drop (base sample_feed 0) (published sample_feed)"
  using feed_delivery[OF sample_feed(1), of 0] sample_feed by auto

text \<open>
  C2: A client that reconnects to an open broker with the cursor of the event numbered k
  gets exactly the events after it when they are still in the history of 256, and
  otherwise exactly one reset event.
\<close>

theorem resume_by_cursor:
  assumes "reachable gen s" and "length (published s) < 2 ^ 64" and "\<not> closed (broker s)"
    and "CHR '':'' \<notin> set gen" and "k \<le> length (published s)"
  shows "\<exists>b. subscribe now (cursor (broker s) (of_nat k)) (broker s) = Ok (next_chan (broker s), b) \<and>
    ch_buf (chans b (next_chan (broker s))) =
      (if length (published s) - 256 \<le> k then drop k (published s)
       else [resetEvent now (broker s)])"
  by (rule resume_at[OF assms])

theorem resume_by_cursor_witness:
  "\<exists>b. subscribe 20 (cursor (broker sample_feed) 1) (broker sample_feed) = Ok (4, b) \<and>
    ch_buf (chans b 4) = drop 1 (published sample_feed) \<and> length (published sample_feed) = 2"
  using resume_by_cursor[OF sample_feed(1), of 1 20] sample_feed by auto

text \<open>
  C31: A cursor of another generation of the broker (the process was restarted) is answered
  with exactly one reset event, which carries the cursor to go on from.
\<close>

theorem foreign_cursor_resets:
  assumes "reachable gen s" and "length (published s) < 2 ^ 64" and "\<not> closed (broker s)"
    and "CHR '':'' \<notin> set old" and "old \<noteq> gen"
  shows "\<exists>b. subscribe now (old @ '':'' @ sequence) (broker s) = Ok (next_chan (broker s), b) \<and>
    map (\<lambda>e. (ev_StreamReset e, ev_Cursor e)) (ch_buf (chans b (next_chan (broker s)))) =
      [(True, gen @ '':'' @ format_uint (uint (nextID (broker s))))]"
proof -
  have gen: "generation (broker s) = gen" by (rule reachable_feed_inv[OF assms(1,2)])
  then have "snd (afterCursor (broker s) (old @ '':'' @ sequence))"
    using afterCursor_foreign[of old "broker s"] assms(4,5) by simp
  then have "snd (replayPoint (broker s) (old @ '':'' @ sequence))"
    by (auto simp: replayPoint_def split: prod.split)
  then obtain b where b: "subscribe now (old @ '':'' @ sequence) (broker s) = Ok (next_chan (broker s), b)"
    "ch_buf (chans b (next_chan (broker s))) = [resetEvent now (broker s)]"
    using reset_buffer[OF assms(1-3)] by blast
  show ?thesis
    by (rule exI[of _ b]) (simp only: b, simp add: resetEvent_def cursor_def gen)
qed

theorem foreign_cursor_resets_witness:
  "\<exists>b. subscribe 20 (''h'' @ '':'' @ ''1'') (broker sample_feed) = Ok (4, b) \<and>
    map (\<lambda>e. (ev_StreamReset e, ev_Cursor e)) (ch_buf (chans b 4)) =
      [(True, ''g'' @ '':'' @ format_uint (uint (nextID (broker sample_feed))))]"
  using foreign_cursor_resets[OF sample_feed(1), of "''h''" 20 "''1''"] sample_feed by simp

text \<open>
  C23: No operation of the broker ever panics (no send on a closed channel, no channel is
  closed twice) and none blocks while it holds the mutex; only a subscriber that reads an
  empty channel waits.
\<close>

theorem broker_never_panics:
  assumes "reachable gen s" and "length (published s) < 2 ^ 64"
  shows "(\<exists>s'. perform a s = Ok s') \<or>
    (\<exists>i. a = Receive i \<and> perform a s = Blocked \<and> ch_buf (chans (broker s) i) = [])"
  by (rule perform_ok[OF reachable_inv[OF assms] assms(2)])

theorem broker_never_panics_witness:
  "\<exists>s'. perform CloseBroker sample_feed = Ok s'"
  using broker_never_panics[OF sample_feed(1), of CloseBroker] sample_feed by auto

text \<open>
  C30: The broker keeps exactly the last 256 published events, identifiers number the
  events from one without a gap, and every event carries the cursor of its number.
\<close>

theorem history_is_window:
  assumes "reachable gen s" and "length (published s) < 2 ^ 64"
  shows "history (broker s) = drop (length (published s) - 256) (published s) \<and>
    (\<forall>k < length (published s). unat (ev_ID (published s ! k)) = Suc k \<and>
      ev_Cursor (published s ! k) = gen @ '':'' @ format_uint (uint (ev_ID (published s ! k))))"
proof (intro conjI allI impI)
  note inv = reachable_feed_inv[OF assms]
  show "history (broker s) = drop (length (published s) - 256) (published s)"
    using inv(3) by (simp add: window_def)
  fix k assume k: "k < length (published s)"
  with inv(4) have e: "ev_ID (published s ! k) = of_nat (Suc k)"
    "ev_Cursor (published s ! k) = cursor (broker s) (of_nat (Suc k))"
    unfolding numbered_def by blast+
  have "unat (of_nat (Suc k) :: 64 word) = Suc k" using k assms(2) by (intro unat_of_nat_64) simp
  then show "unat (ev_ID (published s ! k)) = Suc k"
    and "ev_Cursor (published s ! k) = gen @ '':'' @ format_uint (uint (ev_ID (published s ! k)))"
    unfolding e by (simp_all only: cursor_def inv(1))
qed

theorem history_is_window_witness:
  "history (broker sample_feed) = published sample_feed \<and>
   unat (ev_ID (published sample_feed ! 1)) = 2"
  using history_is_window[OF sample_feed(1)] sample_feed by simp

text \<open>
  C32: Go walks the map of subscribers in an unspecified order; the outcome of a publish
  does not depend on it.
\<close>

theorem delivery_order_irrelevant:
  assumes "reachable gen s" and "length (published s) < 2 ^ 64"
    and "distinct order" and "set order = set (subscribers (broker s))"
  shows "deliver_all event order (broker s) = deliver_all event (subscribers (broker s)) (broker s)"
proof -
  have ok: "subs_ok (broker s)" by (rule reachable_feed_inv[OF assms(1,2)])
  then have "distinct (subscribers (broker s))" by (simp add: subs_ok_def)
  with subs_open[OF ok] assms(3,4) show ?thesis by (intro deliver_all_order) auto
qed

theorem delivery_order_irrelevant_witness:
  "deliver_all (resetEvent 0 (broker sample_feed)) [3, 0, 2] (broker sample_feed) =
   deliver_all (resetEvent 0 (broker sample_feed)) [0, 2, 3] (broker sample_feed)"
  using delivery_order_irrelevant[OF sample_feed(1), of "[3, 0, 2]"] sample_feed by auto

end
