(* ===== verification/Go_Net.thy ===== *)
theory Go_Net
  imports Go_Strings
begin

text \<open>
  What the program uses of Go's \<open>net\<close> and \<open>net/url\<close> (Go 1.24.0, the version of go.mod):
  \<open>net.SplitHostPort\<close>, \<open>net.ParseIP\<close> with \<open>IP.IsLoopback\<close>, \<open>url.Parse\<close>,
  the unescaping modes, and \<open>URL.Query().Get\<close>.  Errors carry no information the
  program looks at, so a failing parse is \<open>None\<close>.
\<close>

subsection \<open>net.SplitHostPort\<close>

definition split_host_port :: "string \<Rightarrow> (string \<times> string) option" where
  "split_host_port hp =
     (case last_index_of (CHR '':'') hp of
        None \<Rightarrow> None
      | Some i \<Rightarrow>
        if hp ! 0 = CHR ''['' then
          (case index_of (CHR '']'') hp of
             None \<Rightarrow> None
           | Some e \<Rightarrow>
             if e + 1 = length hp then None
             else if e + 1 = i then
               (if CHR ''['' \<in> set (drop 1 hp) \<or> CHR '']'' \<in> set (drop (e + 1) hp) then None
                else Some (drop 1 (take e hp), drop (i + 1) hp))
             else None)
        else if CHR '':'' \<in> set (take i hp) then None
        else if CHR ''['' \<in> set hp \<or> CHR '']'' \<in> set hp then None
        else Some (take i hp, drop (i + 1) hp))"

lemma split_host_port_plain:
  "h ! 0 \<noteq> CHR ''['' \<or> h = [] \<Longrightarrow> {CHR '':'', CHR ''['', CHR '']''} \<inter> set h = {} \<Longrightarrow>
   {CHR '':'', CHR ''['', CHR '']''} \<inter> set p = {} \<Longrightarrow>
   split_host_port (h @ CHR '':'' # p) = Some (h, p)"
  by (cases h) (auto simp: split_host_port_def last_index_of_snoc last_index_of_None[THEN iffD2])

subsection \<open>net.ParseIP and IsLoopback\<close>

definition ipv4_octet :: "string \<Rightarrow> int option" where
  "ipv4_octet s =
     (if s = [] \<or> (length s > 1 \<and> s ! 0 = CHR ''0'') then None else parse_digits 255 0 s)"

fun map_all :: "('a \<Rightarrow> 'b option) \<Rightarrow> 'a list \<Rightarrow> 'b list option" where
  "map_all f [] = Some []"
| "map_all f (x # xs) =
     (case f x of None \<Rightarrow> None | Some y \<Rightarrow> map_option ((#) y) (map_all f xs))"

definition parse_ipv4 :: "string \<Rightarrow> int list option" where
  "parse_ipv4 s =
     (let parts = split_on (CHR ''.'') s
      in if length parts = 4 then map_all ipv4_octet parts else None)"

definition hex_value :: "char \<Rightarrow> int option" where
  "hex_value c =
     (if is_digit c then Some (byte c - 48)
      else if 97 \<le> byte c \<and> byte c \<le> 102 then Some (byte c - 87)
      else if 65 \<le> byte c \<and> byte c \<le> 70 then Some (byte c - 55)
      else None)"

abbreviation is_hex :: "char \<Rightarrow> bool" where "is_hex c \<equiv> hex_value c \<noteq> None"

fun hex_number :: "int \<Rightarrow> string \<Rightarrow> int" where
  "hex_number acc [] = acc"
| "hex_number acc (c # cs) =
     (case hex_value c of Some d \<Rightarrow> hex_number (acc * 16 + d) cs | None \<Rightarrow> acc)"

text \<open>
  The group loop of \<open>parseIPv6\<close>: the first argument counts the groups that still fit
  (the guard \<open>i < 16\<close>), \<open>ip\<close> holds the bytes read and \<open>ell\<close> the position of \<open>::\<close>.
\<close>

fun ipv6_groups ::
  "nat \<Rightarrow> int list \<Rightarrow> nat option \<Rightarrow> string \<Rightarrow> (int list \<times> nat option \<times> string) option" where
  "ipv6_groups 0 ip ell s = Some (ip, ell, s)"
| "ipv6_groups (Suc k) ip ell s =
     (let digs = takeWhile is_hex s; rest = dropWhile is_hex s; acc = hex_number 0 digs in
      if length digs > 4 \<or> digs = [] then None
      else if rest \<noteq> [] \<and> rest ! 0 = CHR ''.'' then
        (if (ell = None \<and> length ip \<noteq> 12) \<or> length ip + 4 > 16 then None
         else (case parse_ipv4 s of None \<Rightarrow> None | Some v4 \<Rightarrow> Some (ip @ v4, ell, [])))
      else
        (let ip' = ip @ [acc div 256, acc mod 256] in
         case rest of
           [] \<Rightarrow> Some (ip', ell, [])
         | c # more \<Rightarrow>
           if c \<noteq> CHR '':'' then None
           else (case more of
               [] \<Rightarrow> None
             | d # more' \<Rightarrow>
               if d = CHR '':'' then
                 (if ell \<noteq> None then None
                  else if more' = [] then Some (ip', Some (length ip'), [])
                  else ipv6_groups k ip' (Some (length ip')) more')
               else ipv6_groups k ip' ell more)))"

definition parse_ipv6 :: "string \<Rightarrow> int list option" where
  "parse_ipv6 s =
     (if CHR ''%'' \<in> set s then None
      else if s = ''::'' then Some (replicate 16 0)
      else
        (let lead = (take 2 s = ''::'') in
         case ipv6_groups 8 [] (if lead then Some 0 else None) (if lead then drop 2 s else s) of
           None \<Rightarrow> None
         | Some (ip, ell, rest) \<Rightarrow>
           if rest \<noteq> [] then None
           else if length ip < 16 then
             (case ell of
                None \<Rightarrow> None
              | Some e \<Rightarrow> Some (take e ip @ replicate (16 - length ip) 0 @ drop e ip))
           else if ell \<noteq> None then None
           else Some ip))"

text \<open>\<open>net.ParseIP\<close> gives the 16-byte form, IPv4 addresses mapped under \<open>::ffff:0:0/96\<close>.\<close>

definition v4_prefix :: "int list" where
  "v4_prefix = [0, 0, 0, 0, 0, 0, 0, 0, 0, 0, 255, 255]"

definition parse_ip :: "string \<Rightarrow> int list option" where
  "parse_ip s =
     (case filter (\<lambda>c. c = CHR ''.'' \<or> c = CHR '':'' \<or> c = CHR ''%'') s of
        [] \<Rightarrow> None
      | c # _ \<Rightarrow>
        if c = CHR ''.'' then map_option (\<lambda>v4. v4_prefix @ v4) (parse_ipv4 s)
        else if c = CHR '':'' then parse_ipv6 s
        else None)"

definition is_loopback :: "int list \<Rightarrow> bool" where
  "is_loopback ip =
     (if take 12 ip = v4_prefix then ip ! 12 = 127 else ip = replicate 15 0 @ [1])"

subsection \<open>url.Parse\<close>

datatype escape_mode = EncPath | EncHost | EncZone | EncUserPassword | EncQuery | EncFragment

definition is_alnum :: "char \<Rightarrow> bool" where
  "is_alnum c \<longleftrightarrow> 97 \<le> byte c \<and> byte c \<le> 122 \<or> 65 \<le> byte c \<and> byte c \<le> 90 \<or> is_digit c"

definition host_char :: "char \<Rightarrow> bool" where
  "host_char c \<longleftrightarrow>
     is_alnum c \<or> c \<in> set ''!$&()*+,;=:[]<>-_.~'' \<or> byte c = 39 \<or> byte c = 34 \<or> 128 \<le> byte c"

fun unescape :: "escape_mode \<Rightarrow> string \<Rightarrow> string option" where
  "unescape mode [] = Some []"
| "unescape mode (c # cs) =
     (if c = CHR ''%'' then
        (case cs of
           a # b # rest \<Rightarrow>
             (case (hex_value a, hex_value b) of
                (Some x, Some y) \<Rightarrow>
                  if mode = EncHost \<and> x < 8 \<and> \<not> (a = CHR ''2'' \<and> b = CHR ''5'') then None
                  else if mode = EncZone \<and> \<not> (a = CHR ''2'' \<and> b = CHR ''5'') \<and>
                          x * 16 + y \<noteq> 32 \<and> (x * 16 + y \<ge> 128 \<or> \<not> host_char (char_of (x * 16 + y)))
                  then None
                  else map_option ((#) (char_of (x * 16 + y))) (unescape mode rest)
              | _ \<Rightarrow> None)
         | _ \<Rightarrow> None)
      else if c = CHR ''+'' \<and> mode = EncQuery then map_option ((#) (CHR '' '')) (unescape mode cs)
      else if (mode = EncHost \<or> mode = EncZone) \<and> \<not> host_char c then None
      else map_option ((#) c) (unescape mode cs))"

record url =
  u_scheme :: string
  u_user :: bool \<comment> \<open>whether \<open>User\<close> is not nil\<close>
  u_host :: string
  u_path :: string
  u_rawquery :: string
  u_fragment :: string

fun get_scheme :: "bool \<Rightarrow> string \<Rightarrow> string \<Rightarrow> string \<Rightarrow> (string \<times> string) option" where
  "get_scheme first whole seen [] = Some ([], whole)"
| "get_scheme first whole seen (c # cs) =
     (if 97 \<le> byte c \<and> byte c \<le> 122 \<or> 65 \<le> byte c \<and> byte c \<le> 90
      then get_scheme False whole (seen @ [c]) cs
      else if is_digit c \<or> c \<in> set ''+-.''
      then (if first then Some ([], whole) else get_scheme False whole (seen @ [c]) cs)
      else if c = CHR '':'' then (if first then None else Some (seen, cs))
      else Some ([], whole))"

definition valid_optional_port :: "string \<Rightarrow> bool" where
  "valid_optional_port p =
     (case p of [] \<Rightarrow> True | c # cs \<Rightarrow> c = CHR '':'' \<and> list_all is_digit cs)"

definition index_sub :: "string \<Rightarrow> string \<Rightarrow> nat option" where
  "index_sub pat s =
     find (\<lambda>i. take (length pat) (drop i s) = pat) [0..<Suc (length s)]"

definition parse_host :: "string \<Rightarrow> string option" where
  "parse_host h =
     (if take 1 h = ''['' then
        (case last_index_of (CHR '']'') h of
           None \<Rightarrow> None
         | Some i \<Rightarrow>
           if \<not> valid_optional_port (drop (i + 1) h) then None
           else (case index_sub ''%25'' (take i h) of
               Some z \<Rightarrow>
                 (case (unescape EncHost (take z h), unescape EncZone (drop z (take i h)),
                        unescape EncHost (drop i h)) of
                    (Some h1, Some h2, Some h3) \<Rightarrow> Some (h1 @ h2 @ h3)
                  | _ \<Rightarrow> None)
             | None \<Rightarrow> unescape EncHost h))
      else (case last_index_of (CHR '':'') h of
          Some i \<Rightarrow> if valid_optional_port (drop i h) then unescape EncHost h else None
        | None \<Rightarrow> unescape EncHost h))"

definition valid_userinfo :: "string \<Rightarrow> bool" where
  "valid_userinfo s = list_all (\<lambda>c. is_alnum c \<or> c \<in> set ''-._:~!$&()*+,;=%@'' \<or> byte c = 39) s"

definition parse_userinfo :: "string \<Rightarrow> bool option" where
  "parse_userinfo s =
     (if \<not> valid_userinfo s then None
      else (case cut_at (CHR '':'') s of
          (u, p, _) \<Rightarrow>
            (case (unescape EncUserPassword u, unescape EncUserPassword p) of
               (Some _, Some _) \<Rightarrow> Some True | _ \<Rightarrow> None)))"

definition parse_authority :: "string \<Rightarrow> (bool \<times> string) option" where
  "parse_authority a =
     (case last_index_of (CHR ''@'') a of
        None \<Rightarrow> map_option (Pair False) (parse_host a)
      | Some i \<Rightarrow>
        (case (parse_host (drop (i + 1) a), parse_userinfo (take i a)) of
           (Some h, Some u) \<Rightarrow> Some (u, h) | _ \<Rightarrow> None))"

definition split_query :: "string \<Rightarrow> string \<times> string" where
  "split_query rest =
     (if rest \<noteq> [] \<and> last rest = CHR ''?'' \<and> count_list rest (CHR ''?'') = 1
      then (butlast rest, [])
      else (case cut_at (CHR ''?'') rest of (b, q, _) \<Rightarrow> (b, q)))"

definition has_ctl :: "string \<Rightarrow> bool" where
  "has_ctl s = list_ex (\<lambda>c. byte c < 32 \<or> byte c = 127) s"

definition parse_url_nofrag :: "string \<Rightarrow> url option" where
  "parse_url_nofrag raw =
     (if has_ctl raw then None
      else if raw = ''*'' then
        Some \<lparr>u_scheme = [], u_user = False, u_host = [], u_path = ''*'', u_rawquery = [], u_fragment = []\<rparr>
      else (case get_scheme True raw [] raw of
          None \<Rightarrow> None
        | Some (sch0, rest0) \<Rightarrow>
          let sch = to_lower sch0; (rest, query) = split_query rest0 in
          if take 1 rest \<noteq> ''/'' \<and> sch \<noteq> [] then
            Some \<lparr>u_scheme = sch, u_user = False, u_host = [], u_path = [], u_rawquery = query, u_fragment = []\<rparr>
          else if take 1 rest \<noteq> ''/'' \<and> CHR '':'' \<in> set (fst (cut_at (CHR ''/'') rest)) then None
          else
            (let hasauth = (sch \<noteq> [] \<or> take 3 rest \<noteq> ''///'') \<and> take 2 rest = ''//'';
                 auth = (if hasauth then takeWhile (\<lambda>c. c \<noteq> CHR ''/'') (drop 2 rest) else []);
                 path = (if hasauth then dropWhile (\<lambda>c. c \<noteq> CHR ''/'') (drop 2 rest) else rest) in
             case (if hasauth then parse_authority auth else Some (False, [])) of
               None \<Rightarrow> None
             | Some (user, host) \<Rightarrow>
               (case unescape EncPath path of
                  None \<Rightarrow> None
                | Some p \<Rightarrow>
                  Some \<lparr>u_scheme = sch, u_user = user, u_host = host, u_path = p,
                        u_rawquery = query, u_fragment = []\<rparr>))))"

definition url_parse :: "string \<Rightarrow> url option" where
  "url_parse raw =
     (case cut_at (CHR ''#'') raw of
        (u, frag, _) \<Rightarrow>
          (case parse_url_nofrag u of
             None \<Rightarrow> None
           | Some url \<Rightarrow>
             if frag = [] then Some url
             else (case unescape EncFragment frag of
                 None \<Rightarrow> None
               | Some f \<Rightarrow> Some (url\<lparr>u_fragment := f\<rparr>))))"

subsection \<open>URL.Query().Get\<close>

text \<open>The first value of a key in the raw query; pairs that do not parse are skipped.\<close>

fun query_find :: "string \<Rightarrow> string list \<Rightarrow> string" where
  "query_find key [] = []"
| "query_find key (p # ps) =
     (if CHR '';'' \<in> set p \<or> p = [] then query_find key ps
      else (case cut_at (CHR ''='') p of
          (k, v, _) \<Rightarrow>
            (case (unescape EncQuery k, unescape EncQuery v) of
               (Some k', Some v') \<Rightarrow> if k' = key then v' else query_find key ps
             | _ \<Rightarrow> query_find key ps)))"

definition query_get :: "string \<Rightarrow> string \<Rightarrow> string" where
  "query_get key raw = query_find key (split_on (CHR ''&'') raw)"

lemma unescape_not_Nil: "s \<noteq> [] \<Longrightarrow> unescape mode s = Some t \<Longrightarrow> t \<noteq> []"
  by (cases s) (auto split: if_splits list.splits option.splits)

lemma unescape_plain:
  "CHR ''%'' \<notin> set s \<Longrightarrow> CHR ''+'' \<notin> set s \<Longrightarrow> mode \<noteq> EncHost \<Longrightarrow> mode \<noteq> EncZone \<Longrightarrow>
   unescape mode s = Some s"
  by (induction s) auto

text \<open>Pieces of a concrete evaluation, for closed instances.\<close>

lemmas ip_eval = parse_ip_def parse_ipv4_def parse_ipv6_def ipv4_octet_def hex_value_def
  is_loopback_def v4_prefix_def
lemmas url_eval = url_parse_def parse_url_nofrag_def split_query_def parse_authority_def
  parse_host_def has_ctl_def valid_optional_port_def host_char_def is_alnum_def

end
