(* ===== verification/Config.thy ===== *)
theory Config
  imports Go_Net "HOL-Library.Multiset"
begin

text \<open>
  \<open>internal/config/config.go\<close>: reading and validating the process configuration.
  The environment is a function (\<open>os.Getenv\<close> answers the empty string for an unset
  variable).  Go iterates over a map in an unspecified order, so \<open>Load\<close> takes that order
  as an argument: a function that permutes the entries of the token map.
\<close>

subsection \<open>Data\<close>

record HTTPTimeouts =
  ReadHeader :: int
  Read :: int
  Write :: int
  Idle :: int

record Config =
  LibvirtURI :: string
  ListenAddr :: string
  APIToken :: string
  ReadToken :: string
  ControlToken :: string
  AdminToken :: string
  CORSOrigins :: "string list"
  Timeouts :: HTTPTimeouts

datatype load_error =
    EmptyOrigin
  | InvalidOrigin string
  | TokenWhitespace string
  | SameToken string string
  | NotHostPort string
  | InvalidPort string
  | NotBoolean string
  | TokenRequiredLoopback
  | TokenRequiredExternal string

type_synonym env = "string \<Rightarrow> string"

definition defaultLibvirtURI :: string where
  "defaultLibvirtURI = ''qemu:///system''"

definition defaultListenAddr :: string where
  "defaultListenAddr = ''127.0.0.1:8080''"

definition second :: int where
  "second = 1000000000"

subsection \<open>Operations\<close>

definition valueOrDefault :: "env \<Rightarrow> string \<Rightarrow> string \<Rightarrow> string" where
  "valueOrDefault getenv key fallback =
     (let value = trim_space (getenv key) in if value \<noteq> [] then value else fallback)"

definition boolEnv :: "env \<Rightarrow> string \<Rightarrow> load_error + bool" where
  "boolEnv getenv key =
     (let value = trim_space (getenv key) in
      if value = [] then Inr False
      else (case parse_bool value of
          None \<Rightarrow> Inl (NotBoolean key)
        | Some parsed \<Rightarrow> Inr parsed))"

definition hasCredentials :: "Config \<Rightarrow> bool" where
  "hasCredentials c \<longleftrightarrow>
     APIToken c \<noteq> [] \<or> ReadToken c \<noteq> [] \<or> ControlToken c \<noteq> [] \<or> AdminToken c \<noteq> []"

definition validOrigin :: "string \<Rightarrow> bool" where
  "validOrigin origin =
     (case url_parse origin of
        None \<Rightarrow> False
      | Some parsed \<Rightarrow>
        \<not> ((u_scheme parsed \<noteq> ''http'' \<and> u_scheme parsed \<noteq> ''https'') \<or> u_host parsed = [] \<or>
           u_user parsed \<or> u_path parsed \<noteq> [] \<or> u_rawquery parsed \<noteq> [] \<or> u_fragment parsed \<noteq> []))"

fun parseOriginsLoop ::
  "string set \<Rightarrow> string list \<Rightarrow> string list \<Rightarrow> load_error + string list" where
  "parseOriginsLoop seen origins [] = Inr origins"
| "parseOriginsLoop seen origins (part # parts) =
     (let origin = trim_space part in
      if origin = [] then Inl EmptyOrigin
      else if \<not> validOrigin origin then Inl (InvalidOrigin origin)
      else if origin \<notin> seen then parseOriginsLoop (insert origin seen) (origins @ [origin]) parts
      else parseOriginsLoop seen origins parts)"

definition parseOrigins :: "string \<Rightarrow> load_error + string list" where
  "parseOrigins raw =
     (if trim_space raw = [] then Inr []
      else parseOriginsLoop {} [] (split_on (CHR '','') raw))"

definition tokenEntries :: "Config \<Rightarrow> (string \<times> string) list" where
  "tokenEntries cfg =
     [(''API_BEARER_TOKEN'', APIToken cfg), (''API_READ_TOKEN'', ReadToken cfg),
      (''API_CONTROL_TOKEN'', ControlToken cfg), (''API_ADMIN_TOKEN'', AdminToken cfg)]"

fun validateTokensLoop ::
  "(string \<rightharpoonup> string) \<Rightarrow> (string \<times> string) list \<Rightarrow> load_error + unit" where
  "validateTokensLoop seen [] = Inr ()"
| "validateTokensLoop seen ((name, token) # rest) =
     (if contains_space token then Inl (TokenWhitespace name)
      else if token = [] then validateTokensLoop seen rest
      else (case seen token of
          Some previous \<Rightarrow> Inl (SameToken previous name)
        | None \<Rightarrow> validateTokensLoop (seen(token \<mapsto> name)) rest))"

type_synonym map_order = "(string \<times> string) list \<Rightarrow> (string \<times> string) list"

definition validateTokens :: "map_order \<Rightarrow> Config \<Rightarrow> load_error + unit" where
  "validateTokens order cfg = validateTokensLoop Map.empty (order (tokenEntries cfg))"

definition validateListenAddr :: "string \<Rightarrow> load_error + unit" where
  "validateListenAddr addr =
     (case split_host_port addr of
        None \<Rightarrow> Inl (NotHostPort addr)
      | Some (host, port) \<Rightarrow>
        if port = [] then Inl (NotHostPort addr)
        else (case parse_uint 16 port of
            None \<Rightarrow> Inl (InvalidPort addr)
          | Some _ \<Rightarrow> Inr ()))"

definition isLoopbackListenAddr :: "string \<Rightarrow> bool" where
  "isLoopbackListenAddr addr =
     (case split_host_port addr of
        None \<Rightarrow> False
      | Some (host, _) \<Rightarrow>
        (case parse_ip host of None \<Rightarrow> False | Some ip \<Rightarrow> is_loopback ip))"

definition libvirtURI :: "env \<Rightarrow> string" where
  "libvirtURI getenv =
     (let uri = trim_space (getenv ''LIBVIRT_URI'');
          uri = (if uri = [] then trim_space (getenv ''QEMU_URI'') else uri)
      in if uri = [] then defaultLibvirtURI else uri)"

definition readConfig :: "env \<Rightarrow> Config" where
  "readConfig getenv =
     \<lparr>LibvirtURI = libvirtURI getenv,
      ListenAddr = valueOrDefault getenv ''LISTEN_ADDR'' defaultListenAddr,
      APIToken = getenv ''API_BEARER_TOKEN'',
      ReadToken = getenv ''API_READ_TOKEN'',
      ControlToken = getenv ''API_CONTROL_TOKEN'',
      AdminToken = getenv ''API_ADMIN_TOKEN'',
      CORSOrigins = [],
      Timeouts = \<lparr>ReadHeader = 5 * second, Read = 15 * second, Write = 30 * second, Idle = 60 * second\<rparr>\<rparr>"

definition Load :: "map_order \<Rightarrow> env \<Rightarrow> load_error + Config" where
  "Load order getenv =
     (case parseOrigins (getenv ''CORS_ORIGINS'') of
        Inl e \<Rightarrow> Inl e
      | Inr origins \<Rightarrow>
        let cfg = (readConfig getenv)\<lparr>CORSOrigins := origins\<rparr> in
        case validateTokens order cfg of
          Inl e \<Rightarrow> Inl e
        | Inr _ \<Rightarrow>
          (case validateListenAddr (ListenAddr cfg) of
             Inl e \<Rightarrow> Inl e
           | Inr _ \<Rightarrow>
             (case boolEnv getenv ''ALLOW_INSECURE_LISTEN'' of
                Inl e \<Rightarrow> Inl e
              | Inr allowInsecure \<Rightarrow>
                (case boolEnv getenv ''ALLOW_INSECURE_LOOPBACK_LISTEN'' of
                   Inl e \<Rightarrow> Inl e
                 | Inr allowInsecureLoopback \<Rightarrow>
                   if hasCredentials cfg \<or> allowInsecure then Inr cfg
                   else if isLoopbackListenAddr (ListenAddr cfg) then
                     (if allowInsecureLoopback then Inr cfg else Inl TokenRequiredLoopback)
                   else Inl (TokenRequiredExternal (ListenAddr cfg))))))"

subsection \<open>Token validation does not depend on the map order\<close>

definition usableTokens :: "(string \<times> string) list \<Rightarrow> string list" where
  "usableTokens entries = filter (\<lambda>t. t \<noteq> []) (map snd entries)"

lemma validateTokensLoop_ok:
  "validateTokensLoop seen entries = Inr () \<longleftrightarrow>
     (\<forall>t \<in> set (map snd entries). \<not> contains_space t) \<and>
     distinct (usableTokens entries) \<and> set (usableTokens entries) \<inter> dom seen = {}"
proof (induction seen entries rule: validateTokensLoop.induct)
  case (2 seen name token rest)
  show ?case
  proof (cases "contains_space token \<or> token = [] \<or> token \<in> dom seen")
    case True
    with 2 show ?thesis by (auto simp: usableTokens_def split: option.splits)
  next
    case False
    then have "seen token = None" by auto
    with False 2(2)[of] show ?thesis
      by (simp del: fun_upd_apply add: usableTokens_def) blast
  qed
qed (simp add: usableTokens_def)

lemma usableTokens_mset:
  "mset es = mset fs \<Longrightarrow> mset (usableTokens es) = mset (usableTokens fs)"
  by (simp add: usableTokens_def mset_filter)

lemma validateTokens_ok:
  assumes "mset (order (tokenEntries cfg)) = mset (tokenEntries cfg)"
  shows "validateTokens order cfg = Inr () \<longleftrightarrow>
     (\<forall>t \<in> set (map snd (tokenEntries cfg)). \<not> contains_space t) \<and>
     distinct (usableTokens (tokenEntries cfg))"
proof -
  let ?es = "order (tokenEntries cfg)"
  have "set (map snd ?es) = set (map snd (tokenEntries cfg))"
    using mset_eq_setD[OF assms] by simp
  moreover have "distinct (usableTokens ?es) = distinct (usableTokens (tokenEntries cfg))"
    using usableTokens_mset[OF assms] by (rule mset_eq_imp_distinct_iff)
  ultimately show ?thesis by (simp add: validateTokens_def validateTokensLoop_ok)
qed

lemma validateTokens_unit: "(validateTokens order cfg = Inr u) = (validateTokens order cfg = Inr ())"
  by simp

subsection \<open>CORS origins\<close>

lemma parseOriginsLoop_ok:
  "parseOriginsLoop seen acc parts = Inr origins \<Longrightarrow> seen = set acc \<Longrightarrow> distinct acc \<Longrightarrow>
     distinct origins \<and> set origins = set acc \<union> trim_space ` set parts \<and>
     (\<forall>p \<in> set parts. trim_space p \<noteq> [] \<and> validOrigin (trim_space p))"
proof (induction parts arbitrary: seen acc)
  case (Cons part parts)
  let ?o = "trim_space part"
  from Cons.prems(1) have part: "?o \<noteq> []" "validOrigin ?o"
    by (auto simp: Let_def split: if_splits)
  show ?case
  proof (cases "?o \<in> set acc")
    case True
    with part Cons.prems have "parseOriginsLoop seen acc parts = Inr origins"
      by (simp add: Let_def)
    with Cons.IH Cons.prems(2,3) part True show ?thesis by auto
  next
    case False
    with part Cons.prems
    have rest: "parseOriginsLoop (insert ?o seen) (acc @ [?o]) parts = Inr origins"
      by (simp add: Let_def)
    have "insert ?o seen = set (acc @ [?o])" and "distinct (acc @ [?o])"
      using Cons.prems(2,3) False by simp_all
    from Cons.IH[OF rest this] part show ?thesis by simp
  qed
qed simp

lemma parseOriginsLoop_total:
  "\<forall>p \<in> set parts. trim_space p \<noteq> [] \<and> validOrigin (trim_space p) \<Longrightarrow>
   \<exists>origins. parseOriginsLoop seen acc parts = Inr origins"
  by (induction seen acc parts rule: parseOriginsLoop.induct) (auto simp: Let_def)

lemma parseOrigins_ok:
  "(\<exists>origins. parseOrigins raw = Inr origins) \<longleftrightarrow>
     trim_space raw = [] \<or>
     (\<forall>p \<in> set (split_on (CHR '','') raw). trim_space p \<noteq> [] \<and> validOrigin (trim_space p))"
  using parseOriginsLoop_ok[OF _ refl, of "[]" "split_on (CHR '','') raw"]
    parseOriginsLoop_total[of "split_on (CHR '','') raw" "{}" "[]"]
  by (auto simp: parseOrigins_def)

lemma parseOrigins_result:
  "parseOrigins raw = Inr origins \<Longrightarrow>
     distinct origins \<and> (\<forall>o' \<in> set origins. validOrigin o') \<and>
     (trim_space raw \<noteq> [] \<longrightarrow> set origins = trim_space ` set (split_on (CHR '','') raw))"
  using parseOriginsLoop_ok[of "{}" "[]" "split_on (CHR '','') raw" origins]
  by (auto simp: parseOrigins_def split: if_splits)

subsection \<open>Load\<close>

lemma Load_ok:
  "Load order getenv = Inr cfg \<longleftrightarrow>
     (\<exists>origins insecure loopback.
        parseOrigins (getenv ''CORS_ORIGINS'') = Inr origins \<and>
        cfg = (readConfig getenv)\<lparr>CORSOrigins := origins\<rparr> \<and>
        validateTokens order cfg = Inr () \<and>
        validateListenAddr (ListenAddr cfg) = Inr () \<and>
        boolEnv getenv ''ALLOW_INSECURE_LISTEN'' = Inr insecure \<and>
        boolEnv getenv ''ALLOW_INSECURE_LOOPBACK_LISTEN'' = Inr loopback \<and>
        (hasCredentials cfg \<or> insecure \<or> isLoopbackListenAddr (ListenAddr cfg) \<and> loopback))"
  by (auto simp: Load_def Let_def split: sum.splits if_splits)

lemma validateListenAddr_ok:
  "validateListenAddr addr = Inr () \<longleftrightarrow>
     (\<exists>host port. split_host_port addr = Some (host, port) \<and> port \<noteq> [] \<and>
        list_all is_digit port \<and> digits_value 0 port < 65536)"
  by (auto simp: validateListenAddr_def parse_uint_eq split: option.splits prod.splits if_splits)

lemma parse_ip_hostname:
  assumes "CHR ''.'' \<notin> set host" and "CHR '':'' \<notin> set host"
  shows "parse_ip host = None"
proof (cases "filter (\<lambda>c. c = CHR ''.'' \<or> c = CHR '':'' \<or> c = CHR ''%'') host")
  case Nil
  then show ?thesis by (simp only: parse_ip_def list.case)
next
  case (Cons c cs)
  then have "c \<in> set (filter (\<lambda>c. c = CHR ''.'' \<or> c = CHR '':'' \<or> c = CHR ''%'') host)"
    by (simp only: list.set_intros)
  with assms have "c = CHR ''%''" by (simp only: set_filter mem_Collect_eq) blast
  with Cons show ?thesis by (simp only: parse_ip_def list.case) simp
qed

subsection \<open>The contract of Load\<close>

definition sample_env :: "(string \<times> string) list \<Rightarrow> env" where
  "sample_env entries key = (case map_of entries key of None \<Rightarrow> [] | Some value \<Rightarrow> value)"

text \<open>
  C13: The process never starts without credentials by accident: a loaded configuration
  with no token means that ALLOW_INSECURE_LISTEN was set to a true value, or that
  ALLOW_INSECURE_LOOPBACK_LISTEN was and the host to listen on is a literal loopback
  address (a host name, even localhost, does not count).
\<close>

theorem unauthenticated_only_on_request:
  assumes "Load order getenv = Inr cfg" and "\<not> hasCredentials cfg"
  shows "boolEnv getenv ''ALLOW_INSECURE_LISTEN'' = Inr True \<or>
    boolEnv getenv ''ALLOW_INSECURE_LOOPBACK_LISTEN'' = Inr True \<and>
    (\<exists>host port ip. split_host_port (ListenAddr cfg) = Some (host, port) \<and>
       (CHR ''.'' \<in> set host \<or> CHR '':'' \<in> set host) \<and> parse_ip host = Some ip \<and> is_loopback ip)"
proof (cases "boolEnv getenv ''ALLOW_INSECURE_LISTEN'' = Inr True")
  case False
  with assms have lb: "isLoopbackListenAddr (ListenAddr cfg)"
    and "boolEnv getenv ''ALLOW_INSECURE_LOOPBACK_LISTEN'' = Inr True"
    unfolding Load_ok by auto
  moreover from lb obtain host port ip where "split_host_port (ListenAddr cfg) = Some (host, port)"
    "parse_ip host = Some ip" "is_loopback ip"
    by (auto simp: isLoopbackListenAddr_def split: option.splits prod.splits)
  ultimately show ?thesis using parse_ip_hostname[of host] by auto
qed simp

theorem unauthenticated_only_on_request_witness:
  "\<exists>cfg. Load id (sample_env [(''ALLOW_INSECURE_LOOPBACK_LISTEN'', ''true'')]) = Inr cfg \<and>
     (\<exists>host port ip. split_host_port (ListenAddr cfg) = Some (host, port) \<and>
       parse_ip host = Some ip \<and> is_loopback ip)"
proof -
  let ?e = "sample_env [(''ALLOW_INSECURE_LOOPBACK_LISTEN'', ''true'')]"
  have run: "case Load id ?e of Inl _ \<Rightarrow> False | Inr cfg \<Rightarrow> \<not> hasCredentials cfg"
    and no: "boolEnv ?e ''ALLOW_INSECURE_LISTEN'' = Inr False"
    by code_simp+
  from run obtain cfg where "Load id ?e = Inr cfg" "\<not> hasCredentials cfg"
    by (auto split: sum.splits)
  with unauthenticated_only_on_request[of id ?e cfg] no show ?thesis by auto
qed

text \<open>
  Tokens are checked by walking a Go map, whose order is unspecified; which
  configuration is loaded, if any, does not depend on it.
\<close>

theorem load_order_irrelevant:
  assumes "\<And>entries. mset (order entries) = mset entries"
    and "\<And>entries. mset (order' entries) = mset entries"
  shows "Load order getenv = Inr cfg \<longleftrightarrow> Load order' getenv = Inr cfg"
  unfolding Load_ok
  using validateTokens_ok[where order = order, OF assms(1)]
    validateTokens_ok[where order = order', OF assms(2)] by simp

theorem load_order_irrelevant_witness:
  "\<forall>cfg. Load id (sample_env [(''API_READ_TOKEN'', ''r'')]) = Inr cfg \<longleftrightarrow>
     Load rev (sample_env [(''API_READ_TOKEN'', ''r'')]) = Inr cfg"
  using load_order_irrelevant[of id rev] by auto

text \<open>
  In a loaded configuration no token contains white space and the tokens that are set
  are pairwise different, so that a token identifies one scope.
\<close>

theorem loaded_tokens_distinct:
  assumes "Load order getenv = Inr cfg" and "mset (order (tokenEntries cfg)) = mset (tokenEntries cfg)"
  shows "list_all (\<lambda>(_, t). \<not> contains_space t) (tokenEntries cfg) \<and>
    distinct (usableTokens (tokenEntries cfg))"
  using assms(1) validateTokens_ok[where order = order, OF assms(2)]
  unfolding Load_ok by (auto simp: list_all_iff)

theorem loaded_tokens_distinct_witness:
  "\<exists>cfg. Load rev (sample_env [(''API_READ_TOKEN'', ''r''), (''API_ADMIN_TOKEN'', ''a'')]) = Inr cfg \<and>
     usableTokens (tokenEntries cfg) = [''r'', ''a''] \<and> distinct (usableTokens (tokenEntries cfg))"
proof -
  let ?e = "sample_env [(''API_READ_TOKEN'', ''r''), (''API_ADMIN_TOKEN'', ''a'')]"
  have "case Load rev ?e of Inl _ \<Rightarrow> False
        | Inr cfg \<Rightarrow> usableTokens (tokenEntries cfg) = [''r'', ''a'']"
    by code_simp
  then obtain cfg where "Load rev ?e = Inr cfg" "usableTokens (tokenEntries cfg) = [''r'', ''a'']"
    by (auto split: sum.splits)
  with loaded_tokens_distinct[of rev ?e cfg] show ?thesis by auto
qed

text \<open>
  C37: In a loaded configuration the listen address is a host and a port that Go's
  \<open>net.SplitHostPort\<close> accepts, and the port is a decimal number below 65536.
\<close>

theorem loaded_listen_addr:
  assumes "Load order getenv = Inr cfg"
  shows "\<exists>host port. split_host_port (ListenAddr cfg) = Some (host, port) \<and> port \<noteq> [] \<and>
    list_all is_digit port \<and> digits_value 0 port < 65536"
  using assms unfolding Load_ok validateListenAddr_ok by blast

theorem loaded_listen_addr_witness:
  "\<exists>cfg host port. Load id (sample_env [(''API_READ_TOKEN'', ''r''), (''LISTEN_ADDR'', ''[::1]:80'')]) = Inr cfg \<and>
     split_host_port (ListenAddr cfg) = Some (host, port) \<and> digits_value 0 port < 65536"
proof -
  let ?e = "sample_env [(''API_READ_TOKEN'', ''r''), (''LISTEN_ADDR'', ''[::1]:80'')]"
  have "case Load id ?e of Inl _ \<Rightarrow> False | Inr cfg \<Rightarrow> True" by code_simp
  then obtain cfg where "Load id ?e = Inr cfg" by (auto split: sum.splits)
  with loaded_listen_addr[OF this] show ?thesis by blast
qed



text \<open>
  An origin followed by an empty query or fragment passes the validation, although no
  browser ever sends such an Origin header.
\<close>

theorem trailing_delimiter_origin_accepted:
  "parseOrigins ''https://vm.example?'' = Inr [''https://vm.example?''] \<and>
   parseOrigins ''https://vm.example#'' = Inr [''https://vm.example#''] \<and>
   parseOrigins ''https://vm.example/'' = Inl (InvalidOrigin ''https://vm.example/'')"
  by code_simp

end
