(* ===== verification/Locks.thy ===== *)
theory Locks
  imports Prelude
begin

text \<open>
  The per-domain action locks of \<open>internal/hypervisor/libvirt.go\<close> (lines 17 to 34 and 794
  to 840).  A lock object lives in a store addressed by number; the map \<open>actionLocks\<close> holds
  a reference under the UUID of the domain.  The critical sections under \<open>locksMu\<close> are atomic
  operations; the semaphore, a channel of capacity one, is whether its token is there.

  Any number of goroutines run the protocol: retain, take the token (or give up when the
  context is done), put the token back, release.  The steps are a relation, so the
  theorems hold for every schedule.
\<close>

subsection \<open>Data and operations\<close>

record domainActionLock =
  semaphore :: bool
  users :: int

record lockTable =
  actionLocks :: "string \<rightharpoonup> nat"
  lock_store :: "nat \<Rightarrow> domainActionLock"
  next_lock :: nat

definition retainDomainActionLock :: "string \<Rightarrow> lockTable \<Rightarrow> nat \<times> lockTable" where
  "retainDomainActionLock name l =
     (let (r, l) =
        (case actionLocks l name of
           Some r \<Rightarrow> (r, l)
         | None \<Rightarrow>
           (next_lock l,
            l\<lparr>lock_store := (lock_store l)(next_lock l := \<lparr>semaphore = True, users = 0\<rparr>),
              actionLocks := (actionLocks l)(name \<mapsto> next_lock l),
              next_lock := Suc (next_lock l)\<rparr>))
      in (r, l\<lparr>lock_store := (lock_store l)(r := (lock_store l r)\<lparr>users := users (lock_store l r) + 1\<rparr>)\<rparr>))"

definition releaseDomainActionLock :: "string \<Rightarrow> nat \<Rightarrow> lockTable \<Rightarrow> lockTable" where
  "releaseDomainActionLock name r l =
     (let l = l\<lparr>lock_store := (lock_store l)(r := (lock_store l r)\<lparr>users := users (lock_store l r) - 1\<rparr>)\<rparr>
      in if users (lock_store l r) = 0 then l\<lparr>actionLocks := (actionLocks l)(name := None)\<rparr> else l)"

definition take_token :: "nat \<Rightarrow> lockTable \<Rightarrow> lockTable" where
  "take_token r l = l\<lparr>lock_store := (lock_store l)(r := (lock_store l r)\<lparr>semaphore := False\<rparr>)\<rparr>"

definition put_token :: "nat \<Rightarrow> lockTable \<Rightarrow> lockTable" where
  "put_token r l = l\<lparr>lock_store := (lock_store l)(r := (lock_store l r)\<lparr>semaphore := True\<rparr>)\<rparr>"

text \<open>
  Where a goroutine is: outside, waiting for the token (the flag tells whether it waits in
  \<open>lockDomainActionContext\<close> and can give up), holding the token, or past the send that put
  it back and about to release.
\<close>

datatype position =
    Outside
  | Waiting bool string nat
  | Holding string nat
  | Leaving string nat

type_synonym lock_state = "lockTable \<times> (nat \<Rightarrow> position)"

inductive lock_step :: "lock_state \<Rightarrow> lock_state \<Rightarrow> bool" where
  retain: "pos t = Outside \<Longrightarrow> retainDomainActionLock name l = (r, l') \<Longrightarrow>
     lock_step (l, pos) (l', pos(t := Waiting ctx name r))"
| acquire: "pos t = Waiting ctx name r \<Longrightarrow> semaphore (lock_store l r) \<Longrightarrow>
     lock_step (l, pos) (take_token r l, pos(t := Holding name r))"
| give_up: "pos t = Waiting True name r \<Longrightarrow>
     lock_step (l, pos) (releaseDomainActionLock name r l, pos(t := Outside))"
| unlock: "pos t = Holding name r \<Longrightarrow> \<not> semaphore (lock_store l r) \<Longrightarrow>
     lock_step (l, pos) (put_token r l, pos(t := Leaving name r))"
| release: "pos t = Leaving name r \<Longrightarrow>
     lock_step (l, pos) (releaseDomainActionLock name r l, pos(t := Outside))"

definition initial_locks :: lock_state where
  "initial_locks =
     (\<lparr>actionLocks = Map.empty, lock_store = (\<lambda>_. \<lparr>semaphore = False, users = 0\<rparr>), next_lock = 0\<rparr>,
      \<lambda>_. Outside)"

inductive locks_reachable :: "lock_state \<Rightarrow> bool" where
  start: "locks_reachable initial_locks"
| step: "locks_reachable s \<Longrightarrow> lock_step s s' \<Longrightarrow> locks_reachable s'"

inductive_cases lock_stepE: "lock_step s s'"

subsection \<open>Invariant\<close>

fun uses :: "position \<Rightarrow> string \<Rightarrow> nat \<Rightarrow> bool" where
  "uses Outside n r = False"
| "uses (Waiting c m q) n r = (m = n \<and> q = r)"
| "uses (Holding m q) n r = (m = n \<and> q = r)"
| "uses (Leaving m q) n r = (m = n \<and> q = r)"

definition users_of :: "(nat \<Rightarrow> position) \<Rightarrow> string \<Rightarrow> nat \<Rightarrow> nat set" where
  "users_of pos n r = {t. uses (pos t) n r}"

definition lock_ok :: "lockTable \<Rightarrow> (nat \<Rightarrow> position) \<Rightarrow> string \<Rightarrow> nat \<Rightarrow> bool" where
  "lock_ok l pos n r \<longleftrightarrow>
     r < next_lock l \<and> finite (users_of pos n r) \<and> users_of pos n r \<noteq> {} \<and>
     users (lock_store l r) = int (card (users_of pos n r)) \<and>
     (semaphore (lock_store l r) \<longleftrightarrow> (\<forall>t. pos t \<noteq> Holding n r)) \<and>
     (\<forall>t u. pos t = Holding n r \<longrightarrow> pos u = Holding n r \<longrightarrow> t = u)"

fun locks_inv :: "lock_state \<Rightarrow> bool" where
  "locks_inv (l, pos) =
     ((\<forall>t n r. uses (pos t) n r \<longrightarrow> actionLocks l n = Some r) \<and>
      (\<forall>n r. actionLocks l n = Some r \<longrightarrow> lock_ok l pos n r) \<and>
      (\<forall>n m r. actionLocks l n = Some r \<longrightarrow> actionLocks l m = Some r \<longrightarrow> n = m))"

lemma locks_invD:
  assumes "locks_inv (l, pos)"
  shows "uses (pos t) n r \<Longrightarrow> actionLocks l n = Some r"
    and "actionLocks l n = Some r \<Longrightarrow> lock_ok l pos n r"
    and "actionLocks l n = Some r \<Longrightarrow> actionLocks l m = Some r \<Longrightarrow> n = m"
  using assms by auto

lemma locks_invI:
  assumes "\<And>t n r. uses (pos t) n r \<Longrightarrow> actionLocks l n = Some r"
    and "\<And>n r. actionLocks l n = Some r \<Longrightarrow> lock_ok l pos n r"
    and "\<And>n m r. actionLocks l n = Some r \<Longrightarrow> actionLocks l m = Some r \<Longrightarrow> n = m"
  shows "locks_inv (l, pos)"
  using assms by auto

lemma users_of_upd:
  "users_of (pos(t := p)) n r =
     (if uses p n r then insert t (users_of pos n r) else users_of pos n r - {t})"
  by (auto simp: users_of_def)

lemma uses_Holding [simp]: "pos t = Holding n r \<Longrightarrow> uses (pos t) n r"
  by simp

text \<open>A lock that the step of goroutine \<open>t\<close> does not touch stays as it was.\<close>

lemma lock_ok_other:
  assumes "lock_ok l pos n r" and "lock_store l' r = lock_store l r" and "next_lock l \<le> next_lock l'"
    and "\<not> uses (pos t) n r" and "\<not> uses p n r"
  shows "lock_ok l' (pos(t := p)) n r"
proof -
  have "users_of (pos(t := p)) n r = users_of pos n r"
    using assms(4,5) by (auto simp: users_of_def)
  moreover have "(pos(t := p)) u = Holding n r \<longleftrightarrow> pos u = Holding n r" for u
    using assms(4,5) by auto
  ultimately show ?thesis using assms(1-3) by (auto simp: lock_ok_def)
qed

lemma retain_effect:
  "retainDomainActionLock name l = (r, l') \<longleftrightarrow>
     (case actionLocks l name of
        Some q \<Rightarrow> r = q \<and> l' = l\<lparr>lock_store := (lock_store l)(q := (lock_store l q)\<lparr>users := users (lock_store l q) + 1\<rparr>)\<rparr>
      | None \<Rightarrow> r = next_lock l \<and>
          l' = l\<lparr>lock_store := (lock_store l)(r := \<lparr>semaphore = True, users = 1\<rparr>),
                actionLocks := (actionLocks l)(name \<mapsto> r), next_lock := Suc r\<rparr>)"
  by (auto simp: retainDomainActionLock_def split: option.split)

lemma inv_retain:
  assumes inv: "locks_inv (l, pos)" and out: "pos t = Outside"
    and ret: "retainDomainActionLock name l = (r, l')"
  shows "locks_inv (l', pos(t := Waiting ctx name r))"
proof (cases "actionLocks l name")
  case None
  with ret have l': "l' = l\<lparr>lock_store := (lock_store l)(r := \<lparr>semaphore = True, users = 1\<rparr>),
      actionLocks := (actionLocks l)(name \<mapsto> r), next_lock := Suc r\<rparr>" and r: "r = next_lock l"
    by (auto simp: retain_effect)
  have unused: "\<not> uses (pos u) name q" for u q using locks_invD(1)[OF inv, of u name q] None by auto
  have new: "actionLocks l n \<noteq> Some r" for n
    using locks_invD(2)[OF inv, of n r] r by (auto simp: lock_ok_def)
  have "users_of (pos(t := Waiting ctx name r)) name r = {t}"
    using unused by (auto simp: users_of_def)
  moreover have "pos u \<noteq> Holding name r" for u using unused[of u r] by auto
  ultimately have "lock_ok l' (pos(t := Waiting ctx name r)) name r"
    by (auto simp: lock_ok_def l')
  moreover have "lock_ok l' (pos(t := Waiting ctx name r)) n q"
    if "actionLocks l n = Some q" "n \<noteq> name" for n q
    using locks_invD(2)[OF inv that(1)] new[of n] that r out
    by (intro lock_ok_other[of l]) (auto simp: l' lock_ok_def)
  moreover have "actionLocks l' n = Some q" if "uses ((pos(t := Waiting ctx name r)) u) n q" for u n q
    using that locks_invD(1)[OF inv, of u n q] unused[of u q] by (auto simp: l' split: if_splits)
  moreover have "n = m" if "actionLocks l' n = Some q" "actionLocks l' m = Some q" for n m q
    using that locks_invD(3)[OF inv, of n q m] new[of n] new[of m] by (auto simp: l' split: if_splits)
  moreover have "n = name \<and> q = r \<or> n \<noteq> name \<and> actionLocks l n = Some q"
    if "actionLocks l' n = Some q" for n q
    using that by (simp add: l' split: if_splits)
  ultimately show ?thesis by (intro locks_invI) metis+
next
  case (Some q)
  with ret have l': "l' = l\<lparr>lock_store := (lock_store l)(r := (lock_store l r)\<lparr>users := users (lock_store l r) + 1\<rparr>)\<rparr>"
    and r: "actionLocks l name = Some r"
    by (auto simp: retain_effect)
  have "t \<notin> users_of pos name r" using out by (simp add: users_of_def)
  moreover have "(pos(t := Waiting ctx name r)) u = Holding name r \<longleftrightarrow> pos u = Holding name r" for u
    using out by auto
  ultimately have "lock_ok l' (pos(t := Waiting ctx name r)) name r"
    using locks_invD(2)[OF inv r] by (simp add: lock_ok_def l' users_of_upd fun_upd_same del: fun_upd_apply)
  moreover have "lock_ok l' (pos(t := Waiting ctx name r)) n q"
    if "actionLocks l n = Some q" "n \<noteq> name" for n q
    using locks_invD(2)[OF inv that(1)] locks_invD(3)[OF inv that(1), of name] that r out
    by (intro lock_ok_other[of l]) (auto simp: l')
  moreover have "actionLocks l' n = Some q" if "uses ((pos(t := Waiting ctx name r)) u) n q" for u n q
    using that locks_invD(1)[OF inv, of u n q] r by (auto simp: l' split: if_splits)
  moreover have "actionLocks l' = actionLocks l" by (simp add: l')
  ultimately show ?thesis
    using r locks_invD(3)[OF inv] by (intro locks_invI) (metis option.inject)+
qed

lemma inv_release:
  assumes inv: "locks_inv (l, pos)" and pos: "uses (pos t) name r" "pos t \<noteq> Holding name r"
  shows "locks_inv (releaseDomainActionLock name r l, pos(t := Outside))"
proof -
  have r: "actionLocks l name = Some r" using locks_invD(1)[OF inv pos(1)] .
  have ok: "lock_ok l pos name r" using locks_invD(2)[OF inv r] .
  let ?U = "users_of pos name r" and ?pos = "pos(t := Outside)"
  let ?l = "releaseDomainActionLock name r l"
  have t: "t \<in> ?U" and fin: "finite ?U" using pos(1) ok by (auto simp: users_of_def lock_ok_def)
  have U': "users_of ?pos name r = ?U - {t}" by (simp add: users_of_upd)
  have card: "int (card (?U - {t})) = users (lock_store l r) - 1"
    using card_Suc_Diff1[OF fin t] ok by (simp add: lock_ok_def)
  have store: "lock_store ?l q = (if q = r then (lock_store l r)\<lparr>users := users (lock_store l r) - 1\<rparr>
      else lock_store l q)" and nxt: "next_lock ?l = next_lock l" for q
    by (simp_all add: releaseDomainActionLock_def Let_def)
  have last: "users (lock_store l r) = 1 \<longleftrightarrow> ?U - {t} = {}"
    using card card_0_eq[OF finite_Diff[OF fin, of "{t}"]] by linarith
  have maps: "actionLocks ?l n = (if n = name \<and> ?U - {t} = {} then None else actionLocks l n)" for n
    unfolding last[symmetric] by (simp add: releaseDomainActionLock_def Let_def)
  have other: "lock_ok ?l ?pos n q" if "actionLocks l n = Some q" "n \<noteq> name" for n q
    using locks_invD(2)[OF inv that(1)] locks_invD(3)[OF inv that(1), of name]
      locks_invD(1)[OF inv, of t n q] that r pos(1)
    by (intro lock_ok_other[of l]) (cases "pos t"; auto simp: store nxt)+
  have same: "lock_ok ?l ?pos name r" if "?U - {t} \<noteq> {}"
    using ok that fin card pos(2) by (auto simp: lock_ok_def U' store nxt)
  have used: "actionLocks ?l n = Some q" if "uses (?pos u) n q" for u n q
    using that locks_invD(1)[OF inv, of u n q] r
    by (auto simp: maps users_of_def split: if_splits)
  show ?thesis
  proof (rule locks_invI)
    fix u n q assume "uses (?pos u) n q"
    then show "actionLocks ?l n = Some q" by (rule used)
  next
    fix n q assume "actionLocks ?l n = Some q"
    then have "actionLocks l n = Some q" "n = name \<longrightarrow> ?U - {t} \<noteq> {}"
      unfolding maps by (metis option.distinct(1))+
    with other same r show "lock_ok ?l ?pos n q" by (cases "n = name") auto
  next
    fix n m q assume "actionLocks ?l n = Some q" "actionLocks ?l m = Some q"
    then show "n = m" using locks_invD(3)[OF inv, of n q m] by (simp add: maps split: if_splits)
  qed
qed

lemma inv_token:
  assumes inv: "locks_inv (l, pos)" and used: "uses (pos t) name r"
    and p: "p = Holding name r \<and> semaphore (lock_store l r) \<and> l' = take_token r l \<or>
            p = Leaving name r \<and> pos t = Holding name r \<and> l' = put_token r l"
  shows "locks_inv (l', pos(t := p))"
proof -
  have r: "actionLocks l name = Some r" using locks_invD(1)[OF inv used] .
  have ok: "lock_ok l pos name r" using locks_invD(2)[OF inv r] .
  have "uses p name r" using p by auto
  then have U: "users_of (pos(t := p)) name r = users_of pos name r"
    using used by (auto simp: users_of_upd users_of_def)
  have "lock_ok l' (pos(t := p)) name r"
    using ok p by (auto simp: lock_ok_def U take_token_def put_token_def split: if_splits)
  moreover have "lock_ok l' (pos(t := p)) n q" if "actionLocks l n = Some q" "n \<noteq> name" for n q
    using locks_invD(2)[OF inv that(1)] locks_invD(3)[OF inv that(1), of name] that r used p
    by (intro lock_ok_other[of l]) (cases "pos t"; auto simp: take_token_def put_token_def)+
  moreover have "actionLocks l' = actionLocks l" using p by (auto simp: take_token_def put_token_def)
  moreover have "actionLocks l n = Some q" if "uses ((pos(t := p)) u) n q" for u n q
    using that locks_invD(1)[OF inv, of u n q] r p by (auto split: if_splits)
  ultimately show ?thesis
    using r locks_invD(3)[OF inv] by (intro locks_invI) (metis option.inject)+
qed

lemma lock_step_inv: "lock_step s s' \<Longrightarrow> locks_inv s \<Longrightarrow> locks_inv s'"
proof (induction rule: lock_step.induct)
  case (retain pos t name l r l' ctx)
  then show ?case by (blast intro: inv_retain)
next
  case (acquire pos t ctx name r l)
  then show ?case by (intro inv_token[where name = name and r = r]) auto
next
  case (give_up pos t name r l)
  then show ?case by (intro inv_release) auto
next
  case (unlock pos t name r l)
  then show ?case by (intro inv_token[where name = name and r = r]) auto
next
  case (release pos t name r l)
  then show ?case by (intro inv_release) auto
qed

lemma locks_reachable_inv: "locks_reachable s \<Longrightarrow> locks_inv s"
  by (induction rule: locks_reachable.induct) (auto simp: initial_locks_def intro: lock_step_inv)

subsection \<open>What the protocol gives\<close>

lemma inv_exclusive:
  assumes "locks_inv (l, pos)" and "pos t = Holding name r" and "pos u = Holding name q"
  shows "t = u"
proof -
  have "actionLocks l name = Some r" "actionLocks l name = Some q"
    using locks_invD(1)[OF assms(1), of t name r] locks_invD(1)[OF assms(1), of u name q] assms(2,3)
    by auto
  with assms(2,3) locks_invD(2)[OF assms(1), of name r] show ?thesis
    by (auto simp: lock_ok_def)
qed

lemma inv_no_leak:
  assumes "locks_inv (l, pos)"
  shows "actionLocks l name \<noteq> None \<longleftrightarrow> (\<exists>t r. uses (pos t) name r)"
proof
  assume "actionLocks l name \<noteq> None"
  then obtain r where "actionLocks l name = Some r" by auto
  with locks_invD(2)[OF assms] have "users_of pos name r \<noteq> {}" by (simp add: lock_ok_def)
  then show "\<exists>t r. uses (pos t) name r" by (auto simp: users_of_def)
qed (use locks_invD(1)[OF assms] in auto)

text \<open>A goroutine inside is never stuck unless another one holds the same domain.\<close>

lemma inv_progress:
  assumes inv: "locks_inv (l, pos)" and used: "uses (pos t) name r"
  shows "(\<exists>l' p. lock_step (l, pos) (l', pos(t := p)) \<and> p \<noteq> pos t) \<or>
         (\<exists>u. u \<noteq> t \<and> pos u = Holding name r)"
proof -
  have ok: "lock_ok l pos name r"
    using locks_invD(2)[OF inv locks_invD(1)[OF inv used]] .
  show ?thesis
  proof (cases "pos t")
    case (Waiting c m q)
    with used have "m = name" "q = r" by auto
    show ?thesis
    proof (cases "semaphore (lock_store l r)")
      case True
      with Waiting \<open>m = name\<close> \<open>q = r\<close> show ?thesis using lock_step.acquire[of pos t c name r l] by auto
    next
      case False
      with ok obtain u where "pos u = Holding name r" by (auto simp: lock_ok_def)
      with Waiting show ?thesis by (metis position.distinct(7))
    qed
  next
    case (Holding m q)
    with used have "pos t = Holding name r" by auto
    moreover from this ok have "\<not> semaphore (lock_store l r)" by (auto simp: lock_ok_def)
    ultimately show ?thesis
      using lock_step.unlock[of pos t name r l] by (metis position.distinct(11))
  next
    case (Leaving m q)
    with used have "pos t = Leaving name r" by auto
    then show ?thesis using lock_step.release[of pos t name r l] by (metis position.distinct(5))
  qed (use used in simp)
qed

subsection \<open>The contract of the action locks\<close>

lemma sample_locks:
  "\<exists>l. locks_reachable (l, (\<lambda>_. Outside)(0 := Holding ''u'' 0, 1 := Waiting True ''u'' 0))"
proof -
  let ?p0 = "\<lambda>_ :: nat. Outside"
  obtain l0 where l0: "initial_locks = (l0, ?p0)" and e: "actionLocks l0 = Map.empty" "next_lock l0 = 0"
    by (simp add: initial_locks_def)
  obtain l1 where r1: "retainDomainActionLock ''u'' l0 = (0, l1)"
    and l1: "actionLocks l1 ''u'' = Some 0" "semaphore (lock_store l1 0)"
    using e by (auto simp: retainDomainActionLock_def Let_def)
  obtain l2 where r2: "retainDomainActionLock ''u'' (take_token 0 l1) = (0, l2)"
    using l1 by (auto simp: retainDomainActionLock_def take_token_def Let_def)
  have "locks_reachable (l1, ?p0(0 := Waiting False ''u'' 0))"
    using locks_reachable.step[OF locks_reachable.start] lock_step.retain[of ?p0 0 "''u''" l0 0 l1 False]
      r1 l0 by simp
  then have "locks_reachable (take_token 0 l1, ?p0(0 := Waiting False ''u'' 0, 0 := Holding ''u'' 0))"
    using lock_step.acquire[of "?p0(0 := Waiting False ''u'' 0)" 0 False "''u''" 0 l1] l1
    by (auto intro: locks_reachable.step)
  then have "locks_reachable (l2, ?p0(0 := Holding ''u'' 0, 1 := Waiting True ''u'' 0))"
    using lock_step.retain[of "?p0(0 := Holding ''u'' 0)" 1 "''u''" "take_token 0 l1" 0 l2 True] r2
    by (auto intro: locks_reachable.step)
  then show ?thesis by blast
qed

text \<open>
  C12: Under every schedule at most one goroutine holds the action lock of a domain, even
  while lock objects are created and dropped on demand.
\<close>

theorem action_lock_exclusive:
  assumes "locks_reachable (l, pos)" and "pos t = Holding name r" and "pos u = Holding name q"
  shows "t = u"
  using inv_exclusive[OF locks_reachable_inv[OF assms(1)]] assms(2,3) .

theorem action_lock_exclusive_witness:
  "\<exists>l pos. locks_reachable (l, pos) \<and> pos (0 :: nat) = Holding ''u'' 0 \<and>
     (\<forall>t. pos t = Holding ''u'' 0 \<longrightarrow> t = 0)"
  using sample_locks action_lock_exclusive[where name = "''u''" and r = 0 and q = 0 and u = 0]
  by (metis fun_upd_apply zero_neq_one)

text \<open>
  C26: The table has an entry for a domain exactly while some goroutine uses it: no entry
  leaks, and none is dropped under a goroutine that waits or holds.
\<close>

theorem action_lock_table_exact:
  assumes "locks_reachable (l, pos)"
  shows "actionLocks l name \<noteq> None \<longleftrightarrow> (\<exists>t r. uses (pos t) name r)"
  using inv_no_leak[OF locks_reachable_inv[OF assms]] .

theorem action_lock_table_exact_witness:
  "\<exists>l. locks_reachable (l, (\<lambda>_. Outside)(0 := Holding ''u'' 0, 1 := Waiting True ''u'' 0)) \<and>
     actionLocks l ''u'' \<noteq> None \<and> actionLocks l ''v'' = None"
proof -
  obtain l where l: "locks_reachable (l, (\<lambda>_. Outside)(0 := Holding ''u'' 0, 1 := Waiting True ''u'' 0))"
    using sample_locks by blast
  have "actionLocks l ''u'' \<noteq> None"
    using action_lock_table_exact[OF l, of "''u''"] by (auto intro: exI[of _ 0])
  moreover have "actionLocks l ''v'' = None"
    using action_lock_table_exact[OF l, of "''v''"] by (auto split: if_splits)
  ultimately show ?thesis using l by blast
qed

text \<open>
  C27: A goroutine inside the protocol can always take its next step, unless another one
  holds the lock of the same domain; and a waiter with a context can leave even then.
\<close>

theorem action_lock_progress:
  assumes "locks_reachable (l, pos)" and "uses (pos t) name r"
  shows "(\<exists>l' p. lock_step (l, pos) (l', pos(t := p)) \<and> p \<noteq> pos t) \<or>
         (\<exists>u. u \<noteq> t \<and> pos u = Holding name r) \<and>
         (pos t = Waiting True name r \<longrightarrow>
            lock_step (l, pos) (releaseDomainActionLock name r l, pos(t := Outside)))"
  using inv_progress[OF locks_reachable_inv[OF assms(1)] assms(2)] by (blast intro: lock_step.give_up)

theorem action_lock_progress_witness:
  "\<exists>l pos l' p. locks_reachable (l, pos) \<and> pos (0 :: nat) = Holding ''u'' 0 \<and>
     lock_step (l, pos) (l', pos(0 := p)) \<and> p \<noteq> pos 0"
proof -
  let ?pos = "(\<lambda>_ :: nat. Outside)(0 := Holding ''u'' 0, 1 := Waiting True ''u'' 0)"
  obtain l where l: "locks_reachable (l, ?pos)" using sample_locks by blast
  have pos: "?pos 0 = Holding ''u'' 0" "uses (?pos 0) ''u'' 0" by simp_all
  have pos: "?pos 0 = Holding ''u'' 0" "uses (?pos 0) ''u'' 0" by simp_all
  have "\<not> (\<exists>u. u \<noteq> 0 \<and> ?pos u = Holding ''u'' 0)" by simp
  with action_lock_progress[OF l pos(2)]
  have "\<exists>l' p. lock_step (l, ?pos) (l', ?pos(0 := p)) \<and> p \<noteq> ?pos 0" by argo
  then obtain l' p where step: "lock_step (l, ?pos) (l', ?pos(0 := p))" "p \<noteq> ?pos 0"
    by (elim exE conjE)
  show ?thesis
    by (rule exI[of _ l], rule exI[of _ ?pos], rule exI[of _ l'], rule exI[of _ p])
       (intro conjI l pos(1) step)
qed

end
