(* ===== verification/Libvirt_Core.thy ===== *)
theory Libvirt_Core
  imports Service Locks "HOL-Library.Multiset"
begin

text \<open>
  The ground of the libvirt adapter (\<open>internal/hypervisor/libvirt.go\<close>): the part of the
  libvirt binding the adapter calls, domain lookup and identity, and the action lock and
  the deferred releases as one request sees them.

  The binding is third-party code, so it is a parameter: records of functions over an
  unknown world.  A run carries the world and the list of calls made, in order, so that a
  theorem can speak about what the adapter did.  How the lock behaves between requests is
  the subject of theory \<open>Locks\<close>; within one request taking and putting it back are events.
\<close>

subsection \<open>Calls, runs and the binding\<close>

datatype shutdown_flag =
    DOMAIN_SHUTDOWN_DEFAULT | DOMAIN_SHUTDOWN_ACPI_POWER_BTN | DOMAIN_SHUTDOWN_GUEST_AGENT

datatype reboot_flag =
    DOMAIN_REBOOT_DEFAULT | DOMAIN_REBOOT_ACPI_POWER_BTN | DOMAIN_REBOOT_GUEST_AGENT

text \<open>The calls that change a domain.\<close>

datatype mutation =
    MCreate
  | MShutdown shutdown_flag
  | MReboot reboot_flag
  | MSuspend
  | MResume
  | MReset
  | MDestroy
  | MSetAutostart bool
  | MSnapshotCreate
  | MSnapshotRevert
  | MSnapshotDelete

datatype query =
    QGetName | QGetUUID | QIsActive | QGetState | QGetID | QGetInfo | QGetXMLDesc | QGetAutostart
  | QCPUStats | QMemoryStats | QBlockStats string | QInterfaceStats string | QInterfaceAddresses
  | QScreenshot | QStreamRecvAll | QStreamFinish | QStreamAbort
  | QSnapshotCurrent | QSnapshots | QSnapshotByName string

datatype host_query =
    HIsAlive | HGetHostname | HGetNodeInfo | HGetCPUStats | HGetMemoryStats | HListAllDomains
  | HNewStream

text \<open>
  The handles the binding gives out (domains, snapshots, streams) are values of one type.
  A call records the handles it gave: the option of a lookup, the list of the others.
\<close>

datatype 'd call =
    CByName string "'d option"
  | CByUUID string "'d option"
  | CHost host_query "'d list"
  | CQuery query 'd "'d list"
  | CMutate mutation 'd "'d list"
  | CLock string
  | CUnlock string
  | CFree 'd

record ('w, 'd) run =
  world :: 'w
  calls :: "'d call list"

type_synonym ('w, 'd, 'a) io = "(('w, 'd) run, 'a) state"

text \<open>One call: the parameter computes the reply, the call is added to the record.\<close>

definition call :: "('r \<Rightarrow> 'd call) \<Rightarrow> ('w \<Rightarrow> 'r \<times> 'w) \<Rightarrow> ('w, 'd, 'r) io" where
  "call c f = State (\<lambda>s. case f (world s) of
     (r, w) \<Rightarrow> (r, s\<lparr>world := w, calls := calls s @ [c r]\<rparr>))"

definition note_call :: "'d call \<Rightarrow> ('w, 'd, unit) io" where
  "note_call c = State (\<lambda>s. ((), s\<lparr>calls := calls s @ [c]\<rparr>))"

text \<open>\<open>defer\<close>: the final operation runs whichever way the body returns.\<close>

definition deferring :: "('w, 'd, unit) io \<Rightarrow> ('w, 'd, 'a) io \<Rightarrow> ('w, 'd, 'a) io" where
  "deferring final body = do { r \<leftarrow> body; final; State_Monad.return r }"

record ('w, 'd) lv_core =
  LookupDomainByName :: "string \<Rightarrow> 'w \<Rightarrow> (lverr + 'd) \<times> 'w"
  LookupDomainByUUIDString :: "string \<Rightarrow> 'w \<Rightarrow> (lverr + 'd) \<times> 'w"
  GetName :: "'d \<Rightarrow> 'w \<Rightarrow> (lverr + string) \<times> 'w"
  GetUUIDString :: "'d \<Rightarrow> 'w \<Rightarrow> (lverr + string) \<times> 'w"
  Free :: "'d \<Rightarrow> 'w \<Rightarrow> unit \<times> 'w"

fun to_option :: "'e + 'a \<Rightarrow> 'a option" where
  "to_option (Inl _) = None"
| "to_option (Inr x) = Some x"

definition byName :: "('w, 'd, 'x) lv_core_scheme \<Rightarrow> string \<Rightarrow> ('w, 'd, lverr + 'd) io" where
  "byName lv n = call (\<lambda>r. CByName n (to_option r)) (LookupDomainByName lv n)"

definition byUUID :: "('w, 'd, 'x) lv_core_scheme \<Rightarrow> string \<Rightarrow> ('w, 'd, lverr + 'd) io" where
  "byUUID lv u = call (\<lambda>r. CByUUID u (to_option r)) (LookupDomainByUUIDString lv u)"

definition ask :: "query \<Rightarrow> 'd \<Rightarrow> ('d \<Rightarrow> 'w \<Rightarrow> 'r \<times> 'w) \<Rightarrow> ('w, 'd, 'r) io" where
  "ask q d f = call (\<lambda>_. CQuery q d []) (f d)"

definition mutate :: "mutation \<Rightarrow> 'd \<Rightarrow> ('d \<Rightarrow> 'w \<Rightarrow> 'r \<times> 'w) \<Rightarrow> ('w, 'd, 'r) io" where
  "mutate m d f = call (\<lambda>_. CMutate m d []) (f d)"

definition ask_host :: "host_query \<Rightarrow> ('w \<Rightarrow> 'r \<times> 'w) \<Rightarrow> ('w, 'd, 'r) io" where
  "ask_host q f = call (\<lambda>_. CHost q []) f"

definition freeDomain :: "('w, 'd, 'x) lv_core_scheme \<Rightarrow> 'd \<Rightarrow> ('w, 'd, unit) io" where
  "freeDomain lv d = call (\<lambda>_. CFree d) (Free lv d)"

subsection \<open>Lookup and identity\<close>

text \<open>\<open>range value\<close> over a Go string yields runes with their byte offsets.\<close>

fun canonical_runes :: "nat \<Rightarrow> (int \<times> string) list \<Rightarrow> bool" where
  "canonical_runes index [] = True"
| "canonical_runes index ((r, b) # rest) =
     ((if index = 8 \<or> index = 13 \<or> index = 18 \<or> index = 23 then r = 45
       else 48 \<le> r \<and> r \<le> 57 \<or> 97 \<le> r \<and> r \<le> 102 \<or> 65 \<le> r \<and> r \<le> 70) \<and>
      canonical_runes (index + length b) rest)"

definition isCanonicalUUID :: "string \<Rightarrow> bool" where
  "isCanonicalUUID v \<longleftrightarrow> length v = 36 \<and> canonical_runes 0 (chunks v)"

definition lookupDomain ::
  "string \<Rightarrow> (string \<Rightarrow> ('w, 'd, lverr + 'd) io) \<Rightarrow> (string \<Rightarrow> ('w, 'd, lverr + 'd) io) \<Rightarrow>
     ('w, 'd, goerr + 'd) io" where
  "lookupDomain identifier by_name by_uuid = do {
     r \<leftarrow> by_name identifier;
     case r of
       Inr domain \<Rightarrow> State_Monad.return (Inr domain)
     | Inl err \<Rightarrow>
       if \<not> lv_is err ERR_NO_DOMAIN then
         State_Monad.return (Inl (Wrap [Lit ''look up domain name '', Quo identifier, Lit '': ''] (Lib err) []))
       else if isCanonicalUUID identifier then do {
         r2 \<leftarrow> by_uuid identifier;
         case r2 of
           Inr domain \<Rightarrow> State_Monad.return (Inr domain)
         | Inl err \<Rightarrow>
           if \<not> lv_is err ERR_NO_DOMAIN then
             State_Monad.return (Inl (Wrap [Lit ''look up domain UUID '', Quo identifier, Lit '': ''] (Lib err) []))
           else if lv_is err ERR_NO_DOMAIN then
             State_Monad.return (Inl (Wrap [] (Sentinel ErrNotFound) [Lit '': '', Quo identifier]))
           else State_Monad.return (Inl (Wrap [Lit ''look up domain '', Quo identifier, Lit '': ''] (Lib err) []))
       }
       else if lv_is err ERR_NO_DOMAIN then
         State_Monad.return (Inl (Wrap [] (Sentinel ErrNotFound) [Lit '': '', Quo identifier]))
       else State_Monad.return (Inl (Wrap [Lit ''look up domain '', Quo identifier, Lit '': ''] (Lib err) []))
   }"

definition lookup :: "('w, 'd, 'x) lv_core_scheme \<Rightarrow> string \<Rightarrow> ('w, 'd, goerr + 'd) io" where
  "lookup lv identifier = lookupDomain identifier (byName lv) (byUUID lv)"

definition domainIdentity ::
  "('w, 'd, 'x) lv_core_scheme \<Rightarrow> 'd \<Rightarrow> ('w, 'd, goerr + string \<times> string) io" where
  "domainIdentity lv domain = do {
     r \<leftarrow> ask QGetName domain (GetName lv);
     case r of
       Inl err \<Rightarrow> State_Monad.return (Inl (Wrap [Lit ''get domain name: ''] (Lib err) []))
     | Inr name \<Rightarrow> do {
         r2 \<leftarrow> ask QGetUUID domain (GetUUIDString lv);
         case r2 of
           Inl err \<Rightarrow> State_Monad.return
             (Inl (Wrap [Lit ''get domain '', Quo name, Lit '' UUID: ''] (Lib err) []))
         | Inr uuid \<Rightarrow> State_Monad.return (Inr (name, uuid))
       }
   }"

subsection \<open>The prologue the operations share\<close>

text \<open>\<open>domain, err := l.lookup(identifier)\<close>, return on error, \<open>defer domain.Free()\<close>.\<close>

definition withDomain ::
  "('w, 'd, 'x) lv_core_scheme \<Rightarrow> string \<Rightarrow> ('d \<Rightarrow> ('w, 'd, goerr + 'a) io) \<Rightarrow>
     ('w, 'd, goerr + 'a) io" where
  "withDomain lv identifier body = do {
     r \<leftarrow> lookup lv identifier;
     case r of
       Inl err \<Rightarrow> State_Monad.return (Inl err)
     | Inr domain \<Rightarrow> deferring (freeDomain lv domain) (body domain)
   }"

text \<open>\<open>name, uuid, err := domainIdentity(domain)\<close>, return on error.\<close>

definition withIdentity ::
  "('w, 'd, 'x) lv_core_scheme \<Rightarrow> 'd \<Rightarrow> (string \<Rightarrow> string \<Rightarrow> ('w, 'd, goerr + 'a) io) \<Rightarrow>
     ('w, 'd, goerr + 'a) io" where
  "withIdentity lv domain body = do {
     r \<leftarrow> domainIdentity lv domain;
     case r of
       Inl err \<Rightarrow> State_Monad.return (Inl err)
     | Inr (name, uuid) \<Rightarrow> body name uuid
   }"

text \<open>\<open>unlock := l.lockDomainAction(uuid)\<close>, \<open>defer unlock()\<close>.\<close>

definition withActionLock :: "string \<Rightarrow> ('w, 'd, 'a) io \<Rightarrow> ('w, 'd, 'a) io" where
  "withActionLock uuid body = do {
     note_call (CLock uuid);
     deferring (note_call (CUnlock uuid)) body
   }"

subsection \<open>Canonical UUIDs, byte by byte\<close>

definition uuid_byte :: "nat \<Rightarrow> char \<Rightarrow> bool" where
  "uuid_byte i c \<longleftrightarrow>
     (if i \<in> {8, 13, 18, 23} then c = CHR ''-''
      else is_digit c \<or> 97 \<le> byte c \<and> byte c \<le> 102 \<or> 65 \<le> byte c \<and> byte c \<le> 70)"

lemma uuid_byte_ascii: "uuid_byte i c \<Longrightarrow> byte c < 128"
  by (auto simp: uuid_byte_def split: if_splits)

lemma byte_45: "byte c = 45 \<longleftrightarrow> c = CHR ''-''"
proof -
  have "byte c = byte (CHR ''-'') \<longleftrightarrow> c = CHR ''-''" by (rule of_char_eq_iff)
  then show ?thesis by simp
qed

lemma canonical_runes_bytes:
  "canonical_runes i (chunks v) \<longleftrightarrow> (\<forall>k < length v. uuid_byte (i + k) (v ! k))"
proof (induction v arbitrary: i)
  case (Cons c v)
  show ?case
  proof (cases "byte c < 128")
    case True
    have head: "canonical_runes i (chunks (c # v)) \<longleftrightarrow>
        uuid_byte i c \<and> canonical_runes (Suc i) (chunks v)"
      using True by (auto simp: uuid_byte_def byte_45)
    show ?thesis
      unfolding head Cons.IH by (auto simp: nth_Cons less_Suc_eq_0_disj split: nat.split)
  next
    case False
    have "128 \<le> fst (decode_rune (c # v))" using decode_rune_multibyte[OF False] .
    then have "\<not> canonical_runes i (chunks (c # v))"
      by (auto simp: chunks.simps(2) Let_def)
    moreover have "\<not> uuid_byte (i + 0) ((c # v) ! 0)" using False uuid_byte_ascii by auto
    ultimately show ?thesis by (metis length_greater_0_conv list.discI)
  qed
qed simp

subsection \<open>Lookup results\<close>

lemma run_call: "run_state (call c f) s =
   (fst (f (world s)), s\<lparr>world := snd (f (world s)), calls := calls s @ [c (fst (f (world s)))]\<rparr>)"
  by (simp add: call_def split: prod.split)

lemma lookupDomain_name_hit:
  "run_state (by_name identifier) s = (Inr d, s') \<Longrightarrow>
   run_state (lookupDomain identifier by_name by_uuid) s = (Inr d, s')"
  by (simp add: lookupDomain_def)

subsection \<open>The call discipline\<close>

text \<open>
  A monitor reads the calls of one request.  It keeps the handles that are held and the
  lock: handles are gained by the calls that give them, queries use a handle that is held,
  a change needs the action lock as well, the lock is taken and put back while a handle is
  held, and nothing is freed twice.
\<close>

datatype 'd monitor = Mon "'d multiset" "string option" | Bad

abbreviation NoHandle :: "'d monitor" where "NoHandle \<equiv> Mon {#} None"
abbreviation Held :: "'d \<Rightarrow> 'd monitor" where "Held d \<equiv> Mon {#d#} None"
abbreviation Locked :: "'d \<Rightarrow> string \<Rightarrow> 'd monitor" where "Locked d u \<equiv> Mon {#d#} (Some u)"

fun given :: "'d option \<Rightarrow> 'd list" where
  "given None = []"
| "given (Some d) = [d]"

fun monitor_call :: "'d monitor \<Rightarrow> 'd call \<Rightarrow> 'd monitor" where
  "monitor_call Bad c = Bad"
| "monitor_call (Mon hs l) (CByName _ r) = Mon (hs + mset (given r)) l"
| "monitor_call (Mon hs l) (CByUUID _ r) = Mon (hs + mset (given r)) l"
| "monitor_call (Mon hs l) (CHost _ ds) = Mon (hs + mset ds) l"
| "monitor_call (Mon hs l) (CQuery _ d ds) = (if d \<in># hs then Mon (hs + mset ds) l else Bad)"
| "monitor_call (Mon hs l) (CMutate _ d ds) =
     (if d \<in># hs \<and> l \<noteq> None then Mon (hs + mset ds) l else Bad)"
| "monitor_call (Mon hs l) (CLock u) = (if hs \<noteq> {#} \<and> l = None then Mon hs (Some u) else Bad)"
| "monitor_call (Mon hs l) (CUnlock u) = (if hs \<noteq> {#} \<and> l = Some u then Mon hs None else Bad)"
| "monitor_call (Mon hs l) (CFree d) =
     (if d \<in># hs \<and> (l \<noteq> None \<longrightarrow> hs \<noteq> {#d#}) then Mon (hs - {#d#}) l else Bad)"

definition monitor :: "'d call list \<Rightarrow> 'd monitor" where
  "monitor cs = foldl monitor_call NoHandle cs"

lemma monitor_Nil [simp]: "monitor [] = NoHandle"
  by (simp add: monitor_def)

lemma monitor_snoc [simp]: "monitor (cs @ [c]) = monitor_call (monitor cs) c"
  by (simp add: monitor_def)

text \<open>The monitor is in state \<open>m\<close>.\<close>

definition at :: "'d monitor \<Rightarrow> ('w, 'd) run \<Rightarrow> bool" where
  "at m s \<longleftrightarrow> monitor (calls s) = m"

lemma triple_byName [triples]:
  "triple (at NoHandle) (byName lv n)
     (\<lambda>r. at (case r of Inl _ \<Rightarrow> NoHandle | Inr d \<Rightarrow> Held d))"
  by (rule tripleI) (auto simp: byName_def run_call at_def split: sum.split)

lemma triple_byUUID [triples]:
  "triple (at NoHandle) (byUUID lv n)
     (\<lambda>r. at (case r of Inl _ \<Rightarrow> NoHandle | Inr d \<Rightarrow> Held d))"
  by (rule tripleI) (auto simp: byUUID_def run_call at_def split: sum.split)

lemma triple_ask_held [triples]: "triple (at (Held d)) (ask q d f) (\<lambda>_. at (Held d))"
  by (rule tripleI) (auto simp: ask_def run_call at_def)

lemma triple_ask_locked [triples]: "triple (at (Locked d u)) (ask q d f) (\<lambda>_. at (Locked d u))"
  by (rule tripleI) (auto simp: ask_def run_call at_def)

lemma triple_ask [triples]:
  "d \<in># hs \<Longrightarrow> triple (at (Mon hs l)) (ask q d f) (\<lambda>_. at (Mon hs l))"
  by (rule tripleI) (auto simp: ask_def run_call at_def)

lemma triple_mutate_any [triples]:
  "d \<in># hs \<Longrightarrow> triple (at (Mon hs (Some u))) (mutate m d f) (\<lambda>_. at (Mon hs (Some u)))"
  by (rule tripleI) (auto simp: mutate_def run_call at_def)

lemma triple_ask_host [triples]: "triple (at (Mon hs l)) (ask_host q f) (\<lambda>_. at (Mon hs l))"
  by (rule tripleI) (auto simp: ask_host_def run_call at_def)

lemma triple_mutate [triples]: "triple (at (Locked d u)) (mutate m d f) (\<lambda>_. at (Locked d u))"
  by (rule tripleI) (auto simp: mutate_def run_call at_def)

lemma triple_deferring:
  "triple P body (\<lambda>r s. Q s \<and> R r) \<Longrightarrow> triple Q final (\<lambda>_. S) \<Longrightarrow>
   triple P (deferring final body) (\<lambda>r s. S s \<and> R r)"
  unfolding deferring_def triple_def by (auto split: prod.split)

lemma triple_free: "triple (at (Held d)) (freeDomain lv d) (\<lambda>_. at NoHandle)"
  by (rule tripleI) (auto simp: freeDomain_def run_call at_def)

text \<open>
  What an operation of the adapter is checked for: started with no handle, it ends with no
  handle (so the lock is back and the handle freed) and every error it returns may be
  shown to a client.
\<close>

definition sound_result :: "goerr + 'a \<Rightarrow> bool" where
  "sound_result r \<longleftrightarrow> (case r of Inl e \<Rightarrow> presentable e | Inr _ \<Rightarrow> True)"

lemma sound_result_simps [simp]:
  "sound_result (Inl e) = presentable e" "sound_result (Inr x)"
  by (simp_all add: sound_result_def)

lemma triple_lookup [triples]:
  "triple (at NoHandle) (lookup lv n)
     (\<lambda>r s. at (case r of Inl _ \<Rightarrow> NoHandle | Inr d \<Rightarrow> Held d) s \<and> sound_result r)"
  unfolding lookup_def lookupDomain_def
  by (rule triple_bind[OF triple_byName] triple_bind[OF triple_byUUID] triple_rules | simp)+

lemma triple_domainIdentity:
  "d \<in># hs \<Longrightarrow> triple (at (Mon hs l)) (domainIdentity lv d) (\<lambda>r s. at (Mon hs l) s \<and> sound_result r)"
  unfolding domainIdentity_def
  by (rule triple_bind[OF triple_ask] triple_rules | simp)+

lemma triple_withDomain:
  assumes "\<And>d. triple (at (Held d)) (body d) (\<lambda>r s. at (Held d) s \<and> sound_result r)"
  shows "triple (at NoHandle) (withDomain lv n body) (\<lambda>r s. at NoHandle s \<and> sound_result r)"
  unfolding withDomain_def
proof (rule triple_bind[OF triple_lookup], rule triple_sum)
  fix r :: "goerr + 'a" and err assume "r = Inl err"
  then show "triple (\<lambda>s. at (case r of Inl _ \<Rightarrow> NoHandle | Inr d \<Rightarrow> Held d) s \<and> sound_result r)
    (State_Monad.return (Inl err)) (\<lambda>r s. at NoHandle s \<and> sound_result r)"
    by (intro triple_return) auto
next
  fix r :: "goerr + 'a" and d assume "r = Inr d"
  then show "triple (\<lambda>s. at (case r of Inl _ \<Rightarrow> NoHandle | Inr d \<Rightarrow> Held d) s \<and> sound_result r)
    (deferring (freeDomain lv d) (body d)) (\<lambda>r s. at NoHandle s \<and> sound_result r)"
    by (auto intro: triple_weaken[OF triple_deferring[OF assms triple_free]])
qed

lemma triple_withIdentity_any:
  assumes "d \<in># hs"
    and "\<And>name uuid. triple (at (Mon hs l)) (body name uuid) (\<lambda>r s. at (Mon hs l) s \<and> sound_result r)"
  shows "triple (at (Mon hs l)) (withIdentity lv d body) (\<lambda>r s. at (Mon hs l) s \<and> sound_result r)"
  unfolding withIdentity_def
  by (rule triple_bind[OF triple_domainIdentity[OF assms(1)]], rule triple_sum)
     (auto intro!: triple_return triple_prod triple_weaken[OF assms(2)])

lemma triple_withIdentity:
  assumes "\<And>name uuid. triple (at (Held d)) (body name uuid) (\<lambda>r s. at (Held d) s \<and> sound_result r)"
  shows "triple (at (Held d)) (withIdentity lv d body) (\<lambda>r s. at (Held d) s \<and> sound_result r)"
  by (rule triple_withIdentity_any[OF _ assms]) simp

lemma triple_withActionLock:
  assumes "triple (at (Locked d uuid)) body (\<lambda>r s. at (Locked d uuid) s \<and> sound_result r)"
  shows "triple (at (Held d)) (withActionLock uuid body) (\<lambda>r s. at (Held d) s \<and> sound_result r)"
proof -
  have lock: "triple (at (Held d)) (note_call (CLock uuid)) (\<lambda>_. at (Locked d uuid))"
    by (rule tripleI) (auto simp: note_call_def at_def)
  have unlock: "triple (at (Locked d uuid)) (note_call (CUnlock uuid)) (\<lambda>_. at (Held d))"
    by (rule tripleI) (auto simp: note_call_def at_def)
  show ?thesis
    unfolding withActionLock_def by (rule triple_bind[OF lock triple_deferring[OF assms unlock]])
qed

subsection \<open>The contract of lookup\<close>

text \<open>
  C34: An identifier is a canonical UUID exactly if it has 36 bytes, with hyphens at the
  offsets 8, 13, 18 and 23 and hexadecimal digits elsewhere; the loop over runes, which
  skips the inner bytes of multi-byte characters, accepts nothing else.
\<close>

theorem canonical_uuid_bytes:
  "isCanonicalUUID v \<longleftrightarrow> length v = 36 \<and> list_all (\<lambda>k. uuid_byte k (v ! k)) [0..<36]"
  by (auto simp: isCanonicalUUID_def canonical_runes_bytes list_all_iff)

text \<open>
  C33: A lookup is reported as a domain that does not exist exactly if libvirt knows no
  domain of that name and, for a canonical UUID, none with that UUID; any other failure of
  libvirt keeps its own error.
\<close>

theorem lookup_not_found:
  "(\<exists>e. fst (run_state (lookup lv n) s) = Inl e \<and> is_err e ErrNotFound) \<longleftrightarrow>
   (case LookupDomainByName lv n (world s) of
      (Inr _, _) \<Rightarrow> False
    | (Inl err, w) \<Rightarrow> lv_is err ERR_NO_DOMAIN \<and>
        (if isCanonicalUUID n then
           (case fst (LookupDomainByUUIDString lv n w) of
              Inr _ \<Rightarrow> False
            | Inl err \<Rightarrow> lv_is err ERR_NO_DOMAIN)
         else True))"
  by (auto simp: lookup_def lookupDomain_def byName_def byUUID_def run_call
      split: prod.splits sum.splits)

text \<open>
  A domain that libvirt finds by name is used even when the identifier has the form of
  a UUID, and no lookup by UUID is made then.
\<close>

theorem lookup_prefers_name:
  assumes "LookupDomainByName lv n (world s) = (Inr d, w)"
  shows "run_state (lookup lv n) s = (Inr d, s\<lparr>world := w, calls := calls s @ [CByName n (Some d)]\<rparr>)"
  by (simp add: lookup_def lookupDomain_def byName_def run_call assms)

definition sample_uuid :: string where
  "sample_uuid = ''01234567-89ab-cdef-0123-456789abcdef''"

definition sample_core :: "(unit, nat) lv_core" where
  "sample_core =
     \<lparr>LookupDomainByName = (\<lambda>n w. (if n = sample_uuid then Inr 7 else Inl (LvError ERR_NO_DOMAIN ''no domain''), w)),
      LookupDomainByUUIDString = (\<lambda>n w. (Inr 8, w)),
      GetName = (\<lambda>d w. (Inr ''vm'', w)), GetUUIDString = (\<lambda>d w. (Inr sample_uuid, w)), Free = (\<lambda>d w. ((), w))\<rparr>"

theorem lookup_prefers_name_witness:
  "isCanonicalUUID sample_uuid \<and>
   fst (run_state (lookup sample_core sample_uuid) \<lparr>world = (), calls = []\<rparr>) = Inr 7"
proof -
  have "isCanonicalUUID sample_uuid" by code_simp
  moreover have "LookupDomainByName sample_core sample_uuid () = (Inr 7, ())"
    by (simp add: sample_core_def)
  ultimately show ?thesis
    using lookup_prefers_name[of sample_core sample_uuid "\<lparr>world = (), calls = []\<rparr>" 7 "()"] by simp
qed

subsection \<open>Which changes an operation can make\<close>

text \<open>\<open>changing A m\<close>: the calls of \<open>m\<close> that change a domain are all among \<open>A\<close>.\<close>

fun within_call :: "mutation set \<Rightarrow> 'd call \<Rightarrow> bool" where
  "within_call A (CMutate m _ _) = (m \<in> A)"
| "within_call A _ = True"

definition within :: "mutation set \<Rightarrow> ('w, 'd) run \<Rightarrow> bool" where
  "within A s \<longleftrightarrow> list_all (within_call A) (calls s)"

definition changing :: "mutation set \<Rightarrow> ('w, 'd, 'a) io \<Rightarrow> bool" where
  "changing A m \<longleftrightarrow> triple (within A) m (\<lambda>_. within A)"

named_theorems changing_intros \<open>operations and the changes they can make\<close>

lemma changing_call: "(\<And>r. within_call A (c r)) \<Longrightarrow> changing A (call c f)"
  by (simp add: changing_def triple_def within_def run_call)

lemma changing_calls [changing_intros]:
  "changing A (ask q d f)" "changing A (ask_host hq g)"
  "changing A (byName lv n)" "changing A (byUUID lv n)" "changing A (freeDomain lv d)"
  by (simp_all add: ask_def ask_host_def byName_def byUUID_def freeDomain_def changing_call)

lemma changing_mutate [changing_intros]: "m \<in> A \<Longrightarrow> changing A (mutate m d f)"
  by (simp add: mutate_def changing_call)

lemma changing_note [changing_intros]:
  "changing A (note_call (CLock u))" "changing A (note_call (CUnlock u))"
  by (simp_all add: changing_def triple_def within_def note_call_def)

lemma changing_return [changing_intros]: "changing A (State_Monad.return x)"
  by (simp add: changing_def triple_def)

lemma changing_bind [changing_intros]:
  "changing A m \<Longrightarrow> (\<And>x. changing A (f x)) \<Longrightarrow> changing A (State_Monad.bind m f)"
  unfolding changing_def by (rule triple_bind)

lemma changing_cases [changing_intros]:
  "(\<And>e. changing A (f e)) \<Longrightarrow> (\<And>v. changing A (g v)) \<Longrightarrow>
   changing A (case x of Inl e \<Rightarrow> f e | Inr v \<Rightarrow> g v)"
  "(b \<Longrightarrow> changing A m) \<Longrightarrow> (\<not> b \<Longrightarrow> changing A n) \<Longrightarrow> changing A (if b then m else n)"
  "(\<And>a c. changing A (h a c)) \<Longrightarrow> changing A (case p of (a, c) \<Rightarrow> h a c)"
  "(z = None \<Longrightarrow> changing A m') \<Longrightarrow> (\<And>v. z = Some v \<Longrightarrow> changing A (k v)) \<Longrightarrow>
   changing A (case z of None \<Rightarrow> m' | Some v \<Rightarrow> k v)"
  by (simp_all split: sum.split prod.split option.split)

lemma changing_let [changing_intros]: "changing A (f v) \<Longrightarrow> changing A (let x = v in f x)"
  by simp

lemma changing_deferring [changing_intros]:
  "changing A final \<Longrightarrow> changing A body \<Longrightarrow> changing A (deferring final body)"
  unfolding deferring_def by (intro changing_intros)

lemma changing_lookup [changing_intros]: "changing A (lookup lv n)"
  unfolding lookup_def lookupDomain_def by (intro changing_intros)

lemma changing_withDomain [changing_intros]:
  "(\<And>d. changing A (body d)) \<Longrightarrow> changing A (withDomain lv n body)"
  unfolding withDomain_def by (intro changing_intros)

lemma changing_withIdentity [changing_intros]:
  "(\<And>a b. changing A (body a b)) \<Longrightarrow> changing A (withIdentity lv d body)"
  unfolding withIdentity_def domainIdentity_def by (intro changing_intros)

lemma changing_withActionLock [changing_intros]:
  "changing A body \<Longrightarrow> changing A (withActionLock u body)"
  unfolding withActionLock_def by (intro changing_intros)

lemma changingD:
  "changing A m \<Longrightarrow> list_all (within_call A) (calls (snd (run_state m \<lparr>world = w, calls = []\<rparr>)))"
  by (simp add: changing_def triple_def within_def)

end
