(* ===== verification/Libvirt_Power.thy ===== *)
theory Libvirt_Power
  imports Libvirt_Core
begin

text \<open>
  The power actions of \<open>internal/hypervisor/libvirt.go\<close>: start, graceful shutdown, reboot,
  pause, resume, reset and forced stop.  Each reads the domain under its action lock,
  decides, makes one changing call, and classifies the library's answer.

  The second half states what the actions promise as a machine over three domain states
  and proves that they implement it for a library that behaves as libvirt documents.
\<close>

record ('w, 'd) lv_power = "('w, 'd) lv_core" +
  domIsActive :: "'d \<Rightarrow> 'w \<Rightarrow> (lverr + bool) \<times> 'w"
  domGetState :: "'d \<Rightarrow> 'w \<Rightarrow> (lverr + int) \<times> 'w"
  domCreate :: "'d \<Rightarrow> 'w \<Rightarrow> (lverr + unit) \<times> 'w"
  domShutdownFlags :: "shutdown_flag \<Rightarrow> 'd \<Rightarrow> 'w \<Rightarrow> (lverr + unit) \<times> 'w"
  domReboot :: "reboot_flag \<Rightarrow> 'd \<Rightarrow> 'w \<Rightarrow> (lverr + unit) \<times> 'w"
  domSuspend :: "'d \<Rightarrow> 'w \<Rightarrow> (lverr + unit) \<times> 'w"
  domResume :: "'d \<Rightarrow> 'w \<Rightarrow> (lverr + unit) \<times> 'w"
  domReset :: "'d \<Rightarrow> 'w \<Rightarrow> (lverr + unit) \<times> 'w"
  domDestroy :: "'d \<Rightarrow> 'w \<Rightarrow> (lverr + unit) \<times> 'w"
  DOMAIN_PAUSED :: int

abbreviation failed :: "msgpart list \<Rightarrow> lverr \<Rightarrow> ('w, 'd, goerr + 'a) io" where
  "failed pre err \<equiv> State_Monad.return (Inl (Wrap pre (Lib err) []))"

abbreviation conflict :: "msgpart list \<Rightarrow> ('w, 'd, goerr + 'a) io" where
  "conflict post \<equiv> State_Monad.return (Inl (Wrap [] (Sentinel ErrConflict) post))"

abbreviation unsupported :: "msgpart list \<Rightarrow> ('w, 'd, goerr + 'a) io" where
  "unsupported post \<equiv> State_Monad.return (Inl (Wrap [] (Sentinel ErrUnsupported) post))"

subsection \<open>Operations\<close>

definition Start ::
  "('w, 'd, 'x) lv_power_scheme \<Rightarrow> string \<Rightarrow> ('w, 'd, goerr + ActionResult) io" where
  "Start lv identifier = withDomain lv identifier (\<lambda>domain.
     withIdentity lv domain (\<lambda>name uuid.
       withActionLock uuid (do {
         a \<leftarrow> ask QIsActive domain (domIsActive lv);
         case a of
           Inl err \<Rightarrow> failed [Lit ''get domain '', Quo name, Lit '' activity: ''] err
         | Inr active \<Rightarrow>
           if active then conflict [Lit '': domain '', Quo name, Lit '' is already running'']
           else do {
             e \<leftarrow> mutate MCreate domain (domCreate lv);
             case e of
               Inl err \<Rightarrow> do {
                 a2 \<leftarrow> ask QIsActive domain (domIsActive lv);
                 if a2 = Inr True then conflict [Lit '': domain '', Quo name, Lit '' is already running'']
                 else failed [Lit ''start domain '', Quo name, Lit '': ''] err
               }
             | Inr _ \<Rightarrow> State_Monad.return
                 (Inr \<lparr>act_Name = name, act_UUID = uuid, act_State = ''running'', act_Status = []\<rparr>)
           }
       })))"

definition requestGracefulShutdown ::
  "('w, 'd, 'x) lv_power_scheme \<Rightarrow> string \<Rightarrow> 'd \<Rightarrow> shutdown_flag \<Rightarrow> ('w, 'd, goerr + string) io" where
  "requestGracefulShutdown lv name domain flags = do {
     a \<leftarrow> ask QIsActive domain (domIsActive lv);
     case a of
       Inl err \<Rightarrow> failed [Lit ''get domain '', Quo name, Lit '' activity: ''] err
     | Inr active \<Rightarrow>
       if \<not> active then conflict [Lit '': domain '', Quo name, Lit '' is already stopped'']
       else do {
         st \<leftarrow> ask QGetState domain (domGetState lv);
         case st of
           Inl err \<Rightarrow> failed [Lit ''get domain '', Quo name, Lit '' state: ''] err
         | Inr state \<Rightarrow> do {
             e \<leftarrow> mutate (MShutdown flags) domain (domShutdownFlags lv flags);
             case e of
               Inl err \<Rightarrow> do {
                 a2 \<leftarrow> ask QIsActive domain (domIsActive lv);
                 if a2 = Inr False then
                   conflict [Lit '': domain '', Quo name, Lit '' is already stopped'']
                 else if lv_is err ERR_OPERATION_INVALID then
                   conflict [Lit '': graceful shutdown cannot be requested for domain '', Quo name,
                             Lit '' in its current state'']
                 else if lv_is err ERR_NO_SUPPORT \<or> lv_is err ERR_CONFIG_UNSUPPORTED \<or>
                         lv_is err ERR_ARGUMENT_UNSUPPORTED \<or> lv_is err ERR_OPERATION_UNSUPPORTED then
                   unsupported [Lit '': domain '', Quo name, Lit '' does not support graceful shutdown'']
                 else failed [Lit ''request graceful shutdown for domain '', Quo name, Lit '': ''] err
               }
             | Inr _ \<Rightarrow> do {
                 cur \<leftarrow> ask QGetState domain (domGetState lv);
                 State_Monad.return
                   (Inr (StateName (case cur of Inr current \<Rightarrow> current | Inl _ \<Rightarrow> state)))
               }
           }
       }
   }"

definition shutdownFlags :: "PowerMode \<Rightarrow> shutdown_flag" where
  "shutdownFlags mode =
     (if mode = PowerModeACPI then DOMAIN_SHUTDOWN_ACPI_POWER_BTN
      else if mode = PowerModeGuestAgent then DOMAIN_SHUTDOWN_GUEST_AGENT
      else DOMAIN_SHUTDOWN_DEFAULT)"

definition rebootFlags :: "PowerMode \<Rightarrow> reboot_flag" where
  "rebootFlags mode =
     (if mode = PowerModeACPI then DOMAIN_REBOOT_ACPI_POWER_BTN
      else if mode = PowerModeGuestAgent then DOMAIN_REBOOT_GUEST_AGENT
      else DOMAIN_REBOOT_DEFAULT)"

definition Shutdown ::
  "('w, 'd, 'x) lv_power_scheme \<Rightarrow> string \<Rightarrow> PowerMode \<Rightarrow> ('w, 'd, goerr + ActionResult) io" where
  "Shutdown lv identifier mode = withDomain lv identifier (\<lambda>domain.
     withIdentity lv domain (\<lambda>name uuid.
       withActionLock uuid (do {
         r \<leftarrow> requestGracefulShutdown lv name domain (shutdownFlags mode);
         case r of
           Inl err \<Rightarrow> State_Monad.return (Inl err)
         | Inr state \<Rightarrow> State_Monad.return
             (Inr \<lparr>act_Name = name, act_UUID = uuid, act_State = state,
                   act_Status = ''shutdown-requested''\<rparr>)
       })))"

definition Reboot ::
  "('w, 'd, 'x) lv_power_scheme \<Rightarrow> string \<Rightarrow> PowerMode \<Rightarrow> ('w, 'd, goerr + ActionResult) io" where
  "Reboot lv identifier mode = withDomain lv identifier (\<lambda>domain.
     withIdentity lv domain (\<lambda>name uuid.
       withActionLock uuid (do {
         a \<leftarrow> ask QIsActive domain (domIsActive lv);
         case a of
           Inl err \<Rightarrow> failed [Lit ''get domain '', Quo name, Lit '' activity: ''] err
         | Inr active \<Rightarrow>
           if \<not> active then conflict [Lit '': domain '', Quo name, Lit '' is stopped'']
           else do {
             st \<leftarrow> ask QGetState domain (domGetState lv);
             case st of
               Inl err \<Rightarrow> failed [Lit ''get domain '', Quo name, Lit '' state: ''] err
             | Inr state \<Rightarrow> do {
                 e \<leftarrow> mutate (MReboot (rebootFlags mode)) domain (domReboot lv (rebootFlags mode));
                 case e of
                   Inl err \<Rightarrow>
                     if lv_is err ERR_OPERATION_INVALID then
                       conflict [Lit '': domain '', Quo name, Lit '' cannot reboot in its current state'']
                     else if lv_is err ERR_NO_SUPPORT \<or> lv_is err ERR_OPERATION_UNSUPPORTED then
                       unsupported [Lit '': domain '', Quo name, Lit '' does not support requested reboot mode'']
                     else failed [Lit ''request reboot for domain '', Quo name, Lit '': ''] err
                 | Inr _ \<Rightarrow> State_Monad.return
                     (Inr \<lparr>act_Name = name, act_UUID = uuid, act_State = StateName state,
                           act_Status = ''reboot-requested''\<rparr>)
               }
           }
       })))"

definition simpleAction ::
  "('w, 'd, 'x) lv_power_scheme \<Rightarrow> string \<Rightarrow> string \<Rightarrow> string \<Rightarrow>
     ('d \<Rightarrow> int \<Rightarrow> ('w, 'd, goerr + unit) io) \<Rightarrow> ('w, 'd, goerr + ActionResult) io" where
  "simpleAction lv identifier resultState action operation = withDomain lv identifier (\<lambda>domain.
     withIdentity lv domain (\<lambda>name uuid.
       withActionLock uuid (do {
         a \<leftarrow> ask QIsActive domain (domIsActive lv);
         case a of
           Inl err \<Rightarrow> failed [Lit ''get domain '', Quo name, Lit '' activity: ''] err
         | Inr active \<Rightarrow>
           if \<not> active then conflict [Lit '': domain '', Quo name, Lit '' is stopped'']
           else do {
             st \<leftarrow> ask QGetState domain (domGetState lv);
             case st of
               Inl err \<Rightarrow> failed [Lit ''get domain '', Quo name, Lit '' state: ''] err
             | Inr state \<Rightarrow> do {
                 e \<leftarrow> operation domain state;
                 case e of
                   Inl err \<Rightarrow> State_Monad.return (Inl
                     (if is_err err ErrConflict then
                        Wrap [] err [Lit '': cannot '', Lit action, Lit '' domain '', Quo name]
                      else if is_lv err ERR_OPERATION_INVALID then
                        Wrap [] (Sentinel ErrConflict)
                          [Lit '': cannot '', Lit action, Lit '' domain '', Quo name, Lit '' in its current state'']
                      else if is_lv err ERR_NO_SUPPORT \<or> is_lv err ERR_OPERATION_UNSUPPORTED then
                        Wrap [] (Sentinel ErrUnsupported)
                          [Lit '': domain '', Quo name, Lit '' does not support '', Lit action]
                      else Wrap [Lit action, Lit '' domain '', Quo name, Lit '': ''] err []))
                 | Inr _ \<Rightarrow> State_Monad.return
                     (Inr \<lparr>act_Name = name, act_UUID = uuid, act_State = resultState, act_Status = []\<rparr>)
               }
           }
       })))"

text \<open>A changing call whose error the closure returns as it is.\<close>

definition mutate_err ::
  "mutation \<Rightarrow> 'd \<Rightarrow> ('d \<Rightarrow> 'w \<Rightarrow> (lverr + unit) \<times> 'w) \<Rightarrow> ('w, 'd, goerr + unit) io" where
  "mutate_err m d f = do {
     e \<leftarrow> mutate m d f;
     State_Monad.return (case e of Inl err \<Rightarrow> Inl (Lib err) | Inr u \<Rightarrow> Inr u)
   }"

definition Pause ::
  "('w, 'd, 'x) lv_power_scheme \<Rightarrow> string \<Rightarrow> ('w, 'd, goerr + ActionResult) io" where
  "Pause lv identifier = simpleAction lv identifier ''paused'' ''pause'' (\<lambda>domain state.
     if state = DOMAIN_PAUSED lv then conflict [Lit '': domain is already paused'']
     else mutate_err MSuspend domain (domSuspend lv))"

definition Resume ::
  "('w, 'd, 'x) lv_power_scheme \<Rightarrow> string \<Rightarrow> ('w, 'd, goerr + ActionResult) io" where
  "Resume lv identifier = simpleAction lv identifier ''running'' ''resume'' (\<lambda>domain state.
     if state \<noteq> DOMAIN_PAUSED lv then conflict [Lit '': domain is not paused'']
     else mutate_err MResume domain (domResume lv))"

definition Reset ::
  "('w, 'd, 'x) lv_power_scheme \<Rightarrow> string \<Rightarrow> ('w, 'd, goerr + ActionResult) io" where
  "Reset lv identifier = simpleAction lv identifier ''running'' ''reset'' (\<lambda>domain _.
     mutate_err MReset domain (domReset lv))"

definition Stop ::
  "('w, 'd, 'x) lv_power_scheme \<Rightarrow> string \<Rightarrow> ('w, 'd, goerr + ActionResult) io" where
  "Stop lv identifier = withDomain lv identifier (\<lambda>domain.
     withIdentity lv domain (\<lambda>name uuid.
       withActionLock uuid (do {
         a \<leftarrow> ask QIsActive domain (domIsActive lv);
         case a of
           Inl err \<Rightarrow> failed [Lit ''get domain '', Quo name, Lit '' activity: ''] err
         | Inr active \<Rightarrow>
           if \<not> active then conflict [Lit '': domain '', Quo name, Lit '' is already stopped'']
           else do {
             e \<leftarrow> mutate MDestroy domain (domDestroy lv);
             case e of
               Inl err \<Rightarrow> do {
                 a2 \<leftarrow> ask QIsActive domain (domIsActive lv);
                 if a2 = Inr False then conflict [Lit '': domain '', Quo name, Lit '' is already stopped'']
                 else failed [Lit ''stop domain '', Quo name, Lit '': ''] err
               }
             | Inr _ \<Rightarrow> State_Monad.return
                 (Inr \<lparr>act_Name = name, act_UUID = uuid, act_State = ''shutoff'', act_Status = []\<rparr>)
           }
       })))"

subsection \<open>The call discipline of the power actions\<close>

lemmas locked_steps = triple_bind[OF triple_ask_locked] triple_bind[OF triple_mutate] triple_rules

lemmas prologue = triple_withDomain triple_withIdentity triple_withActionLock

lemma Start_sound: "triple (at NoHandle) (Start lv n) (\<lambda>r s. at NoHandle s \<and> sound_result r)"
  unfolding Start_def by (rule prologue)+ (rule locked_steps | simp)+

lemma Stop_sound: "triple (at NoHandle) (Stop lv n) (\<lambda>r s. at NoHandle s \<and> sound_result r)"
  unfolding Stop_def by (rule prologue)+ (rule locked_steps | simp)+

lemma Reboot_sound: "triple (at NoHandle) (Reboot lv n m) (\<lambda>r s. at NoHandle s \<and> sound_result r)"
  unfolding Reboot_def by (rule prologue)+ (rule locked_steps | simp)+

lemma requestGracefulShutdown_sound:
  "triple (at (Locked d u)) (requestGracefulShutdown lv name d flags)
     (\<lambda>r s. at (Locked d u) s \<and> sound_result r)"
  unfolding requestGracefulShutdown_def by (rule locked_steps | simp)+

lemma Shutdown_sound: "triple (at NoHandle) (Shutdown lv n m) (\<lambda>r s. at NoHandle s \<and> sound_result r)"
  unfolding Shutdown_def
  by (rule prologue)+ (rule triple_bind[OF requestGracefulShutdown_sound] triple_rules | simp)+

lemma simpleAction_sound:
  assumes "\<And>d u st. triple (at (Locked d u)) (operation d st)
    (\<lambda>r s. at (Locked d u) s \<and> (\<forall>e. r = Inl e \<longrightarrow> presentable e \<and> \<not> is_err e ErrUnsupported \<and>
       (is_err e ErrConflict \<or> (\<exists>le. e = Lib le))))"
  shows "triple (at NoHandle) (simpleAction lv n res act operation)
    (\<lambda>r s. at NoHandle s \<and> sound_result r)"
  unfolding simpleAction_def
  by (rule prologue)+
     (rule triple_bind[OF triple_ask_locked] triple_bind[OF assms] triple_rules
      | auto simp: presentable_def dest: is_err_unique)+

lemma mutate_err_sound:
  "triple (at (Locked d u)) (mutate_err m d f)
    (\<lambda>r s. at (Locked d u) s \<and> (\<forall>e. r = Inl e \<longrightarrow> presentable e \<and> \<not> is_err e ErrUnsupported \<and>
       (is_err e ErrConflict \<or> (\<exists>le. e = Lib le))))"
  unfolding mutate_err_def by (rule locked_steps | auto split: sum.splits)+

lemma Pause_sound: "triple (at NoHandle) (Pause lv n) (\<lambda>r s. at NoHandle s \<and> sound_result r)"
  unfolding Pause_def
  by (rule simpleAction_sound) (rule mutate_err_sound triple_rules | auto)+

lemma Resume_sound: "triple (at NoHandle) (Resume lv n) (\<lambda>r s. at NoHandle s \<and> sound_result r)"
  unfolding Resume_def
  by (rule simpleAction_sound) (rule mutate_err_sound triple_rules | auto)+

lemma Reset_sound: "triple (at NoHandle) (Reset lv n) (\<lambda>r s. at NoHandle s \<and> sound_result r)"
  unfolding Reset_def by (rule simpleAction_sound) (rule mutate_err_sound)

subsection \<open>The changes a power action can make\<close>

lemma changing_Start: "MCreate \<in> A \<Longrightarrow> changing A (Start lv n)"
  unfolding Start_def by (intro changing_intros) simp_all

lemma changing_Stop: "MDestroy \<in> A \<Longrightarrow> changing A (Stop lv n)"
  unfolding Stop_def by (intro changing_intros) simp_all

lemma changing_Shutdown: "range MShutdown \<subseteq> A \<Longrightarrow> changing A (Shutdown lv n mode)"
  unfolding Shutdown_def requestGracefulShutdown_def by (intro changing_intros) auto

lemma changing_Reboot: "range MReboot \<subseteq> A \<Longrightarrow> changing A (Reboot lv n mode)"
  unfolding Reboot_def by (intro changing_intros) auto

lemma changing_simpleAction [changing_intros]:
  "(\<And>d st. changing A (body d st)) \<Longrightarrow> changing A (simpleAction lv n target a body)"
  unfolding simpleAction_def by (intro changing_intros)

lemma changing_Pause: "MSuspend \<in> A \<Longrightarrow> changing A (Pause lv n)"
  unfolding Pause_def mutate_err_def by (intro changing_intros) simp_all

lemma changing_Resume: "MResume \<in> A \<Longrightarrow> changing A (Resume lv n)"
  unfolding Resume_def mutate_err_def by (intro changing_intros) simp_all

lemma changing_Reset: "MReset \<in> A \<Longrightarrow> changing A (Reset lv n)"
  unfolding Reset_def mutate_err_def by (intro changing_intros) simp_all

end
