(* ===== verification/Power_Refinement.thy ===== *)
theory Power_Refinement
  imports Libvirt_Power
begin

text \<open>
  What the power actions promise, as an abstract machine: a virtual machine is shut off,
  running or paused, and an action either moves it, or is refused as a conflict and leaves
  it.  The adapter implements the machine over any binding that behaves as libvirt
  documents it; the binding is a parameter and its documented behaviour is the predicate
  \<open>documented\<close>, over a view of the binding's world as the states of its domains.
\<close>

subsection \<open>One name for the seven actions\<close>

datatype power_op =
    OpStart | OpStop | OpShutdown PowerMode | OpReboot PowerMode | OpPause | OpResume | OpReset

fun power_action ::
  "('w, 'd, 'x) lv_power_scheme \<Rightarrow> power_op \<Rightarrow> string \<Rightarrow> ('w, 'd, goerr + ActionResult) io" where
  "power_action lv OpStart n = Start lv n"
| "power_action lv OpStop n = Stop lv n"
| "power_action lv (OpShutdown mode) n = Shutdown lv n mode"
| "power_action lv (OpReboot mode) n = Reboot lv n mode"
| "power_action lv OpPause n = Pause lv n"
| "power_action lv OpResume n = Resume lv n"
| "power_action lv OpReset n = Reset lv n"

lemma power_sound: "triple (at NoHandle) (power_action lv op n) (\<lambda>r s. at NoHandle s \<and> sound_result r)"
  by (cases op) (simp_all add: Start_sound Stop_sound Shutdown_sound Reboot_sound Pause_sound
      Resume_sound Reset_sound)

subsection \<open>The abstract machine\<close>

datatype machine = Shutoff | Running | Paused

fun vm_code :: "machine \<Rightarrow> int" where
  "vm_code Running = 1"
| "vm_code Paused = 3"
| "vm_code Shutoff = 5"

text \<open>
  The reply is the state and status of the response, or nothing for a refusal.  A guest may
  act on a shutdown request before the adapter reads the state again, or not.
\<close>

fun vm_allows :: "power_op \<Rightarrow> machine \<Rightarrow> (string \<times> string) option \<Rightarrow> machine \<Rightarrow> bool" where
  "vm_allows OpStart v r v' =
     (if v = Shutoff then r = Some (''running'', []) \<and> v' = Running else r = None \<and> v' = v)"
| "vm_allows OpStop v r v' =
     (if v \<noteq> Shutoff then r = Some (''shutoff'', []) \<and> v' = Shutoff else r = None \<and> v' = v)"
| "vm_allows (OpShutdown _) v r v' =
     (if v \<noteq> Shutoff then r = Some (StateName (vm_code v'), ''shutdown-requested'') \<and> v' \<in> {v, Shutoff}
      else r = None \<and> v' = v)"
| "vm_allows (OpReboot _) v r v' =
     (if v \<noteq> Shutoff then r = Some (StateName (vm_code v), ''reboot-requested'') \<and> v' \<noteq> Shutoff
      else r = None \<and> v' = v)"
| "vm_allows OpPause v r v' =
     (if v = Running then r = Some (''paused'', []) \<and> v' = Paused else r = None \<and> v' = v)"
| "vm_allows OpResume v r v' =
     (if v = Paused then r = Some (''running'', []) \<and> v' = Running else r = None \<and> v' = v)"
| "vm_allows OpReset v r v' =
     (if v \<noteq> Shutoff then r = Some (''running'', []) \<and> v' \<noteq> Shutoff else r = None \<and> v' = v)"

text \<open>The reply an action's result stands for; other errors stand for none.\<close>

definition reply_of :: "goerr + ActionResult \<Rightarrow> (string \<times> string) option option" where
  "reply_of r =
     (case r of
        Inr a \<Rightarrow> Some (Some (act_State a, act_Status a))
      | Inl e \<Rightarrow> if is_err e ErrConflict then Some None else None)"

lemma reply_of_simps [simp]:
  "reply_of (Inr a) = Some (Some (act_State a, act_Status a))"
  "is_err e ErrConflict \<Longrightarrow> reply_of (Inl e) = Some None"
  by (simp_all add: reply_of_def)

subsection \<open>The documented behaviour of the binding\<close>

definition reads :: "('w \<Rightarrow> 'd \<Rightarrow> machine) \<Rightarrow> ('w \<Rightarrow> 'r \<times> 'w) \<Rightarrow> bool" where
  "reads view f \<longleftrightarrow> (\<forall>w. view (snd (f w)) = view w)"

text \<open>A call on domain \<open>d\<close> that succeeds from the states \<open>S\<close> and moves it as \<open>N\<close> allows.\<close>

definition moves ::
  "('w \<Rightarrow> 'd \<Rightarrow> machine) \<Rightarrow> ('d \<Rightarrow> 'w \<Rightarrow> (lverr + unit) \<times> 'w) \<Rightarrow> machine set \<Rightarrow> (machine \<Rightarrow> machine set) \<Rightarrow> bool" where
  "moves view f S N \<longleftrightarrow>
     (\<forall>d w. view w d \<in> S \<longrightarrow> fst (f d w) = Inr () \<and>
        (\<exists>v \<in> N (view w d). view (snd (f d w)) = (view w)(d := v)))"

definition documented :: "('w, 'd, 'x) lv_power_scheme \<Rightarrow> ('w \<Rightarrow> 'd \<Rightarrow> machine) \<Rightarrow> bool" where
  "documented lv view \<longleftrightarrow>
     (\<forall>n. reads view (LookupDomainByName lv n)) \<and>
     (\<forall>n. reads view (LookupDomainByUUIDString lv n)) \<and>
     (\<forall>d. reads view (GetName lv d) \<and> (\<forall>w. \<exists>n. fst (GetName lv d w) = Inr n)) \<and>
     (\<forall>d. reads view (GetUUIDString lv d) \<and> (\<forall>w. \<exists>u. fst (GetUUIDString lv d w) = Inr u)) \<and>
     (\<forall>d. reads view (Free lv d)) \<and>
     (\<forall>d. reads view (domIsActive lv d) \<and> (\<forall>w. fst (domIsActive lv d w) = Inr (view w d \<noteq> Shutoff))) \<and>
     (\<forall>d. reads view (domGetState lv d) \<and> (\<forall>w. fst (domGetState lv d w) = Inr (vm_code (view w d)))) \<and>
     DOMAIN_PAUSED lv = 3 \<and>
     moves view (domCreate lv) {Shutoff} (\<lambda>_. {Running}) \<and>
     moves view (domDestroy lv) {Running, Paused} (\<lambda>_. {Shutoff}) \<and>
     moves view (domSuspend lv) {Running} (\<lambda>_. {Paused}) \<and>
     moves view (domResume lv) {Paused} (\<lambda>_. {Running}) \<and>
     (\<forall>flags. moves view (domShutdownFlags lv flags) {Running, Paused} (\<lambda>v. {v, Shutoff})) \<and>
     (\<forall>flags. moves view (domReboot lv flags) {Running, Paused} (\<lambda>_. {Running, Paused})) \<and>
     moves view (domReset lv) {Running, Paused} (\<lambda>_. {Running, Paused})"

subsection \<open>Stepping through an action under the view\<close>

definition sees :: "('w \<Rightarrow> 'd \<Rightarrow> machine) \<Rightarrow> ('d \<Rightarrow> machine) \<Rightarrow> ('w, 'd) run \<Rightarrow> bool" where
  "sees view V s \<longleftrightarrow> view (world s) = V"

lemma triple_pure: "(C \<Longrightarrow> triple P m Q) \<Longrightarrow> triple (\<lambda>s. C \<and> P s) m Q"
  by (auto simp: triple_def)

lemma triple_ex: "(\<And>v. triple (P v) m Q) \<Longrightarrow> triple (\<lambda>s. \<exists>v. P v s) m Q"
  by (auto simp: triple_def)

lemma sees_reads:
  "reads view f \<Longrightarrow> triple (sees view V) (call c f) (\<lambda>_. sees view V)"
  by (rule tripleI) (simp add: run_call sees_def reads_def)

lemma sees_ask:
  "(\<And>d. reads view (f d)) \<Longrightarrow> (\<And>w. fst (f d w) = g (view w)) \<Longrightarrow>
   triple (sees view V) (ask q d f) (\<lambda>r s. r = g V \<and> sees view V s)"
  by (rule tripleI) (auto simp: ask_def run_call sees_def reads_def)

lemma sees_mutate:
  assumes "moves view f S N" and "V d \<in> S"
  shows "triple (sees view V) (mutate m d f)
    (\<lambda>r s. \<exists>v. (r = Inr () \<and> v \<in> N (V d)) \<and> sees view (V(d := v)) s)"
proof (rule tripleI)
  fix s assume s: "sees view V s"
  with assms obtain v where "fst (f d (world s)) = Inr ()" "v \<in> N (V d)"
    "view (snd (f d (world s))) = V(d := v)"
    unfolding moves_def sees_def by metis
  then show "\<exists>v. (fst (run_state (mutate m d f) s) = Inr () \<and> v \<in> N (V d)) \<and>
      sees view (V(d := v)) (snd (run_state (mutate m d f) s))"
    by (intro exI[of _ v]) (simp add: mutate_def run_call sees_def)
qed

lemma sees_note: "triple (sees view V) (note_call c) (\<lambda>_. sees view V)"
  by (rule tripleI) (simp add: note_call_def sees_def)

text \<open>The postcondition of an action on a domain in state \<open>V d\<close>.\<close>

definition done_as ::
  "power_op \<Rightarrow> ('w \<Rightarrow> 'd \<Rightarrow> machine) \<Rightarrow> ('d \<Rightarrow> machine) \<Rightarrow> 'd \<Rightarrow> goerr + ActionResult \<Rightarrow> ('w, 'd) run \<Rightarrow> bool" where
  "done_as op view V d r s \<longleftrightarrow>
     (\<exists>x v. (reply_of r = Some x \<and> vm_allows op (V d) x v) \<and> sees view (V(d := v)) s)"

lemma done_as_return:
  assumes "reply_of r = Some x" and "vm_allows op (V d) x v"
  shows "triple (sees view (V(d := v))) (State_Monad.return r) (done_as op view V d)"
  by (rule triple_return) (use assms in \<open>auto simp: done_as_def\<close>)

lemma done_as_refused:
  assumes "is_err e ErrConflict" and "vm_allows op (V d) None (V d)"
  shows "triple (sees view V) (State_Monad.return (Inl e)) (done_as op view V d)"
  using done_as_return[of "Inl e" None op V d "V d" view] assms by simp

lemma sees_deferring:
  assumes "triple (sees view V) body (done_as op view V d)"
    and "\<And>V. triple (sees view V) final (\<lambda>_. sees view V)"
  shows "triple (sees view V) (deferring final body) (done_as op view V d)"
  using assms unfolding deferring_def triple_def done_as_def by (fastforce split: prod.split)


subsection \<open>The shared prologue\<close>

lemma documented_call:
  assumes "documented lv view"
  shows "triple (sees view V) (ask QIsActive d (domIsActive lv))
           (\<lambda>r s. r = Inr (V d \<noteq> Shutoff) \<and> sees view V s)"
    and "triple (sees view V) (ask QGetState d (domGetState lv))
           (\<lambda>r s. r = Inr (vm_code (V d)) \<and> sees view V s)"
    and "triple (sees view V) (freeDomain lv d) (\<lambda>_. sees view V)"
    and "triple (sees view V) (byName lv n) (\<lambda>_. sees view V)"
    and "triple (sees view V) (byUUID lv n) (\<lambda>_. sees view V)"
    and "triple (sees view V) (ask QGetName d (GetName lv)) (\<lambda>r s. (\<exists>n. r = Inr n) \<and> sees view V s)"
    and "triple (sees view V) (ask QGetUUID d (GetUUIDString lv)) (\<lambda>r s. (\<exists>n. r = Inr n) \<and> sees view V s)"
    and "DOMAIN_PAUSED lv = 3"
  using assms
  by (simp_all add: documented_def reads_def triple_def sees_def ask_def freeDomain_def byName_def
      byUUID_def run_call del: Product_Type.split_paired_Ex)

lemma sees_lookup:
  assumes "documented lv view"
  shows "triple (sees view V) (lookup lv n) (\<lambda>_. sees view V)"
  unfolding lookup_def lookupDomain_def
  by (rule triple_bind[OF documented_call(4)[OF assms]] triple_bind[OF documented_call(5)[OF assms]]
        triple_rules | simp)+

lemma refine_withDomain:
  assumes doc: "documented lv view" and found: "run_state (lookup lv n) s = (Inr d, s1)"
    and body: "\<And>V. triple (sees view V) (body d) (done_as op view V d)"
    and run: "run_state (withDomain lv n body) s = (r, s')"
  shows "done_as op view (view (world s)) d r s'"
proof -
  have "sees view (view (world s)) s1"
    using tripleD[OF sees_lookup[OF doc] _ found, of "view (world s)"] by (simp add: sees_def)
  moreover have "run_state (deferring (freeDomain lv d) (body d)) s1 = (r, s')"
    using run by (simp add: withDomain_def found)
  ultimately show ?thesis
    using tripleD[OF sees_deferring[OF body documented_call(3)[OF doc]]] by blast
qed

lemma refine_prologue:
  assumes doc: "documented lv view"
    and body: "\<And>name uuid. triple (sees view V) (body name uuid) (done_as op view V d)"
  shows "triple (sees view V) (withIdentity lv d (\<lambda>name uuid. withActionLock uuid (body name uuid)))
    (done_as op view V d)"
proof -
  have lock: "triple (sees view V) (withActionLock uuid (body name uuid)) (done_as op view V d)"
    for name uuid
    unfolding withActionLock_def
    by (rule triple_bind[OF sees_note]) (rule sees_deferring[OF body sees_note])
  have "triple (sees view V) (domainIdentity lv d)
      (\<lambda>r s. (\<exists>n u. r = Inr (n, u)) \<and> sees view V s)"
    unfolding domainIdentity_def
    by (rule triple_bind[OF documented_call(6)[OF doc]] triple_bind[OF documented_call(7)[OF doc]]
          triple_pure triple_rules | clarsimp)+
  then show ?thesis
    unfolding withIdentity_def
    by (rule triple_bind) (rule triple_pure, clarsimp, rule lock)
qed

subsection \<open>Each action refines the machine\<close>

lemmas doc_active = documented_call(1)[THEN triple_bind]
lemmas doc_state = documented_call(2)[THEN triple_bind]

lemma documented_moves:
  assumes "documented lv view"
  shows "moves view (domCreate lv) {Shutoff} (\<lambda>_. {Running})"
    "moves view (domDestroy lv) {Running, Paused} (\<lambda>_. {Shutoff})"
    "moves view (domSuspend lv) {Running} (\<lambda>_. {Paused})"
    "moves view (domResume lv) {Paused} (\<lambda>_. {Running})"
    "moves view (domShutdownFlags lv flags) {Running, Paused} (\<lambda>v. {v, Shutoff})"
    "moves view (domReboot lv rflags) {Running, Paused} (\<lambda>_. {Running, Paused})"
    "moves view (domReset lv) {Running, Paused} (\<lambda>_. {Running, Paused})"
  using assms by (simp_all add: documented_def)

lemma vm_active: "v \<noteq> Shutoff \<longleftrightarrow> v = Running \<or> v = Paused"
  by (cases v) auto

text \<open>A call that succeeds by its documentation, followed by the rest of the action.\<close>

lemma sees_move:
  assumes "moves view f S N" and "V d \<in> S"
    and "\<And>v. v \<in> N (V d) \<Longrightarrow> triple (sees view (V(d := v))) (g (Inr ())) Q"
  shows "triple (sees view V) (State_Monad.bind (mutate m d f) g) Q"
  by (rule triple_bind[OF sees_mutate[where V = V and d = d, OF assms(1,2)]], rule triple_ex, rule triple_pure)
     (use assms(3) in auto)

lemma refine_Start:
  assumes doc: "documented lv view" and found: "run_state (lookup lv n) s = (Inr d, s1)"
    and run: "run_state (Start lv n) s = (r, s')"
  shows "done_as OpStart view (view (world s)) d r s'"
  apply (rule refine_withDomain[OF doc found _ run[unfolded Start_def]])
  apply (rule refine_prologue[OF doc], rule doc_active[OF doc], rule triple_pure, simp)
  apply (rule conjI impI)+
   apply (rule done_as_refused; simp)
  apply (rule impI, rule sees_move[OF documented_moves(1)[OF doc]], simp, simp)
  apply (rule done_as_return; simp)
  done

lemma refine_Stop:
  assumes doc: "documented lv view" and found: "run_state (lookup lv n) s = (Inr d, s1)"
    and run: "run_state (Stop lv n) s = (r, s')"
  shows "done_as OpStop view (view (world s)) d r s'"
  apply (rule refine_withDomain[OF doc found _ run[unfolded Stop_def]])
  apply (rule refine_prologue[OF doc], rule doc_active[OF doc], rule triple_pure, simp)
  apply (rule conjI impI)+
   apply (rule done_as_refused; simp)
  apply (rule impI, rule sees_move[OF documented_moves(2)[OF doc]], simp add: vm_active, simp)
  apply (rule done_as_return; simp)
  done

lemma refine_Reboot:
  assumes doc: "documented lv view" and found: "run_state (lookup lv n) s = (Inr d, s1)"
    and run: "run_state (Reboot lv n mode) s = (r, s')"
  shows "done_as (OpReboot mode) view (view (world s)) d r s'"
  apply (rule refine_withDomain[OF doc found _ run[unfolded Reboot_def]])
  apply (rule refine_prologue[OF doc], rule doc_active[OF doc], rule triple_pure, simp)
  apply (rule conjI impI)+
   apply (rule done_as_refused; simp)
  apply (rule impI, rule doc_state[OF doc], rule triple_pure, simp)
  apply (rule sees_move[OF documented_moves(6)[OF doc]], simp add: vm_active, simp)
  apply (rule done_as_return; auto)
  done

lemma refine_Shutdown:
  assumes doc: "documented lv view" and found: "run_state (lookup lv n) s = (Inr d, s1)"
    and run: "run_state (Shutdown lv n mode) s = (r, s')"
  shows "done_as (OpShutdown mode) view (view (world s)) d r s'"
proof (rule refine_withDomain[OF doc found _ run[unfolded Shutdown_def]], rule refine_prologue[OF doc])
  fix V name uuid
  let ?reply = "\<lambda>r s. \<exists>v. (if V d = Shutoff then v = V d \<and> (\<exists>e. r = Inl e \<and> is_err e ErrConflict)
      else v \<in> {V d, Shutoff} \<and> r = Inr (StateName (vm_code v))) \<and> sees view (V(d := v)) s"
  have "triple (sees view V) (requestGracefulShutdown lv name d flags) ?reply" for flags
    unfolding requestGracefulShutdown_def
    apply (rule doc_active[OF doc], rule triple_pure, simp)
    apply (rule conjI impI)+
     apply (rule triple_return, simp, metis fun_upd_triv)
    apply (rule impI, rule doc_state[OF doc], rule triple_pure, simp)
    apply (rule sees_move[OF documented_moves(5)[OF doc]], simp add: vm_active, simp)
    apply (rule doc_state[OF doc], rule triple_pure, simp)
    apply (rule triple_return, blast)
    done
  then show "triple (sees view V)
     (do {
        r \<leftarrow> requestGracefulShutdown lv name d (shutdownFlags mode);
        case r of
          Inl err \<Rightarrow> State_Monad.return (Inl err)
        | Inr state \<Rightarrow> State_Monad.return
            (Inr \<lparr>act_Name = name, act_UUID = uuid, act_State = state,
                  act_Status = ''shutdown-requested''\<rparr>)
      }) (done_as (OpShutdown mode) view V d)"
    by (rule triple_bind) (rule triple_ex, rule triple_pure, auto split: if_splits intro!: done_as_return)
qed


lemma refine_simpleAction:
  assumes doc: "documented lv view" and found: "run_state (lookup lv n) s = (Inr d, s1)"
    and run: "run_state (simpleAction lv n res act operation) s = (r, s')"
    and off: "vm_allows op Shutoff None Shutoff"
    and opn: "\<And>V. V d \<noteq> Shutoff \<Longrightarrow> triple (sees view V) (operation d (vm_code (V d)))
      (\<lambda>r s. \<exists>v. (case r of
           Inr _ \<Rightarrow> vm_allows op (V d) (Some (res, [])) v
         | Inl e \<Rightarrow> v = V d \<and> is_err e ErrConflict \<and> vm_allows op (V d) None v) \<and>
         sees view (V(d := v)) s)"
  shows "done_as op view (view (world s)) d r s'"
  apply (rule refine_withDomain[OF doc found _ run[unfolded simpleAction_def]])
  apply (rule refine_prologue[OF doc], rule doc_active[OF doc], rule triple_pure, simp)
  apply (rule conjI impI)+
   apply (rule done_as_refused; simp add: off)
  apply (rule impI, rule doc_state[OF doc], rule triple_pure, simp)
  apply (rule triple_bind[OF opn], assumption, rule triple_ex, rule triple_pure)
  apply (auto intro!: done_as_return done_as_refused split: sum.splits)
  done

lemma sees_mutate_err:
  assumes "moves view f S N" and "V d \<in> S" and "\<And>v. v \<in> N (V d) \<Longrightarrow> vm_allows op (V d) (Some (res, [])) v"
  shows "triple (sees view V) (mutate_err m d f)
    (\<lambda>r s. \<exists>v. (case r of
         Inr _ \<Rightarrow> vm_allows op (V d) (Some (res, [])) v
       | Inl e \<Rightarrow> v = V d \<and> is_err e ErrConflict \<and> vm_allows op (V d) None v) \<and>
       sees view (V(d := v)) s)"
  unfolding mutate_err_def
  by (rule sees_move[where V = V and d = d, OF assms(1,2)])
     (rule triple_return, use assms(3) in auto)

lemma sees_refused:
  assumes "is_err e ErrConflict" and "vm_allows op (V d) None (V d)"
  shows "triple (sees view V) (State_Monad.return (Inl e))
    (\<lambda>r s. \<exists>v. (case r of
         Inr _ \<Rightarrow> vm_allows op (V d) (Some (res, [])) v
       | Inl e \<Rightarrow> v = V d \<and> is_err e ErrConflict \<and> vm_allows op (V d) None v) \<and>
       sees view (V(d := v)) s)"
  by (rule triple_return) (use assms in auto)

lemma vm_code_3: "vm_code v = 3 \<longleftrightarrow> v = Paused"
  by (cases v) auto

lemma refine_Pause:
  assumes doc: "documented lv view" and found: "run_state (lookup lv n) s = (Inr d, s1)"
    and run: "run_state (Pause lv n) s = (r, s')"
  shows "done_as OpPause view (view (world s)) d r s'"
  by (rule refine_simpleAction[OF doc found run[unfolded Pause_def]], simp)
     (auto simp: documented_call(8)[OF doc] vm_code_3 vm_active
       intro!: sees_refused sees_mutate_err[OF documented_moves(3)[OF doc]])

lemma refine_Resume:
  assumes doc: "documented lv view" and found: "run_state (lookup lv n) s = (Inr d, s1)"
    and run: "run_state (Resume lv n) s = (r, s')"
  shows "done_as OpResume view (view (world s)) d r s'"
  by (rule refine_simpleAction[OF doc found run[unfolded Resume_def]], simp)
     (auto simp: documented_call(8)[OF doc] vm_code_3 vm_active
       intro!: sees_refused sees_mutate_err[OF documented_moves(4)[OF doc]])

lemma refine_Reset:
  assumes doc: "documented lv view" and found: "run_state (lookup lv n) s = (Inr d, s1)"
    and run: "run_state (Reset lv n) s = (r, s')"
  shows "done_as OpReset view (view (world s)) d r s'"
  by (rule refine_simpleAction[OF doc found run[unfolded Reset_def]], simp)
     (auto simp: vm_active intro!: sees_mutate_err[OF documented_moves(7)[OF doc]])

lemma refine_power:
  assumes "documented lv view" and "run_state (lookup lv n) s = (Inr d, s1)"
    and "run_state (power_action lv op n) s = (r, s')"
  shows "done_as op view (view (world s)) d r s'"
  using assms(3) refine_Start[OF assms(1,2)] refine_Stop[OF assms(1,2)] refine_Shutdown[OF assms(1,2)]
    refine_Reboot[OF assms(1,2)] refine_Pause[OF assms(1,2)] refine_Resume[OF assms(1,2)]
    refine_Reset[OF assms(1,2)]
  by (cases op) simp_all

subsection \<open>A binding in memory\<close>

text \<open>The states of domains named by themselves: the documented behaviour is satisfiable.\<close>

definition memory_move ::
  "machine set \<Rightarrow> machine \<Rightarrow> string \<Rightarrow> (string \<Rightarrow> machine) \<Rightarrow> (lverr + unit) \<times> (string \<Rightarrow> machine)" where
  "memory_move S v d w =
     (if w d \<in> S then (Inr (), w(d := v)) else (Inl (LvError ERR_OPERATION_INVALID ''invalid''), w))"

definition memory_lv :: "(string \<Rightarrow> machine, string) lv_power" where
  "memory_lv =
     \<lparr>LookupDomainByName = (\<lambda>n w. (Inr n, w)), LookupDomainByUUIDString = (\<lambda>n w. (Inr n, w)),
      GetName = (\<lambda>d w. (Inr d, w)), GetUUIDString = (\<lambda>d w. (Inr d, w)), Free = (\<lambda>d w. ((), w)),
      domIsActive = (\<lambda>d w. (Inr (w d \<noteq> Shutoff), w)),
      domGetState = (\<lambda>d w. (Inr (vm_code (w d)), w)),
      domCreate = memory_move {Shutoff} Running,
      domShutdownFlags = (\<lambda>_. memory_move {Running, Paused} Shutoff),
      domReboot = (\<lambda>_. memory_move {Running, Paused} Running),
      domSuspend = memory_move {Running} Paused,
      domResume = memory_move {Paused} Running,
      domReset = memory_move {Running, Paused} Running,
      domDestroy = memory_move {Running, Paused} Shutoff,
      DOMAIN_PAUSED = 3\<rparr>"

lemma memory_documented: "documented memory_lv (\<lambda>w. w)"
  by (auto simp: documented_def memory_lv_def reads_def moves_def memory_move_def)

subsection \<open>The contract of the power actions\<close>




end
