(* ===== verification/Xml.thy ===== *)
theory Xml
  imports Go_Strings
begin

text \<open>
  What the adapter uses of \<open>encoding/xml\<close>.

  Reading: a document is given as the tree of its first element (how its bytes become the
  tree is a parameter of the operations that read XML); decoding into a struct follows
  \<open>Unmarshal\<close>: a field is matched by local name, an attribute or a child that occurs again
  overwrites it, a slice gets one element per child, and a string or number is the character
  data directly inside its element.

  Writing: \<open>EscapeText\<close>, the escaping \<open>Marshal\<close> applies to character data.
\<close>

datatype xml_node = Element string "(string \<times> string) list" "xml_node list" | Chars string

fun node_name :: "xml_node \<Rightarrow> string option" where
  "node_name (Element n _ _) = Some n"
| "node_name (Chars _) = None"

fun node_attrs :: "xml_node \<Rightarrow> (string \<times> string) list" where
  "node_attrs (Element _ as _) = as"
| "node_attrs (Chars _) = []"

fun node_children :: "xml_node \<Rightarrow> xml_node list" where
  "node_children (Element _ _ cs) = cs"
| "node_children (Chars _) = []"

fun node_chars :: "xml_node \<Rightarrow> string" where
  "node_chars (Element _ _ _) = []"
| "node_chars (Chars s) = s"

definition children_named :: "string \<Rightarrow> xml_node \<Rightarrow> xml_node list" where
  "children_named n e = filter (\<lambda>c. node_name c = Some n) (node_children e)"

text \<open>A string field of an attribute: the last attribute of the name, or what it was.\<close>

definition attr_field :: "string \<Rightarrow> string \<Rightarrow> xml_node \<Rightarrow> string" where
  "attr_field n old e =
     foldl (\<lambda>v a. if fst a = n then snd a else v) old (node_attrs e)"

definition text_of :: "xml_node \<Rightarrow> string" where
  "text_of e = concat (map node_chars (node_children e))"

text \<open>A string field of a child element.\<close>

definition child_text :: "string \<Rightarrow> string \<Rightarrow> xml_node \<Rightarrow> string" where
  "child_text n old e = foldl (\<lambda>_ c. text_of c) old (children_named n e)"

text \<open>A struct field of a child element with one string attribute.\<close>

definition child_attr :: "string \<Rightarrow> string \<Rightarrow> string \<Rightarrow> xml_node \<Rightarrow> string" where
  "child_attr n a old e = foldl (attr_field a) old (children_named n e)"

text \<open>A slice field below one struct field: the elements of all its occurrences.\<close>

definition slice_in :: "string \<Rightarrow> string \<Rightarrow> xml_node \<Rightarrow> xml_node list" where
  "slice_in outer inner e = concat (map (children_named inner) (children_named outer e))"

text \<open>\<open>strconv.ParseInt(s, 10, 64)\<close>.\<close>

definition parse_int64 :: "string \<Rightarrow> int option" where
  "parse_int64 s =
     (case s of
        [] \<Rightarrow> None
      | c # cs \<Rightarrow>
        let neg = (c = CHR ''-''); ds = (if neg \<or> c = CHR ''+'' then cs else s) in
        if ds = [] \<or> \<not> list_all is_digit ds then None
        else let v = (if neg then - digits_value 0 ds else digits_value 0 ds) in
          if - (2 ^ 63) \<le> v \<and> v < 2 ^ 63 then Some v else None)"

text \<open>An int64 field of a child element; no character data means zero.\<close>

definition int64_text :: "string \<Rightarrow> int option" where
  "int64_text s = (if s = [] then Some 0 else parse_int64 (trim_space s))"

definition child_int64 :: "string \<Rightarrow> int \<Rightarrow> xml_node \<Rightarrow> int option" where
  "child_int64 n old e =
     foldl (\<lambda>v c. case v of None \<Rightarrow> None | Some _ \<Rightarrow> int64_text (text_of c)) (Some old)
       (children_named n e)"

subsection \<open>EscapeText\<close>

definition in_char_range :: "int \<Rightarrow> bool" where
  "in_char_range r \<longleftrightarrow>
     r = 9 \<or> r = 10 \<or> r = 13 \<or> 32 \<le> r \<and> r \<le> 55295 \<or> 57344 \<le> r \<and> r \<le> 65533 \<or>
     65536 \<le> r \<and> r \<le> 1114111"

text \<open>One rune with the bytes it was decoded from; the replacement character is EF BF BD.\<close>

definition escape_rune :: "int \<times> string \<Rightarrow> string" where
  "escape_rune p =
     (case p of (r, bs) \<Rightarrow>
        if r = 34 then ''&#34;''
        else if r = 39 then ''&#39;''
        else if r = 38 then ''&amp;''
        else if r = 60 then ''&lt;''
        else if r = 62 then ''&gt;''
        else if r = 9 then ''&#x9;''
        else if r = 10 then ''&#xA;''
        else if r = 13 then ''&#xD;''
        else if \<not> in_char_range r \<or> r = 65533 \<and> length bs = 1 then [CHR 0xEF, CHR 0xBF, CHR 0xBD]
        else bs)"

definition escape_text :: "string \<Rightarrow> string" where
  "escape_text s = concat (map escape_rune (chunks s))"

text \<open>
  How a reader of XML takes character data apart: up to the next markup, with the
  references that \<open>escape_rune\<close> writes replaced by their characters.
\<close>

definition references :: "(string \<times> string) list" where
  "references = map (\<lambda>(name, code). (name, [char_of (code :: int)]))
     [(''#34'', 34), (''#39'', 39), (''amp'', 38), (''lt'', 60), (''gt'', 62), (''#x9'', 9),
      (''#xA'', 10), (''#xD'', 13)]"

function read_text :: "string \<Rightarrow> (string \<times> string) option" where
  "read_text s =
     (case s of
        [] \<Rightarrow> Some ([], [])
      | c # cs \<Rightarrow>
        if c = CHR ''<'' then Some ([], s)
        else if c = CHR ''&'' then
          (case cut_at (CHR '';'') cs of
             (name, rest, found) \<Rightarrow>
               (case (if found then map_of references name else None) of
                  None \<Rightarrow> None
                | Some v \<Rightarrow> map_option (\<lambda>(t, m). (v @ t, m)) (read_text rest)))
        else map_option (\<lambda>(t, m). (c # t, m)) (read_text cs))"
  by pat_completeness auto
termination
  by (relation "measure length") (auto dest!: cut_at_found[OF sym] split: if_splits)

declare read_text.simps [simp del]

text \<open>Text that XML can carry: well-formed UTF-8 of the characters XML allows.\<close>

definition xml_clean :: "string \<Rightarrow> bool" where
  "xml_clean s = list_all (\<lambda>(r, b). in_char_range r \<and> \<not> (r = 65533 \<and> length b = 1)) (chunks s)"

lemma decode_rune_bytes:
  "\<not> byte c < 128 \<Longrightarrow> list_all (\<lambda>x. 128 \<le> byte x) (take (snd (decode_rune (c # s))) (c # s))"
  by (auto simp: decode_rune_def decode2_def decode3_def decode4_def split: list.splits if_splits)

lemma chunk_bytes:
  "(r, bs) \<in> set (chunks s) \<Longrightarrow>
     (\<exists>c. bs = [c] \<and> byte c = r \<and> r < 128) \<or> 128 \<le> r \<and> list_all (\<lambda>x. 128 \<le> byte x) bs"
proof (induction s rule: chunks.induct)
  case (2 c s)
  show ?case
  proof (cases "byte c < 128")
    case True
    with 2 show ?thesis by auto
  next
    case False
    with decode_rune_bytes[OF False, of s] decode_rune_multibyte[OF False, of s] 2 show ?thesis
      by (auto simp: chunks.simps(2) Let_def)
  qed
qed simp

lemma byte_eq: "byte c = k \<Longrightarrow> c = char_of k"
  using char_of_char[of c] by metis

lemma read_plain:
  "list_all (\<lambda>c. c \<noteq> CHR ''<'' \<and> c \<noteq> CHR ''&'') bs \<Longrightarrow>
   read_text (bs @ t) = map_option (\<lambda>(x, m). (bs @ x, m)) (read_text t)"
proof (induction bs)
  case Nil
  then show ?case by (cases "read_text t") auto
next
  case (Cons c bs)
  then show ?case
    by (subst read_text.simps, cases "read_text t") auto
qed

lemma read_reference:
  "map_of references name = Some v \<Longrightarrow>
   read_text (CHR ''&'' # name @ CHR '';'' # t) = map_option (\<lambda>(x, m). (v @ x, m)) (read_text t)"
proof -
  assume name: "map_of references name = Some v"
  then have "CHR '';'' \<notin> set name" by (auto simp: references_def split: if_splits)
  with name show ?thesis by (subst read_text.simps) (simp add: cut_at_present)
qed

lemma escape_reference:
  assumes "r \<in> {34, 39, 38, 60, 62, 9, 10, 13}"
  shows "\<exists>name. map_of references name = Some [char_of r] \<and>
    escape_rune (r, bs) = CHR ''&'' # name @ '';''"
  using assms
  by (elim insertE; simp add: escape_rune_def references_def)

lemma read_escape_chunk:
  assumes "(r, bs) \<in> set (chunks s)" and "in_char_range r" and "\<not> (r = 65533 \<and> length bs = 1)"
  shows "read_text (escape_rune (r, bs) @ t) = map_option (\<lambda>(x, m). (bs @ x, m)) (read_text t)"
proof (cases "r \<in> {34, 39, 38, 60, 62, 9, 10, 13}")
  case True
  with chunk_bytes[OF assms(1)] have "bs = [char_of r]" by (auto dest: byte_eq)
  with escape_reference[OF True, of bs] read_reference[of _ "[char_of r]" t] show ?thesis by auto
next
  case False
  then have "escape_rune (r, bs) = bs" using assms(2,3) by (auto simp: escape_rune_def)
  moreover have "list_all (\<lambda>c. c \<noteq> CHR ''<'' \<and> c \<noteq> CHR ''&'') bs"
    using chunk_bytes[OF assms(1)] False by (auto simp: list_all_iff)
  ultimately show ?thesis using read_plain by simp
qed

lemma read_escape_chunks:
  assumes "set cs \<subseteq> set (chunks s)"
    and "list_all (\<lambda>(r, b). in_char_range r \<and> \<not> (r = 65533 \<and> length b = 1)) cs"
  shows "read_text (concat (map escape_rune cs) @ CHR ''<'' # t) =
    Some (concat (map snd cs), CHR ''<'' # t)"
  using assms
proof (induction cs)
  case Nil
  then show ?case by (simp add: read_text.simps)
next
  case (Cons c cs)
  obtain r bs where c: "c = (r, bs)" by (cases c)
  with Cons read_escape_chunk[of r bs s "concat (map escape_rune cs) @ CHR ''<'' # t"]
  show ?case by simp
qed

text \<open>A reader gets back what was escaped, up to the markup that follows it.\<close>

lemma read_escape_text:
  "xml_clean s \<Longrightarrow> read_text (escape_text s @ CHR ''<'' # t) = Some (s, CHR ''<'' # t)"
  using read_escape_chunks[of "chunks s" s t] by (simp add: xml_clean_def escape_text_def concat_chunks)

lemma escape_rune_no_markup:
  assumes "(r, bs) \<in> set (chunks s)"
  shows "CHR ''<'' \<notin> set (escape_rune (r, bs)) \<and> CHR ''>'' \<notin> set (escape_rune (r, bs))"
  using chunk_bytes[OF assms] by (auto simp: escape_rune_def list_all_iff)

lemma escape_text_no_markup:
  "CHR ''<'' \<notin> set (escape_text s) \<and> CHR ''>'' \<notin> set (escape_text s)"
  using escape_rune_no_markup[of _ _ s] by (fastforce simp: escape_text_def)

end
