(* ===== verification/Libvirt_Query.thy ===== *)
theory Libvirt_Query
  imports Libvirt_Power Xml
begin

text \<open>
  The operations of \<open>internal/hypervisor/libvirt.go\<close> that read: readiness, host and domain
  information, statistics, interfaces, autostart (with the one that sets it), the domain
  XML and what is read out of it, and screenshots.

  The types of the binding's replies are records with its field names; its numeric
  constants are fields of the binding, since the code compares against them.
\<close>

subsection \<open>Replies and constants of the binding\<close>

record NodeInfo =
  ni_Model :: string
  ni_Memory :: "64 word"
  ni_Cpus :: "64 word"
  ni_MHz :: "64 word"
  ni_Nodes :: "32 word"
  ni_Sockets :: "32 word"
  ni_Cores :: "32 word"
  ni_Threads :: "32 word"

record NodeCPUStats =
  ncpu_KernelSet :: bool
  ncpu_Kernel :: "64 word"
  ncpu_UserSet :: bool
  ncpu_User :: "64 word"

record NodeMemoryStats =
  nmem_TotalSet :: bool
  nmem_Total :: "64 word"
  nmem_FreeSet :: bool
  nmem_Free :: "64 word"
  nmem_AvailableSet :: bool
  nmem_Available :: "64 word"
  nmem_BuffersSet :: bool
  nmem_Buffers :: "64 word"
  nmem_CachedSet :: bool
  nmem_Cached :: "64 word"

record LvDomainInfo =
  di_State :: int
  di_MaxMem :: "64 word"
  di_Memory :: "64 word"
  di_NrVirtCpu :: "64 word"
  di_CpuTime :: "64 word"

record LvCPUStats =
  lcpu_CpuTimeSet :: bool
  lcpu_CpuTime :: "64 word"
  lcpu_UserTimeSet :: bool
  lcpu_UserTime :: "64 word"
  lcpu_SystemTimeSet :: bool
  lcpu_SystemTime :: "64 word"

record LvBlockStats =
  lblk_RdBytesSet :: bool
  lblk_RdBytes :: int
  lblk_RdReqSet :: bool
  lblk_RdReq :: int
  lblk_WrBytesSet :: bool
  lblk_WrBytes :: int
  lblk_WrReqSet :: bool
  lblk_WrReq :: int

record LvInterfaceStats =
  lif_RxBytesSet :: bool
  lif_RxBytes :: int
  lif_RxPacketsSet :: bool
  lif_RxPackets :: int
  lif_TxBytesSet :: bool
  lif_TxBytes :: int
  lif_TxPacketsSet :: bool
  lif_TxPackets :: int

record LvIPAddress =
  lip_Type :: int
  lip_Addr :: string
  lip_Prefix :: "64 word"

record LvInterface =
  lifc_Name :: string
  lifc_Hwaddr :: string
  lifc_Addrs :: "LvIPAddress list"

datatype list_flag = LIST_DOMAINS_ALL | CONNECT_LIST_DOMAINS_ACTIVE | CONNECT_LIST_DOMAINS_INACTIVE

datatype address_source =
    DOMAIN_INTERFACE_ADDRESSES_SRC_LEASE
  | DOMAIN_INTERFACE_ADDRESSES_SRC_AGENT
  | DOMAIN_INTERFACE_ADDRESSES_SRC_ARP

record lv_consts =
  MEMORY_STAT_SWAP_IN :: int
  MEMORY_STAT_SWAP_OUT :: int
  MEMORY_STAT_MAJOR_FAULT :: int
  MEMORY_STAT_MINOR_FAULT :: int
  MEMORY_STAT_UNUSED :: int
  MEMORY_STAT_AVAILABLE :: int
  MEMORY_STAT_ACTUAL_BALLOON :: int
  MEMORY_STAT_RSS :: int
  MEMORY_STAT_USABLE :: int
  IP_ADDR_TYPE_IPV4 :: int
  IP_ADDR_TYPE_IPV6 :: int

record ('w, 'd) lv_query = "('w, 'd) lv_power" +
  consts_of :: lv_consts
  Now :: "'w \<Rightarrow> gotime \<times> 'w"
  xml_root :: "string \<Rightarrow> xml_node option"
  IsAlive :: "'w \<Rightarrow> (lverr + bool) \<times> 'w"
  GetHostname :: "'w \<Rightarrow> (lverr + string) \<times> 'w"
  GetNodeInfo :: "'w \<Rightarrow> (lverr + NodeInfo) \<times> 'w"
  GetNodeCPUStats :: "'w \<Rightarrow> (lverr + NodeCPUStats) \<times> 'w"
  GetNodeMemoryStats :: "'w \<Rightarrow> (lverr + NodeMemoryStats) \<times> 'w"
  ListAllDomains :: "list_flag \<Rightarrow> 'w \<Rightarrow> (lverr + 'd list) \<times> 'w"
  GetID :: "'d \<Rightarrow> 'w \<Rightarrow> (lverr + 64 word) \<times> 'w"
  GetInfo :: "'d \<Rightarrow> 'w \<Rightarrow> (lverr + LvDomainInfo) \<times> 'w"
  domGetCPUStats :: "'d \<Rightarrow> 'w \<Rightarrow> (lverr + LvCPUStats list) \<times> 'w"
  MemoryStats :: "'d \<Rightarrow> 'w \<Rightarrow> (lverr + (int \<times> 64 word) list) \<times> 'w"
  domBlockStats :: "string \<Rightarrow> 'd \<Rightarrow> 'w \<Rightarrow> (lverr + LvBlockStats) \<times> 'w"
  InterfaceStats :: "string \<Rightarrow> 'd \<Rightarrow> 'w \<Rightarrow> (lverr + LvInterfaceStats) \<times> 'w"
  ListAllInterfaceAddresses ::
    "address_source \<Rightarrow> 'd \<Rightarrow> 'w \<Rightarrow> (lverr + LvInterface list) \<times> 'w"
  GetAutostart :: "'d \<Rightarrow> 'w \<Rightarrow> (lverr + bool) \<times> 'w"
  domSetAutostart :: "bool \<Rightarrow> 'd \<Rightarrow> 'w \<Rightarrow> (lverr + unit) \<times> 'w"
  GetXMLDesc :: "'d \<Rightarrow> 'w \<Rightarrow> (lverr + string) \<times> 'w"
  NewStream :: "'w \<Rightarrow> (lverr + 'd) \<times> 'w"
  domScreenshot :: "'d \<Rightarrow> 'd \<Rightarrow> 'w \<Rightarrow> (lverr + string) \<times> 'w"
  StreamFinish :: "'d \<Rightarrow> 'w \<Rightarrow> (lverr + unit) \<times> 'w"
  StreamAbort :: "'d \<Rightarrow> 'w \<Rightarrow> (lverr + unit) \<times> 'w"
  StreamFree :: "'d \<Rightarrow> 'w \<Rightarrow> unit \<times> 'w"

text \<open>\<open>time.Now().UTC()\<close>\<close>

definition clock :: "('w, 'd, 'x) lv_query_scheme \<Rightarrow> ('w, 'd, gotime) io" where
  "clock lv = State (\<lambda>s. case Now lv (world s) of (t, w) \<Rightarrow> (t, s\<lparr>world := w\<rparr>))"

subsection \<open>Readiness and the host\<close>

definition Ready :: "('w, 'd, 'x) lv_query_scheme \<Rightarrow> ('w, 'd, goerr + unit) io" where
  "Ready lv = do {
     r \<leftarrow> ask_host HIsAlive (IsAlive lv);
     State_Monad.return (case r of
         Inl err \<Rightarrow> Inl (Wrap [Lit ''check libvirt connection: ''] (Lib err) [])
       | Inr alive \<Rightarrow>
           if \<not> alive then Inl (New [Lit ''libvirt connection is not alive'']) else Inr ())
   }"

definition HostInfo :: "('w, 'd, 'x) lv_query_scheme \<Rightarrow> ('w, 'd, goerr + Host) io" where
  "HostInfo lv = do {
     r \<leftarrow> ask_host HGetHostname (GetHostname lv);
     case r of
       Inl err \<Rightarrow> failed [Lit ''get hypervisor hostname: ''] err
     | Inr name \<Rightarrow> do {
         r2 \<leftarrow> ask_host HGetNodeInfo (GetNodeInfo lv);
         case r2 of
           Inl err \<Rightarrow> failed [Lit ''get hypervisor information: ''] err
         | Inr info \<Rightarrow> State_Monad.return (Inr
             \<lparr>host_Name = name, host_Model = ni_Model info, host_MemoryKiB = ni_Memory info,
              host_CPUs = ni_Cpus info, host_MHz = ni_MHz info, host_NUMANodes = ucast (ni_Nodes info),
              host_Sockets = ucast (ni_Sockets info), host_Cores = ucast (ni_Cores info),
              host_Threads = ucast (ni_Threads info)\<rparr>)
       }
   }"

definition ptr_if :: "bool \<Rightarrow> 'a \<Rightarrow> 'a option" where
  "ptr_if present v = (if present then Some v else None)"

definition host_cpu :: "NodeCPUStats \<Rightarrow> CPUStats" where
  "host_cpu cpu =
     \<lparr>cpu_CPUTimeNS = ptr_if (ncpu_KernelSet cpu \<or> ncpu_UserSet cpu) (ncpu_Kernel cpu + ncpu_User cpu),
      cpu_UserTimeNS = ptr_if (ncpu_UserSet cpu) (ncpu_User cpu),
      cpu_SystemTimeNS = ptr_if (ncpu_KernelSet cpu) (ncpu_Kernel cpu)\<rparr>"

definition entry_if :: "bool \<Rightarrow> string \<Rightarrow> 'a \<Rightarrow> (string \<times> 'a) list" where
  "entry_if present k v = (if present then [(k, v)] else [])"

definition host_memory :: "NodeMemoryStats \<Rightarrow> (string \<times> 64 word) list" where
  "host_memory m =
     entry_if (nmem_TotalSet m) ''total'' (nmem_Total m) @
     entry_if (nmem_FreeSet m) ''free'' (nmem_Free m) @
     entry_if (nmem_AvailableSet m) ''available'' (nmem_Available m) @
     entry_if (nmem_BuffersSet m) ''buffers'' (nmem_Buffers m) @
     entry_if (nmem_CachedSet m) ''cached'' (nmem_Cached m)"

definition HostStatistics :: "('w, 'd, 'x) lv_query_scheme \<Rightarrow> ('w, 'd, goerr + HostStats) io" where
  "HostStatistics lv = do {
     r \<leftarrow> ask_host HGetCPUStats (GetNodeCPUStats lv);
     case r of
       Inl err \<Rightarrow> failed [Lit ''get host CPU statistics: ''] err
     | Inr cpu \<Rightarrow> do {
         r2 \<leftarrow> ask_host HGetMemoryStats (GetNodeMemoryStats lv);
         case r2 of
           Inl err \<Rightarrow> failed [Lit ''get host memory statistics: ''] err
         | Inr memory \<Rightarrow> do {
             now \<leftarrow> clock lv;
             State_Monad.return (Inr
               \<lparr>hs_SampledAt = now, hs_CPU = host_cpu cpu, hs_MemoryKiB = host_memory memory\<rparr>)
           }
       }
   }"

subsection \<open>Domain summaries\<close>

definition normalizeDomainID :: "64 word \<Rightarrow> int" where
  "normalizeDomainID i = (if i = 4294967295 then - 1 else sint i)"

definition domainSummary ::
  "('w, 'd, 'x) lv_query_scheme \<Rightarrow> 'd \<Rightarrow> ('w, 'd, goerr + Domain) io" where
  "domainSummary lv domain = withIdentity lv domain (\<lambda>name uuid. do {
     st \<leftarrow> ask QGetState domain (domGetState lv);
     case st of
       Inl err \<Rightarrow> failed [Lit ''get domain '', Quo name, Lit '' state: ''] err
     | Inr state \<Rightarrow> do {
         a \<leftarrow> ask QIsActive domain (domIsActive lv);
         case a of
           Inl err \<Rightarrow> failed [Lit ''get domain '', Quo name, Lit '' activity: ''] err
         | Inr active \<Rightarrow>
           if active then do {
             i \<leftarrow> ask QGetID domain (GetID lv);
             case i of
               Inl err \<Rightarrow> failed [Lit ''get domain '', Quo name, Lit '' ID: ''] err
             | Inr numeric \<Rightarrow> State_Monad.return (Inr
                 \<lparr>dom_Name = name, dom_UUID = uuid, dom_ID = normalizeDomainID numeric,
                  dom_State = StateName state, dom_Active = active\<rparr>)
           }
           else State_Monad.return (Inr
             \<lparr>dom_Name = name, dom_UUID = uuid, dom_ID = - 1,
              dom_State = StateName state, dom_Active = active\<rparr>)
       }
   })"

definition listFlags :: "DomainFilter \<Rightarrow> list_flag" where
  "listFlags which =
     (case which of
        DomainAll \<Rightarrow> LIST_DOMAINS_ALL
      | DomainActive \<Rightarrow> CONNECT_LIST_DOMAINS_ACTIVE
      | DomainInactive \<Rightarrow> CONNECT_LIST_DOMAINS_INACTIVE)"

text \<open>The loop over the domains: it stops at the first error.\<close>

fun summaries ::
  "('w, 'd, 'x) lv_query_scheme \<Rightarrow> 'd list \<Rightarrow> Domain list \<Rightarrow> ('w, 'd, goerr + Domain list) io" where
  "summaries lv [] result = State_Monad.return (Inr result)"
| "summaries lv (d # ds) result = do {
     r \<leftarrow> domainSummary lv d;
     case r of
       Inl itemErr \<Rightarrow> State_Monad.return (Inl itemErr)
     | Inr domain \<Rightarrow> summaries lv ds (result @ [domain])
   }"

fun free_all :: "('d \<Rightarrow> ('w, 'd, unit) io) \<Rightarrow> 'd list \<Rightarrow> ('w, 'd, unit) io" where
  "free_all f [] = State_Monad.return ()"
| "free_all f (d # ds) = do { f d; free_all f ds }"

definition list_call ::
  "('w, 'd, 'x) lv_query_scheme \<Rightarrow> list_flag \<Rightarrow> ('w, 'd, lverr + 'd list) io" where
  "list_call lv flags =
     call (\<lambda>r. CHost HListAllDomains (case r of Inl _ \<Rightarrow> [] | Inr ds \<Rightarrow> ds)) (ListAllDomains lv flags)"

definition ListDomains ::
  "('w, 'd, 'x) lv_query_scheme \<Rightarrow> DomainFilter \<Rightarrow> ('w, 'd, goerr + Domain list) io" where
  "ListDomains lv which = do {
     r \<leftarrow> list_call lv (listFlags which);
     case r of
       Inl err \<Rightarrow> failed [Lit ''list domains: ''] err
     | Inr domains \<Rightarrow> deferring (free_all (freeDomain lv) domains) (summaries lv domains [])
   }"

definition DomainDetails ::
  "('w, 'd, 'x) lv_query_scheme \<Rightarrow> string \<Rightarrow> ('w, 'd, goerr + DomainInfo) io" where
  "DomainDetails lv identifier = withDomain lv identifier (\<lambda>domain. do {
     r \<leftarrow> domainSummary lv domain;
     case r of
       Inl err \<Rightarrow> State_Monad.return (Inl err)
     | Inr summary \<Rightarrow> do {
         i \<leftarrow> ask QGetInfo domain (GetInfo lv);
         case i of
           Inl err \<Rightarrow> failed [Lit ''get domain '', Quo identifier, Lit '' information: ''] err
         | Inr info \<Rightarrow> State_Monad.return (Inr
             \<lparr>info_Domain = summary, info_StateCode = di_State info, info_MaxMemoryKiB = di_MaxMem info,
              info_MemoryKiB = di_Memory info, info_VCPUs = di_NrVirtCpu info,
              info_CPUTimeNS = di_CpuTime info\<rparr>)
       }
   })"

subsection \<open>Statistics of a domain\<close>

definition domain_cpu :: "LvCPUStats list \<Rightarrow> CPUStats" where
  "domain_cpu cpu =
     (case cpu of
        [] \<Rightarrow> \<lparr>cpu_CPUTimeNS = None, cpu_UserTimeNS = None, cpu_SystemTimeNS = None\<rparr>
      | c # _ \<Rightarrow>
          \<lparr>cpu_CPUTimeNS = ptr_if (lcpu_CpuTimeSet c) (lcpu_CpuTime c),
           cpu_UserTimeNS = ptr_if (lcpu_UserTimeSet c) (lcpu_UserTime c),
           cpu_SystemTimeNS = ptr_if (lcpu_SystemTimeSet c) (lcpu_SystemTime c)\<rparr>)"

definition memoryStatName :: "lv_consts \<Rightarrow> int \<Rightarrow> string" where
  "memoryStatName c tag =
     (if tag = MEMORY_STAT_SWAP_IN c then ''swap_in''
      else if tag = MEMORY_STAT_SWAP_OUT c then ''swap_out''
      else if tag = MEMORY_STAT_MAJOR_FAULT c then ''major_fault''
      else if tag = MEMORY_STAT_MINOR_FAULT c then ''minor_fault''
      else if tag = MEMORY_STAT_UNUSED c then ''unused''
      else if tag = MEMORY_STAT_AVAILABLE c then ''available''
      else if tag = MEMORY_STAT_ACTUAL_BALLOON c then ''actual_balloon''
      else if tag = MEMORY_STAT_RSS c then ''rss''
      else if tag = MEMORY_STAT_USABLE c then ''usable''
      else ''tag_'' @ format_int tag)"

definition domain_memory :: "lv_consts \<Rightarrow> (int \<times> 64 word) list \<Rightarrow> (string \<times> 64 word) list" where
  "domain_memory c stats = foldl (\<lambda>m (tag, v). assoc_set (memoryStatName c tag) v m) [] stats"

definition block_stats :: "string \<Rightarrow> LvBlockStats \<Rightarrow> BlockStats" where
  "block_stats device s =
     \<lparr>blk_Device = device, blk_ReadBytes = ptr_if (lblk_RdBytesSet s) (lblk_RdBytes s),
      blk_ReadRequests = ptr_if (lblk_RdReqSet s) (lblk_RdReq s),
      blk_WriteBytes = ptr_if (lblk_WrBytesSet s) (lblk_WrBytes s),
      blk_WriteRequests = ptr_if (lblk_WrReqSet s) (lblk_WrReq s)\<rparr>"

definition network_stats :: "string \<Rightarrow> LvInterfaceStats \<Rightarrow> NetworkStats" where
  "network_stats device s =
     \<lparr>net_Device = device, net_RXBytes = ptr_if (lif_RxBytesSet s) (lif_RxBytes s),
      net_RXPackets = ptr_if (lif_RxPacketsSet s) (lif_RxPackets s),
      net_TXBytes = ptr_if (lif_TxBytesSet s) (lif_TxBytes s),
      net_TXPackets = ptr_if (lif_TxPacketsSet s) (lif_TxPackets s)\<rparr>"

text \<open>An error of \<open>xml.Unmarshal\<close>; its text is the library's.\<close>

definition xml_error :: goerr where
  "xml_error = New [Ext ''xml'']"

definition targetsFromXML :: "(string \<Rightarrow> xml_node option) \<Rightarrow> string \<Rightarrow> goerr + string list \<times> string list" where
  "targetsFromXML root description =
     (case root description of
        None \<Rightarrow> Inl xml_error
      | Some e \<Rightarrow>
        let disks = filter (\<lambda>d. attr_field ''device'' [] d = ''disk'' \<and> child_attr ''target'' ''dev'' [] d \<noteq> [])
                      (slice_in ''devices'' ''disk'' e);
            interfaces = filter (\<lambda>i. child_attr ''target'' ''dev'' [] i \<noteq> []) (slice_in ''devices'' ''interface'' e)
        in Inr (map (child_attr ''target'' ''dev'' []) disks, map (child_attr ''target'' ''dev'' []) interfaces))"

definition deviceTargets ::
  "('w, 'd, 'x) lv_query_scheme \<Rightarrow> 'd \<Rightarrow> ('w, 'd, goerr + string list \<times> string list) io" where
  "deviceTargets lv domain = do {
     r \<leftarrow> ask QGetXMLDesc domain (GetXMLDesc lv);
     case r of
       Inl err \<Rightarrow> failed [Lit ''get domain XML for statistics: ''] err
     | Inr description \<Rightarrow> State_Monad.return (targetsFromXML (xml_root lv) description)
   }"

fun disk_loop ::
  "('w, 'd, 'x) lv_query_scheme \<Rightarrow> string \<Rightarrow> 'd \<Rightarrow> string list \<Rightarrow> BlockStats list \<Rightarrow>
     ('w, 'd, goerr + BlockStats list) io" where
  "disk_loop lv name domain [] acc = State_Monad.return (Inr acc)"
| "disk_loop lv name domain (device # rest) acc = do {
     r \<leftarrow> ask (QBlockStats device) domain (domBlockStats lv device);
     case r of
       Inl err \<Rightarrow> failed [Lit ''get domain '', Quo name, Lit '' block statistics for '', Ext device, Lit '': ''] err
     | Inr stats \<Rightarrow> disk_loop lv name domain rest (acc @ [block_stats device stats])
   }"

fun interface_loop ::
  "('w, 'd, 'x) lv_query_scheme \<Rightarrow> string \<Rightarrow> 'd \<Rightarrow> string list \<Rightarrow> NetworkStats list \<Rightarrow>
     ('w, 'd, goerr + NetworkStats list) io" where
  "interface_loop lv name domain [] acc = State_Monad.return (Inr acc)"
| "interface_loop lv name domain (device # rest) acc = do {
     r \<leftarrow> ask (QInterfaceStats device) domain (InterfaceStats lv device);
     case r of
       Inl err \<Rightarrow> failed [Lit ''get domain '', Quo name, Lit '' interface statistics for '', Ext device, Lit '': ''] err
     | Inr stats \<Rightarrow> interface_loop lv name domain rest (acc @ [network_stats device stats])
   }"

text \<open>The part of \<open>DomainStats\<close> from line 255 on: the readings, in order.\<close>

definition domainReadings ::
  "('w, 'd, 'x) lv_query_scheme \<Rightarrow> 'd \<Rightarrow> DomainStats \<Rightarrow> ('w, 'd, goerr + DomainStats) io" where
  "domainReadings lv domain result = do {
     c \<leftarrow> ask QCPUStats domain (domGetCPUStats lv);
     case c of
       Inl err \<Rightarrow> failed [Lit ''get domain '', Quo (ds_Name result), Lit '' CPU statistics: ''] err
     | Inr cpu \<Rightarrow> do {
         m \<leftarrow> ask QMemoryStats domain (MemoryStats lv);
         case m of
           Inl err \<Rightarrow> failed [Lit ''get domain '', Quo (ds_Name result), Lit '' memory statistics: ''] err
         | Inr memory \<Rightarrow> do {
             t \<leftarrow> deviceTargets lv domain;
             case t of
               Inl err \<Rightarrow> State_Monad.return (Inl err)
             | Inr (disks, interfaces) \<Rightarrow> do {
                 d \<leftarrow> disk_loop lv (ds_Name result) domain disks [];
                 case d of
                   Inl err \<Rightarrow> State_Monad.return (Inl err)
                 | Inr block \<Rightarrow> do {
                     i \<leftarrow> interface_loop lv (ds_Name result) domain interfaces [];
                     case i of
                       Inl err \<Rightarrow> State_Monad.return (Inl err)
                     | Inr network \<Rightarrow> State_Monad.return (Inr (result\<lparr>
                         ds_CPU := domain_cpu cpu, ds_MemoryKiB := domain_memory (consts_of lv) memory,
                         ds_Disks := block, ds_Interfaces := network\<rparr>))
                   }
               }
           }
       }
   }"

definition DomainStatistics ::
  "('w, 'd, 'x) lv_query_scheme \<Rightarrow> string \<Rightarrow> ('w, 'd, goerr + DomainStats) io" where
  "DomainStatistics lv identifier = withDomain lv identifier (\<lambda>domain.
     withIdentity lv domain (\<lambda>name uuid. do {
       a \<leftarrow> ask QIsActive domain (domIsActive lv);
       case a of
         Inl err \<Rightarrow> failed [Lit ''get domain '', Quo name, Lit '' activity: ''] err
       | Inr active \<Rightarrow>
         if \<not> active then conflict [Lit '': statistics require active domain '', Quo name]
         else do {
           st \<leftarrow> ask QGetState domain (domGetState lv);
           case st of
             Inl err \<Rightarrow> failed [Lit ''get domain '', Quo name, Lit '' state: ''] err
           | Inr state \<Rightarrow> do {
               now \<leftarrow> clock lv;
               domainReadings lv domain
                 \<lparr>ds_SampledAt = now, ds_Name = name, ds_UUID = uuid, ds_State = StateName state,
                  ds_CPU = \<lparr>cpu_CPUTimeNS = None, cpu_UserTimeNS = None, cpu_SystemTimeNS = None\<rparr>,
                  ds_MemoryKiB = [], ds_Disks = [], ds_Interfaces = []\<rparr>
             }
         }
     }))"

subsection \<open>Interfaces and autostart\<close>

definition addressSource :: "InterfaceAddressSource \<Rightarrow> address_source" where
  "addressSource source =
     (if source = InterfaceSourceAgent then DOMAIN_INTERFACE_ADDRESSES_SRC_AGENT
      else if source = InterfaceSourceARP then DOMAIN_INTERFACE_ADDRESSES_SRC_ARP
      else DOMAIN_INTERFACE_ADDRESSES_SRC_LEASE)"

definition ip_address :: "lv_consts \<Rightarrow> LvIPAddress \<Rightarrow> IPAddress" where
  "ip_address c a =
     \<lparr>ip_Family = (if lip_Type a = IP_ADDR_TYPE_IPV4 c then ''ipv4''
                   else if lip_Type a = IP_ADDR_TYPE_IPV6 c then ''ipv6'' else ''unknown''),
      ip_Address = lip_Addr a, ip_Prefix = lip_Prefix a\<rparr>"

definition domain_interface :: "lv_consts \<Rightarrow> LvInterface \<Rightarrow> DomainInterface" where
  "domain_interface c item =
     \<lparr>if_Name = lifc_Name item, if_MAC = lifc_Hwaddr item,
      if_Addresses = map (ip_address c) (lifc_Addrs item)\<rparr>"

definition InterfaceList ::
  "('w, 'd, 'x) lv_query_scheme \<Rightarrow> string \<Rightarrow> InterfaceAddressSource \<Rightarrow> ('w, 'd, goerr + DomainInterfaces) io" where
  "InterfaceList lv identifier source = withDomain lv identifier (\<lambda>domain.
     withIdentity lv domain (\<lambda>name uuid. do {
       r \<leftarrow> ask QInterfaceAddresses domain (ListAllInterfaceAddresses lv (addressSource source));
       case r of
         Inl err \<Rightarrow>
           if lv_is err ERR_NO_SUPPORT \<or> lv_is err ERR_OPERATION_UNSUPPORTED then
             unsupported [Lit '': interface address source '', Quo source, Lit '' is unavailable'']
           else failed [Lit ''get domain '', Quo name, Lit '' interface addresses: ''] err
       | Inr items \<Rightarrow> State_Monad.return (Inr
           \<lparr>ifs_Name = name, ifs_UUID = uuid, ifs_Source = source,
            ifs_Interfaces = map (domain_interface (consts_of lv)) items\<rparr>)
     }))"

definition AutostartStatus ::
  "('w, 'd, 'x) lv_query_scheme \<Rightarrow> string \<Rightarrow> ('w, 'd, goerr + Autostart) io" where
  "AutostartStatus lv identifier = withDomain lv identifier (\<lambda>domain.
     withIdentity lv domain (\<lambda>name uuid. do {
       r \<leftarrow> ask QGetAutostart domain (GetAutostart lv);
       State_Monad.return (case r of
           Inl err \<Rightarrow> Inl (Wrap [Lit ''get domain '', Quo name, Lit '' autostart: ''] (Lib err) [])
         | Inr enabled \<Rightarrow> Inr \<lparr>auto_Name = name, auto_UUID = uuid, auto_Enabled = enabled\<rparr>)
     }))"

definition SetAutostart ::
  "('w, 'd, 'x) lv_query_scheme \<Rightarrow> string \<Rightarrow> bool \<Rightarrow> ('w, 'd, goerr + Autostart) io" where
  "SetAutostart lv identifier enabled = withDomain lv identifier (\<lambda>domain.
     withIdentity lv domain (\<lambda>name uuid.
       withActionLock uuid (do {
         e \<leftarrow> mutate (MSetAutostart enabled) domain (domSetAutostart lv enabled);
         case e of
           Inl err \<Rightarrow>
             if lv_is err ERR_NO_SUPPORT \<or> lv_is err ERR_OPERATION_UNSUPPORTED then
               unsupported [Lit '': domain '', Quo name, Lit '' does not support autostart'']
             else failed [Lit ''set domain '', Quo name, Lit '' autostart: ''] err
         | Inr _ \<Rightarrow> State_Monad.return
             (Inr \<lparr>auto_Name = name, auto_UUID = uuid, auto_Enabled = enabled\<rparr>)
       })))"

subsection \<open>The domain XML and its viewer\<close>

definition DomainXML :: "('w, 'd, 'x) lv_query_scheme \<Rightarrow> string \<Rightarrow> ('w, 'd, goerr + string) io" where
  "DomainXML lv identifier = withDomain lv identifier (\<lambda>domain. do {
     r \<leftarrow> ask QGetXMLDesc domain (GetXMLDesc lv);
     State_Monad.return (case r of
         Inl err \<Rightarrow> Inl (Wrap [Lit ''get domain '', Quo identifier, Lit '' XML: ''] (Lib err) [])
       | Inr description \<Rightarrow> Inr description)
   })"

definition viewerFromXML :: "(string \<Rightarrow> xml_node option) \<Rightarrow> string \<Rightarrow> goerr + Viewer" where
  "viewerFromXML root description =
     (case root description of
        None \<Rightarrow> Inl xml_error
      | Some e \<Rightarrow>
        (case slice_in ''devices'' ''graphics'' e of
           [] \<Rightarrow> Inr \<lparr>viewer_Type = [], viewer_Listen = None, viewer_Port = None\<rparr>
         | graphics # _ \<Rightarrow>
           let listen = attr_field ''listen'' [] graphics;
               listen = (if listen = [] then child_attr ''listen'' ''address'' [] graphics else listen);
               port = attr_field ''port'' [] graphics;
               viewer = \<lparr>viewer_Type = attr_field ''type'' [] graphics,
                         viewer_Listen = ptr_if (listen \<noteq> []) listen, viewer_Port = None\<rparr>
           in if port \<noteq> [] \<and> port \<noteq> ''-1'' then
                (case atoi port of
                   None \<Rightarrow> Inl (New [Lit ''parse graphics port: '', Ext port])
                 | Some p \<Rightarrow> Inr (viewer\<lparr>viewer_Port := Some p\<rparr>))
              else Inr viewer))"

definition ViewerOf :: "('w, 'd, 'x) lv_query_scheme \<Rightarrow> string \<Rightarrow> ('w, 'd, goerr + Viewer) io" where
  "ViewerOf lv identifier = do {
     r \<leftarrow> DomainXML lv identifier;
     State_Monad.return (case r of
         Inl err \<Rightarrow> Inl err
       | Inr description \<Rightarrow>
         (case viewerFromXML (xml_root lv) description of
            Inl err \<Rightarrow> Inl (Wrap [Lit ''parse domain '', Quo identifier, Lit '' XML: ''] err [])
          | Inr viewer \<Rightarrow> Inr viewer))
   }"

subsection \<open>Screenshots\<close>

text \<open>
  \<open>Screenshot\<close> returns the media type and the reading end of a pipe; a goroutine then
  copies.  The handles of the stream and the domain pass to the goroutine, whose copy is
  an operation of its own.
\<close>

definition new_stream :: "('w, 'd, 'x) lv_query_scheme \<Rightarrow> ('w, 'd, lverr + 'd) io" where
  "new_stream lv = call (\<lambda>r. CHost HNewStream (given (to_option r))) (NewStream lv)"

definition freeStream :: "('w, 'd, 'x) lv_query_scheme \<Rightarrow> 'd \<Rightarrow> ('w, 'd, unit) io" where
  "freeStream lv stream = call (\<lambda>_. CFree stream) (StreamFree lv stream)"

record 'd Screenshot =
  shot_ContentType :: string
  shot_stream :: 'd
  shot_domain :: 'd

definition ScreenshotOf ::
  "('w, 'd, 'x) lv_query_scheme \<Rightarrow> string \<Rightarrow> ('w, 'd, goerr + 'd Screenshot) io" where
  "ScreenshotOf lv identifier = do {
     r \<leftarrow> lookup lv identifier;
     case r of
       Inl err \<Rightarrow> State_Monad.return (Inl err)
     | Inr domain \<Rightarrow> do {
         st \<leftarrow> new_stream lv;
         case st of
           Inl err \<Rightarrow> do {
             freeDomain lv domain;
             failed [Lit ''create screenshot stream: ''] err
           }
         | Inr stream \<Rightarrow> do {
             m \<leftarrow> ask QScreenshot domain (domScreenshot lv stream);
             case m of
               Inl err \<Rightarrow> do {
                 freeStream lv stream;
                 freeDomain lv domain;
                 failed [Lit ''capture domain '', Quo identifier, Lit '' screenshot: ''] err
               }
             | Inr mimeType \<Rightarrow> State_Monad.return (Inr
                 \<lparr>shot_ContentType = (if mimeType = [] then ''application/octet-stream'' else mimeType),
                  shot_stream = stream, shot_domain = domain\<rparr>)
           }
       }
   }"

text \<open>
  The copying goroutine: what \<open>RecvAll\<close> ended with, and the error of the context if the
  \<open>select\<close> took its branch.  The result is the error the pipe is closed with.
\<close>

definition copyScreenshot ::
  "('w, 'd, 'x) lv_query_scheme \<Rightarrow> 'd Screenshot \<Rightarrow> lverr option \<Rightarrow> ctx_err option \<Rightarrow>
     ('w, 'd, goerr option) io" where
  "copyScreenshot lv shot received done =
     deferring (freeStream lv (shot_stream shot))
       (deferring (freeDomain lv (shot_domain shot))
         (case done of
            None \<Rightarrow>
              (case received of
                 None \<Rightarrow> do {
                   e \<leftarrow> ask QStreamFinish (shot_stream shot) (StreamFinish lv);
                   State_Monad.return (case e of Inl err \<Rightarrow> Some (Lib err) | Inr _ \<Rightarrow> None)
                 }
               | Some err \<Rightarrow> do {
                   ask QStreamAbort (shot_stream shot) (StreamAbort lv);
                   State_Monad.return (Some (Lib err))
                 })
          | Some err \<Rightarrow> do {
              ask QStreamAbort (shot_stream shot) (StreamAbort lv);
              State_Monad.return (Some (Ctx err))
            }))"

subsection \<open>The call discipline of the queries\<close>

lemma triple_clock [triples]: "triple (at m) (clock lv) (\<lambda>_. at m)"
  by (rule tripleI) (auto simp: clock_def at_def split: prod.split)

lemma triple_free_any: "d \<in># hs \<Longrightarrow> triple (at (Mon hs None)) (freeDomain lv d) (\<lambda>_. at (Mon (hs - {#d#}) None))"
  by (rule tripleI) (auto simp: freeDomain_def run_call at_def)

lemma triple_free_stream:
  "d \<in># hs \<Longrightarrow> triple (at (Mon hs None)) (freeStream lv d) (\<lambda>_. at (Mon (hs - {#d#}) None))"
  by (rule tripleI) (auto simp: freeStream_def run_call at_def)

lemma triple_free_all:
  "triple (at (Mon (mset ds) None)) (free_all (freeDomain lv) ds) (\<lambda>_. at NoHandle)"
proof (induction ds)
  case Nil
  then show ?case by (auto intro: triple_return)
next
  case (Cons d ds)
  have "triple (at (Mon (mset (d # ds)) None)) (freeDomain lv d) (\<lambda>_. at (Mon (mset ds) None))"
    using triple_free_any[of d "mset (d # ds)" lv] by simp
  then show ?case by (simp del: mset.simps) (rule triple_bind[OF _ Cons.IH])
qed

lemmas asked_steps = triple_bind[OF triple_ask] triple_bind[OF triple_ask_host] triple_bind[OF triple_clock]
  triple_rules

lemma Ready_sound: "triple (at NoHandle) (Ready lv) (\<lambda>r s. at NoHandle s \<and> sound_result r)"
  unfolding Ready_def by (rule asked_steps | simp split: sum.split)+

lemma HostInfo_sound: "triple (at NoHandle) (HostInfo lv) (\<lambda>r s. at NoHandle s \<and> sound_result r)"
  unfolding HostInfo_def by (rule asked_steps | simp)+

lemma HostStatistics_sound:
  "triple (at NoHandle) (HostStatistics lv) (\<lambda>r s. at NoHandle s \<and> sound_result r)"
  unfolding HostStatistics_def by (rule asked_steps | simp)+

lemma domainSummary_sound:
  "d \<in># hs \<Longrightarrow> triple (at (Mon hs l)) (domainSummary lv d) (\<lambda>r s. at (Mon hs l) s \<and> sound_result r)"
  unfolding domainSummary_def
  by (rule triple_withIdentity_any, assumption) (rule asked_steps | simp)+

lemma summaries_sound:
  "set ds \<subseteq> set_mset hs \<Longrightarrow>
   triple (at (Mon hs l)) (summaries lv ds acc) (\<lambda>r s. at (Mon hs l) s \<and> sound_result r)"
proof (induction ds arbitrary: acc)
  case (Cons d ds)
  then have "d \<in># hs" and "set ds \<subseteq> set_mset hs" by simp_all
  with Cons.IH show ?case
    by (simp, intro triple_bind[OF domainSummary_sound] triple_sum)
       (auto intro!: triple_return triple_weaken[OF Cons.IH])
qed (auto intro: triple_return)

lemma ListDomains_sound: "triple (at NoHandle) (ListDomains lv f) (\<lambda>r s. at NoHandle s \<and> sound_result r)"
proof -
  have l: "triple (at NoHandle) (list_call lv g)
      (\<lambda>r s. at (Mon (mset (case r of Inl _ \<Rightarrow> [] | Inr ds \<Rightarrow> ds)) None) s)" for g
    by (rule tripleI) (auto simp: list_call_def run_call at_def)
  show ?thesis
    unfolding ListDomains_def
    by (rule triple_bind[OF l], rule triple_sum)
       (auto intro: triple_return triple_deferring[OF summaries_sound triple_free_all])
qed

lemma DomainDetails_sound:
  "triple (at NoHandle) (DomainDetails lv n) (\<lambda>r s. at NoHandle s \<and> sound_result r)"
  unfolding DomainDetails_def
  by (rule triple_withDomain)
     (rule triple_bind[OF domainSummary_sound] asked_steps | simp)+

lemma targetsFromXML_sound: "sound_result (targetsFromXML root x)"
  by (simp add: targetsFromXML_def xml_error_def split: option.split)

lemma deviceTargets_sound:
  "d \<in># hs \<Longrightarrow> triple (at (Mon hs l)) (deviceTargets lv d) (\<lambda>r s. at (Mon hs l) s \<and> sound_result r)"
  unfolding deviceTargets_def by (rule asked_steps | simp add: targetsFromXML_sound)+

lemma disk_loop_sound:
  "d \<in># hs \<Longrightarrow> triple (at (Mon hs l)) (disk_loop lv name d devs acc) (\<lambda>r s. at (Mon hs l) s \<and> sound_result r)"
proof (induction devs arbitrary: acc)
  case (Cons dev devs)
  then show ?case by simp (rule asked_steps Cons.IH | simp)+
qed (auto intro: triple_return)

lemma interface_loop_sound:
  "d \<in># hs \<Longrightarrow>
   triple (at (Mon hs l)) (interface_loop lv name d devs acc) (\<lambda>r s. at (Mon hs l) s \<and> sound_result r)"
proof (induction devs arbitrary: acc)
  case (Cons dev devs)
  then show ?case by simp (rule asked_steps Cons.IH | simp)+
qed (auto intro: triple_return)

lemma domainReadings_sound:
  "d \<in># hs \<Longrightarrow> triple (at (Mon hs l)) (domainReadings lv d r0) (\<lambda>r s. at (Mon hs l) s \<and> sound_result r)"
  unfolding domainReadings_def
  by (rule triple_bind[OF deviceTargets_sound] triple_bind[OF disk_loop_sound]
        triple_bind[OF interface_loop_sound] asked_steps | simp)+

lemma DomainStatistics_sound:
  "triple (at NoHandle) (DomainStatistics lv n) (\<lambda>r s. at NoHandle s \<and> sound_result r)"
  unfolding DomainStatistics_def
  by (rule triple_withDomain triple_withIdentity)+ (rule domainReadings_sound asked_steps | simp)+

lemma InterfaceList_sound:
  "triple (at NoHandle) (InterfaceList lv n src) (\<lambda>r s. at NoHandle s \<and> sound_result r)"
  unfolding InterfaceList_def
  by (rule triple_withDomain triple_withIdentity)+ (rule asked_steps | simp)+

lemma AutostartStatus_sound:
  "triple (at NoHandle) (AutostartStatus lv n) (\<lambda>r s. at NoHandle s \<and> sound_result r)"
  unfolding AutostartStatus_def
  by (rule triple_withDomain triple_withIdentity)+ (rule asked_steps | simp split: sum.split)+

lemma SetAutostart_sound:
  "triple (at NoHandle) (SetAutostart lv n b) (\<lambda>r s. at NoHandle s \<and> sound_result r)"
  unfolding SetAutostart_def by (rule prologue)+ (rule locked_steps | simp)+

lemma DomainXML_sound: "triple (at NoHandle) (DomainXML lv n) (\<lambda>r s. at NoHandle s \<and> sound_result r)"
  unfolding DomainXML_def by (rule triple_withDomain) (rule asked_steps | simp split: sum.split)+

lemma viewerFromXML_unclassified:
  "viewerFromXML root x = Inl e \<Longrightarrow> (\<exists>m. e = New m)"
  by (auto simp: viewerFromXML_def xml_error_def Let_def split: option.splits list.splits if_splits)

lemma ViewerOf_sound: "triple (at NoHandle) (ViewerOf lv n) (\<lambda>r s. at NoHandle s \<and> sound_result r)"
  unfolding ViewerOf_def
  by (rule triple_bind[OF DomainXML_sound], rule triple_return)
     (auto split: sum.splits dest: viewerFromXML_unclassified)

text \<open>
  A screenshot that is being copied holds the domain and the stream; the copy releases both.
\<close>

lemma ScreenshotOf_sound:
  "triple (at NoHandle) (ScreenshotOf lv n)
     (\<lambda>r s. (case r of Inl _ \<Rightarrow> at NoHandle s
             | Inr shot \<Rightarrow> at (Mon {#shot_domain shot, shot_stream shot#} None) s) \<and> sound_result r)"
proof -
  have ns: "triple (at (Held d)) (new_stream lv)
      (\<lambda>r. at (case r of Inl _ \<Rightarrow> Held d | Inr st \<Rightarrow> Mon {#d, st#} None))" for d
    by (rule tripleI) (auto simp: new_stream_def run_call at_def split: sum.split)
  have fd: "triple (at (Held d)) (freeDomain lv d) (\<lambda>_. at NoHandle)" for d
    by (rule triple_free)
  have fs: "triple (at (Mon {#d, st#} None)) (freeStream lv st) (\<lambda>_. at (Held d))" for d st
    using triple_free_stream[of st "{#d, st#}" lv] by simp
  show ?thesis
    unfolding ScreenshotOf_def
    by (rule triple_bind[OF triple_lookup] triple_bind[OF ns] triple_bind[OF fd] triple_bind[OF fs]
         triple_bind[OF triple_ask] triple_rules | simp)+
qed

lemma copyScreenshot_releases:
  "triple (at (Mon {#shot_domain shot, shot_stream shot#} None)) (copyScreenshot lv shot received done)
     (\<lambda>_. at NoHandle)"
proof -
  let ?both = "at (Mon {#shot_domain shot, shot_stream shot#} None)"
  let ?copy = "case done of
            None \<Rightarrow>
              (case received of
                 None \<Rightarrow> do {
                   e \<leftarrow> ask QStreamFinish (shot_stream shot) (StreamFinish lv);
                   State_Monad.return (case e of Inl err \<Rightarrow> Some (Lib err) | Inr _ \<Rightarrow> None)
                 }
               | Some err \<Rightarrow> do {
                   ask QStreamAbort (shot_stream shot) (StreamAbort lv);
                   State_Monad.return (Some (Lib err))
                 })
          | Some err \<Rightarrow> do {
              ask QStreamAbort (shot_stream shot) (StreamAbort lv);
              State_Monad.return (Some (Ctx err))
            }"
  have copy: "triple ?both ?copy (\<lambda>r s. ?both s \<and> True)"
    by (rule asked_steps | simp)+
  have fd: "triple ?both (freeDomain lv (shot_domain shot)) (\<lambda>_. at (Held (shot_stream shot)))"
    using triple_free_any[of "shot_domain shot" "{#shot_domain shot, shot_stream shot#}" lv] by simp
  have fs: "triple (at (Held (shot_stream shot))) (freeStream lv (shot_stream shot)) (\<lambda>_. at NoHandle)"
    using triple_free_stream[of "shot_stream shot" "{#shot_stream shot#}" lv] by simp
  show ?thesis
    unfolding copyScreenshot_def
    using triple_deferring[OF triple_deferring[OF copy fd] fs] by simp
qed

subsection \<open>The changes a query can make\<close>

lemma changing_query_calls [changing_intros]:
  "changing A (list_call lv g)" "changing A (new_stream lv)" "changing A (freeStream lv d)"
  by (simp_all add: list_call_def new_stream_def freeStream_def changing_call)

lemma changing_clock [changing_intros]: "changing A (clock lv)"
  by (simp add: changing_def triple_def within_def clock_def split: prod.split)

lemma changing_Ready: "changing A (Ready lv)"
  unfolding Ready_def by (intro changing_intros)

lemma changing_HostInfo: "changing A (HostInfo lv)"
  unfolding HostInfo_def by (intro changing_intros)

lemma changing_HostStatistics: "changing A (HostStatistics lv)"
  unfolding HostStatistics_def by (intro changing_intros)

lemma changing_domainSummary [changing_intros]: "changing A (domainSummary lv d)"
  unfolding domainSummary_def by (intro changing_intros)

lemma changing_summaries [changing_intros]: "changing A (summaries lv ds acc)"
  by (induction ds arbitrary: acc) (auto intro!: changing_intros)

lemma changing_free_all [changing_intros]:
  "(\<And>d. changing A (f d)) \<Longrightarrow> changing A (free_all f ds)"
  by (induction ds) (auto intro!: changing_intros)

lemma changing_ListDomains: "changing A (ListDomains lv which)"
  unfolding ListDomains_def by (intro changing_intros)

lemma changing_DomainDetails: "changing A (DomainDetails lv n)"
  unfolding DomainDetails_def by (intro changing_intros)

lemma changing_deviceTargets [changing_intros]: "changing A (deviceTargets lv d)"
  unfolding deviceTargets_def by (intro changing_intros)

lemma changing_disk_loop [changing_intros]: "changing A (disk_loop lv name d devs acc)"
  by (induction devs arbitrary: acc) (auto intro!: changing_intros)

lemma changing_interface_loop [changing_intros]: "changing A (interface_loop lv name d devs acc)"
  by (induction devs arbitrary: acc) (auto intro!: changing_intros)

lemma changing_DomainStatistics: "changing A (DomainStatistics lv n)"
  unfolding DomainStatistics_def domainReadings_def by (intro changing_intros)

lemma changing_InterfaceList: "changing A (InterfaceList lv n source)"
  unfolding InterfaceList_def by (intro changing_intros)

lemma changing_AutostartStatus: "changing A (AutostartStatus lv n)"
  unfolding AutostartStatus_def by (intro changing_intros)

lemma changing_SetAutostart: "range MSetAutostart \<subseteq> A \<Longrightarrow> changing A (SetAutostart lv n b)"
  unfolding SetAutostart_def by (intro changing_intros) auto

lemma changing_DomainXML [changing_intros]: "changing A (DomainXML lv n)"
  unfolding DomainXML_def by (intro changing_intros)

lemma changing_ViewerOf: "changing A (ViewerOf lv n)"
  unfolding ViewerOf_def by (intro changing_intros)

lemma changing_ScreenshotOf [changing_intros]: "changing A (ScreenshotOf lv n)"
  unfolding ScreenshotOf_def by (intro changing_intros)

lemma changing_copyScreenshot [changing_intros]: "changing A (copyScreenshot lv shot r s)"
  unfolding copyScreenshot_def by (intro changing_intros)

end
