(* ===== verification/Snapshots.thy ===== *)
theory Snapshots
  imports Libvirt_Query "HOL-Library.Char_ord" "HOL-Library.List_Lexorder"
begin

text \<open>
  \<open>internal/hypervisor/snapshots.go\<close>: listing, creating, reverting to and deleting the
  snapshots of a domain; the XML definitions they are described by; and the order in which
  a list is returned, over any sorting routine that meets the contract of \<open>slices.SortFunc\<close>.
\<close>

subsection \<open>Sorting with a comparison function\<close>

definition cmp_linear :: "('a \<Rightarrow> 'a \<Rightarrow> int) \<Rightarrow> 'a set \<Rightarrow> bool" where
  "cmp_linear cmp S \<longleftrightarrow>
     (\<forall>a \<in> S. \<not> cmp a a < 0) \<and>
     (\<forall>a \<in> S. \<forall>b \<in> S. a \<noteq> b \<longrightarrow> cmp a b < 0 \<or> cmp b a < 0) \<and>
     (\<forall>a \<in> S. \<forall>b \<in> S. \<forall>c \<in> S. cmp a b < 0 \<longrightarrow> cmp b c < 0 \<longrightarrow> cmp a c < 0)"

lemma cmp_linearD:
  assumes "cmp_linear cmp S"
  shows "a \<in> S \<Longrightarrow> \<not> cmp a a < 0"
    and "a \<in> S \<Longrightarrow> b \<in> S \<Longrightarrow> a \<noteq> b \<Longrightarrow> cmp a b < 0 \<or> cmp b a < 0"
    and "a \<in> S \<Longrightarrow> b \<in> S \<Longrightarrow> c \<in> S \<Longrightarrow> cmp a b < 0 \<Longrightarrow> cmp b c < 0 \<Longrightarrow> cmp a c < 0"
  using assms unfolding cmp_linear_def by blast+

lemma cmp_linear_subset: "cmp_linear cmp S \<Longrightarrow> T \<subseteq> S \<Longrightarrow> cmp_linear cmp T"
  unfolding cmp_linear_def by blast

lemma sorted_wrt_unique:
  "cmp_linear cmp (set xs) \<Longrightarrow> sorted_wrt (\<lambda>a b. cmp a b < 0) xs \<Longrightarrow>
   sorted_wrt (\<lambda>a b. cmp a b < 0) ys \<Longrightarrow> mset ys = mset xs \<Longrightarrow> ys = xs"
proof (induction xs arbitrary: ys)
  case (Cons x xs)
  then obtain y ys' where ys: "ys = y # ys'" by (cases ys) auto
  have set: "set ys = set (x # xs)" using mset_eq_setD[OF Cons.prems(4)] .
  have "x = y"
  proof (rule ccontr)
    assume "x \<noteq> y"
    with set ys have "x \<in> set ys'" "y \<in> set xs" by auto
    with Cons.prems(2,3) ys have "cmp x y < 0" "cmp y x < 0" by auto
    with cmp_linearD(3)[OF Cons.prems(1), of x y x] cmp_linearD(1)[OF Cons.prems(1), of x] \<open>y \<in> set xs\<close>
    show False by auto
  qed
  moreover have "cmp_linear cmp (set xs)" by (rule cmp_linear_subset[OF Cons.prems(1)]) auto
  ultimately show ?case using Cons ys by auto
qed simp

text \<open>What a caller of a sorting routine relies on.\<close>

locale sorter =
  fixes sort_func :: "('a \<Rightarrow> 'a \<Rightarrow> int) \<Rightarrow> 'a list \<Rightarrow> 'a list"
  assumes perm: "mset (sort_func cmp xs) = mset xs"
    and ordered: "distinct xs \<Longrightarrow> cmp_linear cmp (set xs) \<Longrightarrow>
      sorted_wrt (\<lambda>a b. cmp a b < 0) (sort_func cmp xs)"
begin

lemma result_unique:
  assumes "distinct xs" and "cmp_linear cmp (set xs)"
    and "mset ys = mset xs" and "sorted_wrt (\<lambda>a b. cmp a b < 0) ys"
  shows "sort_func cmp xs = ys"
proof (rule sorted_wrt_unique)
  show "cmp_linear cmp (set ys)" using assms(2) mset_eq_setD[OF assms(3)] by simp
qed (use assms ordered perm in auto)

lemma keeps_set: "set (sort_func cmp xs) = set xs"
  using mset_eq_setD[OF perm] .

end

text \<open>
  The routine itself for the short slices (at most twelve elements), insertion sort: an
  element moves down the sorted prefix, kept here in reverse.
\<close>

fun insert_back :: "('a \<Rightarrow> 'a \<Rightarrow> int) \<Rightarrow> 'a \<Rightarrow> 'a list \<Rightarrow> 'a list" where
  "insert_back cmp x [] = [x]"
| "insert_back cmp x (y # ys) = (if cmp x y < 0 then y # insert_back cmp x ys else x # y # ys)"

fun insertion_loop :: "('a \<Rightarrow> 'a \<Rightarrow> int) \<Rightarrow> 'a list \<Rightarrow> 'a list \<Rightarrow> 'a list" where
  "insertion_loop cmp prefix [] = rev prefix"
| "insertion_loop cmp prefix (x # xs) = insertion_loop cmp (insert_back cmp x prefix) xs"

definition insertion_sort :: "('a \<Rightarrow> 'a \<Rightarrow> int) \<Rightarrow> 'a list \<Rightarrow> 'a list" where
  "insertion_sort cmp xs = insertion_loop cmp [] xs"

lemma mset_insert_back [simp]: "mset (insert_back cmp x ys) = mset (x # ys)"
  by (induction ys) auto

lemma set_insert_back [simp]: "set (insert_back cmp x ys) = insert x (set ys)"
  by (induction ys) auto

lemma mset_insertion_loop: "mset (insertion_loop cmp p xs) = mset p + mset xs"
  by (induction xs arbitrary: p) auto

lemma insert_back_sorted:
  "cmp_linear cmp (insert x (set ys)) \<Longrightarrow> x \<notin> set ys \<Longrightarrow>
   sorted_wrt (\<lambda>a b. cmp b a < 0) ys \<Longrightarrow> sorted_wrt (\<lambda>a b. cmp b a < 0) (insert_back cmp x ys)"
proof (induction ys)
  case (Cons y ys)
  have sub: "cmp_linear cmp (insert x (set ys))"
    by (rule cmp_linear_subset[OF Cons.prems(1)]) auto
  show ?case
  proof (cases "cmp x y < 0")
    case True
    with Cons sub show ?thesis by auto
  next
    case False
    with cmp_linearD(2)[OF Cons.prems(1), of x y] Cons.prems(2) have "cmp y x < 0" by auto
    with Cons.prems cmp_linearD(3)[OF Cons.prems(1), of _ y x] False show ?thesis by auto
  qed
qed simp

lemma insertion_loop_sorted:
  "cmp_linear cmp (set p \<union> set xs) \<Longrightarrow> distinct (p @ xs) \<Longrightarrow> sorted_wrt (\<lambda>a b. cmp b a < 0) p \<Longrightarrow>
   sorted_wrt (\<lambda>a b. cmp a b < 0) (insertion_loop cmp p xs)"
proof (induction xs arbitrary: p)
  case Nil
  then show ?case by (simp add: sorted_wrt_rev)
next
  case (Cons x xs)
  have "sorted_wrt (\<lambda>a b. cmp b a < 0) (insert_back cmp x p)"
    using Cons.prems by (intro insert_back_sorted) (auto intro: cmp_linear_subset)
  moreover have "distinct (insert_back cmp x p)"
    using Cons.prems(2) mset_eq_imp_distinct_iff[OF mset_insert_back[of cmp x p]] by auto
  ultimately show ?case using Cons by auto
qed

interpretation go_sort: sorter insertion_sort
  by unfold_locales (auto simp: insertion_sort_def mset_insertion_loop intro: insertion_loop_sorted)

subsection \<open>The binding\<close>

datatype create_flag =
    DOMAIN_SNAPSHOT_CREATE_ATOMIC | DOMAIN_SNAPSHOT_CREATE_DISK_ONLY | DOMAIN_SNAPSHOT_CREATE_QUIESCE

datatype revert_flag =
    DOMAIN_SNAPSHOT_REVERT_RUNNING | DOMAIN_SNAPSHOT_REVERT_PAUSED | DOMAIN_SNAPSHOT_REVERT_FORCE

datatype delete_flag = DOMAIN_SNAPSHOT_DELETE_CHILDREN

text \<open>The binding's snapshot calls; flags that Go combines with bitwise or are sets.\<close>

record ('w, 'd) lv_snapshots = "('w, 'd) lv_query" +
  SnapshotCurrent :: "'d \<Rightarrow> 'w \<Rightarrow> (lverr + 'd) \<times> 'w"
  snapGetName :: "'d \<Rightarrow> 'w \<Rightarrow> (lverr + string) \<times> 'w"
  snapFree :: "'d \<Rightarrow> 'w \<Rightarrow> unit \<times> 'w"
  ListAllSnapshots :: "'d \<Rightarrow> 'w \<Rightarrow> (lverr + 'd list) \<times> 'w"
  snapGetXMLDesc :: "'d \<Rightarrow> 'w \<Rightarrow> (lverr + string) \<times> 'w"
  CreateSnapshotXML :: "string \<Rightarrow> create_flag set \<Rightarrow> 'd \<Rightarrow> 'w \<Rightarrow> (lverr + 'd) \<times> 'w"
  SnapshotLookupByName :: "string \<Rightarrow> 'd \<Rightarrow> 'w \<Rightarrow> (lverr + 'd) \<times> 'w"
  RevertToSnapshot :: "revert_flag set \<Rightarrow> 'd \<Rightarrow> 'w \<Rightarrow> (lverr + unit) \<times> 'w"
  snapDelete :: "delete_flag set \<Rightarrow> 'd \<Rightarrow> 'w \<Rightarrow> (lverr + unit) \<times> 'w"

definition ask_handle ::
  "query \<Rightarrow> 'd \<Rightarrow> ('d \<Rightarrow> 'w \<Rightarrow> (lverr + 'd) \<times> 'w) \<Rightarrow> ('w, 'd, lverr + 'd) io" where
  "ask_handle q d f = call (\<lambda>r. CQuery q d (given (to_option r))) (f d)"

definition ask_handles ::
  "query \<Rightarrow> 'd \<Rightarrow> ('d \<Rightarrow> 'w \<Rightarrow> (lverr + 'd list) \<times> 'w) \<Rightarrow> ('w, 'd, lverr + 'd list) io" where
  "ask_handles q d f = call (\<lambda>r. CQuery q d (case r of Inl _ \<Rightarrow> [] | Inr ds \<Rightarrow> ds)) (f d)"

definition mutate_handle ::
  "mutation \<Rightarrow> 'd \<Rightarrow> ('d \<Rightarrow> 'w \<Rightarrow> (lverr + 'd) \<times> 'w) \<Rightarrow> ('w, 'd, lverr + 'd) io" where
  "mutate_handle m d f = call (\<lambda>r. CMutate m d (given (to_option r))) (f d)"

definition freeSnapshot :: "('w, 'd, 'x) lv_snapshots_scheme \<Rightarrow> 'd \<Rightarrow> ('w, 'd, unit) io" where
  "freeSnapshot lv s = call (\<lambda>_. CFree s) (snapFree lv s)"

subsection \<open>Flags, errors and definitions\<close>

definition snapshotCreateFlags :: "SnapshotCreateRequest \<Rightarrow> create_flag set" where
  "snapshotCreateFlags request =
     {DOMAIN_SNAPSHOT_CREATE_ATOMIC} \<union>
     (if scr_Kind request = SnapshotKindDisk then {DOMAIN_SNAPSHOT_CREATE_DISK_ONLY} else {}) \<union>
     (if scr_Quiesce request then {DOMAIN_SNAPSHOT_CREATE_QUIESCE} else {})"

definition snapshotRevertFlags :: "SnapshotRevertRequest \<Rightarrow> revert_flag set" where
  "snapshotRevertFlags request =
     (if srr_State request = SnapshotRevertRunning then {DOMAIN_SNAPSHOT_REVERT_RUNNING}
      else if srr_State request = SnapshotRevertPaused then {DOMAIN_SNAPSHOT_REVERT_PAUSED}
      else {}) \<union>
     (if srr_Force request then {DOMAIN_SNAPSHOT_REVERT_FORCE} else {})"

definition snapshotDeleteFlags :: "bool \<Rightarrow> delete_flag set" where
  "snapshotDeleteFlags children = (if children then {DOMAIN_SNAPSHOT_DELETE_CHILDREN} else {})"

definition snapshotLookupError :: "string \<Rightarrow> string \<Rightarrow> lverr \<Rightarrow> goerr" where
  "snapshotLookupError domainName snapshotName err =
     (if lv_is err ERR_NO_DOMAIN_SNAPSHOT then
        Wrap [] (Sentinel ErrSnapshotNotFound)
          [Lit '': snapshot '', Quo snapshotName, Lit '' for domain '', Quo domainName]
      else Wrap [Lit ''look up snapshot '', Quo snapshotName, Lit '' for domain '', Quo domainName, Lit '': '']
        (Lib err) [])"

definition snapshotOperationError :: "string \<Rightarrow> string \<Rightarrow> string \<Rightarrow> lverr \<Rightarrow> goerr" where
  "snapshotOperationError operation domainName snapshotName err =
     (if lv_is err ERR_OPERATION_INVALID then
        Wrap [] (Sentinel ErrConflict)
          [Lit '': cannot '', Lit operation, Lit '' snapshot '', Quo snapshotName,
           Lit '' for domain '', Quo domainName]
      else if lv_is err ERR_NO_SUPPORT \<or> lv_is err ERR_OPERATION_UNSUPPORTED \<or>
              lv_is err ERR_CONFIG_UNSUPPORTED then
        Wrap [] (Sentinel ErrUnsupported)
          [Lit '': cannot '', Lit operation, Lit '' snapshot '', Quo snapshotName,
           Lit '' for domain '', Quo domainName]
      else Wrap [Lit operation, Lit '' snapshot '', Quo snapshotName, Lit '' for domain '',
                 Quo domainName, Lit '': ''] (Lib err) [])"

text \<open>\<open>xml.Marshal\<close> of \<open>snapshotCreateXML\<close>; an empty description is omitted.\<close>

definition xml_element :: "string \<Rightarrow> string \<Rightarrow> string" where
  "xml_element tag content = ''<'' @ tag @ ''>'' @ content @ ''</'' @ tag @ ''>''"

definition snapshotCreateXML :: "SnapshotCreateRequest \<Rightarrow> string" where
  "snapshotCreateXML request = xml_element ''domainsnapshot''
     (xml_element ''name'' (escape_text (scr_Name request)) @
      (if scr_Description request = [] then []
       else xml_element ''description'' (escape_text (scr_Description request))))"

record snapshotXML =
  sx_Name :: string
  sx_Description :: string
  sx_State :: string
  sx_CreationTime :: int
  sx_ParentName :: string

definition decode_snapshotXML :: "xml_node \<Rightarrow> snapshotXML option" where
  "decode_snapshotXML e =
     (if node_name e \<noteq> Some ''domainsnapshot'' then None
      else (case child_int64 ''creationTime'' 0 e of
          None \<Rightarrow> None
        | Some created \<Rightarrow> Some
           \<lparr>sx_Name = child_text ''name'' [] e, sx_Description = child_text ''description'' [] e,
            sx_State = child_text ''state'' [] e, sx_CreationTime = created,
            sx_ParentName = foldl (child_text ''name'') [] (children_named ''parent'' e)\<rparr>))"

definition parseSnapshotDefinition ::
  "(string \<Rightarrow> xml_node option) \<Rightarrow> string \<Rightarrow> string \<Rightarrow> goerr + Snapshot" where
  "parseSnapshotDefinition root definition_xml currentName =
     (case Option.bind (root definition_xml) decode_snapshotXML of
        None \<Rightarrow> Inl (Wrap [Lit ''decode snapshot XML: ''] xml_error [])
      | Some parsed \<Rightarrow> Inr
         \<lparr>snap_Name = sx_Name parsed, snap_Description = sx_Description parsed,
          snap_Parent = sx_ParentName parsed, snap_State = sx_State parsed,
          snap_CreatedAt = (if sx_CreationTime parsed > 0
                            then Some (time_unix (word_of_int (sx_CreationTime parsed))) else None),
          snap_Current = (sx_Name parsed = currentName)\<rparr>)"

definition snapshotMetadata ::
  "('w, 'd, 'x) lv_snapshots_scheme \<Rightarrow> 'd \<Rightarrow> string \<Rightarrow> ('w, 'd, goerr + Snapshot) io" where
  "snapshotMetadata lv snapshot currentName = do {
     r \<leftarrow> ask QGetXMLDesc snapshot (snapGetXMLDesc lv);
     State_Monad.return (case r of
         Inl err \<Rightarrow> Inl (Wrap [Lit ''get snapshot XML: ''] (Lib err) [])
       | Inr xml \<Rightarrow> parseSnapshotDefinition (xml_root lv) xml currentName)
   }"

text \<open>The comparison of lines 70 to 84.\<close>

definition compareSnapshots :: "Snapshot \<Rightarrow> Snapshot \<Rightarrow> int" where
  "compareSnapshots left right =
     (case (snap_CreatedAt left, snap_CreatedAt right) of
        (Some l, Some r) \<Rightarrow>
          if l \<noteq> r then (if time_before l r then - 1 else 1)
          else if snap_Name left < snap_Name right then - 1
          else if snap_Name left > snap_Name right then 1 else 0
      | _ \<Rightarrow>
          if snap_Name left < snap_Name right then - 1
          else if snap_Name left > snap_Name right then 1 else 0)"

subsection \<open>Operations\<close>

fun metadata_loop ::
  "('w, 'd, 'x) lv_snapshots_scheme \<Rightarrow> string \<Rightarrow> 'd list \<Rightarrow> Snapshot list \<Rightarrow>
     ('w, 'd, goerr + Snapshot list) io" where
  "metadata_loop lv currentName [] result = State_Monad.return (Inr result)"
| "metadata_loop lv currentName (item # items) result = do {
     r \<leftarrow> snapshotMetadata lv item currentName;
     case r of
       Inl err \<Rightarrow> State_Monad.return (Inl err)
     | Inr snapshot \<Rightarrow> metadata_loop lv currentName items (result @ [snapshot])
   }"

definition currentSnapshotName ::
  "('w, 'd, 'x) lv_snapshots_scheme \<Rightarrow> string \<Rightarrow> 'd \<Rightarrow> ('w, 'd, goerr + string) io" where
  "currentSnapshotName lv identifier domain = do {
     r \<leftarrow> ask_handle QSnapshotCurrent domain (SnapshotCurrent lv);
     case r of
       Inr current \<Rightarrow> do {
         n \<leftarrow> ask QGetName current (snapGetName lv);
         freeSnapshot lv current;
         State_Monad.return (case n of
             Inl err \<Rightarrow> Inl (Wrap [Lit ''get current snapshot name for domain '', Quo identifier, Lit '': ''] (Lib err) [])
           | Inr name \<Rightarrow> Inr name)
       }
     | Inl err \<Rightarrow>
       if \<not> lv_is err ERR_NO_DOMAIN_SNAPSHOT then
         failed [Lit ''get current snapshot for domain '', Quo identifier, Lit '': ''] err
       else State_Monad.return (Inr [])
   }"

definition ListSnapshots ::
  "((Snapshot \<Rightarrow> Snapshot \<Rightarrow> int) \<Rightarrow> Snapshot list \<Rightarrow> Snapshot list) \<Rightarrow>
     ('w, 'd, 'x) lv_snapshots_scheme \<Rightarrow> string \<Rightarrow> ('w, 'd, goerr + Snapshot list) io" where
  "ListSnapshots sort_func lv identifier = withDomain lv identifier (\<lambda>domain. do {
     c \<leftarrow> currentSnapshotName lv identifier domain;
     case c of
       Inl err \<Rightarrow> State_Monad.return (Inl err)
     | Inr currentName \<Rightarrow> do {
         r \<leftarrow> ask_handles QSnapshots domain (ListAllSnapshots lv);
         case r of
           Inl err \<Rightarrow> failed [Lit ''list snapshots for domain '', Quo identifier, Lit '': ''] err
         | Inr items \<Rightarrow> deferring (free_all (freeSnapshot lv) items) (do {
             m \<leftarrow> metadata_loop lv currentName items [];
             State_Monad.return (case m of
                 Inl err \<Rightarrow> Inl err
               | Inr result \<Rightarrow> Inr (sort_func compareSnapshots result))
           })
       }
   })"

text \<open>
  What the request's context answers: the error if it is done before the lock is taken,
  and the error at the check just before the call that changes the domain.
\<close>

record Context =
  ctx_lock :: "ctx_err option"
  ctx_check :: "ctx_err option"

definition withSnapshotLock ::
  "Context \<Rightarrow> string \<Rightarrow> string \<Rightarrow> string \<Rightarrow> ('w, 'd, goerr + 'a) io \<Rightarrow> ('w, 'd, goerr + 'a) io" where
  "withSnapshotLock ctx action name uuid body =
     (case ctx_lock ctx of
        Some err \<Rightarrow> State_Monad.return
          (Inl (Wrap [Lit action, Lit '' snapshot for domain '', Quo name, Lit '': ''] (Ctx err) []))
      | None \<Rightarrow> withActionLock uuid body)"

definition unlessDone ::
  "Context \<Rightarrow> string \<Rightarrow> string \<Rightarrow> ('w, 'd, goerr + 'a) io \<Rightarrow> ('w, 'd, goerr + 'a) io" where
  "unlessDone ctx action name body =
     (case ctx_check ctx of
        Some err \<Rightarrow> State_Monad.return
          (Inl (Wrap [Lit action, Lit '' snapshot for domain '', Quo name, Lit '': ''] (Ctx err) []))
      | None \<Rightarrow> body)"

definition CreateSnapshot ::
  "('w, 'd, 'x) lv_snapshots_scheme \<Rightarrow> Context \<Rightarrow> string \<Rightarrow> SnapshotCreateRequest \<Rightarrow>
     ('w, 'd, goerr + Snapshot) io" where
  "CreateSnapshot lv ctx identifier request = withDomain lv identifier (\<lambda>domain.
     withIdentity lv domain (\<lambda>name uuid.
       withSnapshotLock ctx ''create'' name uuid (unlessDone ctx ''create'' name (do {
         r \<leftarrow> mutate_handle MSnapshotCreate domain
           (CreateSnapshotXML lv (snapshotCreateXML request) (snapshotCreateFlags request));
         case r of
           Inl err \<Rightarrow> State_Monad.return
             (Inl (snapshotOperationError ''create'' name (scr_Name request) err))
         | Inr created \<Rightarrow> deferring (freeSnapshot lv created)
             (snapshotMetadata lv created (scr_Name request))
       }))))"

text \<open>Lines 136 to 140 and 167 to 171: the snapshot is looked up and freed at the end.\<close>

definition withSnapshot ::
  "('w, 'd, 'x) lv_snapshots_scheme \<Rightarrow> 'd \<Rightarrow> string \<Rightarrow> string \<Rightarrow> ('d \<Rightarrow> ('w, 'd, goerr + 'a) io) \<Rightarrow>
     ('w, 'd, goerr + 'a) io" where
  "withSnapshot lv domain name snapshotName body = do {
     r \<leftarrow> ask_handle (QSnapshotByName snapshotName) domain (SnapshotLookupByName lv snapshotName);
     case r of
       Inl err \<Rightarrow> State_Monad.return (Inl (snapshotLookupError name snapshotName err))
     | Inr snapshot \<Rightarrow> deferring (freeSnapshot lv snapshot) (body snapshot)
   }"

definition RevertSnapshot ::
  "('w, 'd, 'x) lv_snapshots_scheme \<Rightarrow> Context \<Rightarrow> string \<Rightarrow> string \<Rightarrow> SnapshotRevertRequest \<Rightarrow>
     ('w, 'd, goerr + SnapshotActionResult) io" where
  "RevertSnapshot lv ctx identifier snapshotName request = withDomain lv identifier (\<lambda>domain.
     withIdentity lv domain (\<lambda>name uuid.
       withSnapshotLock ctx ''revert'' name uuid (withSnapshot lv domain name snapshotName (\<lambda>snapshot.
         unlessDone ctx ''revert'' name (do {
           e \<leftarrow> mutate MSnapshotRevert snapshot (RevertToSnapshot lv (snapshotRevertFlags request));
           State_Monad.return (case e of
               Inl err \<Rightarrow> Inl (snapshotOperationError ''revert to'' name snapshotName err)
             | Inr _ \<Rightarrow> Inr \<lparr>sar_Name = name, sar_UUID = uuid, sar_Snapshot = snapshotName,
                             sar_Status = ''reverted''\<rparr>)
         })))))"

definition DeleteSnapshot ::
  "('w, 'd, 'x) lv_snapshots_scheme \<Rightarrow> Context \<Rightarrow> string \<Rightarrow> string \<Rightarrow> bool \<Rightarrow> ('w, 'd, goerr + unit) io" where
  "DeleteSnapshot lv ctx identifier snapshotName children = withDomain lv identifier (\<lambda>domain.
     withIdentity lv domain (\<lambda>name uuid.
       withSnapshotLock ctx ''delete'' name uuid (withSnapshot lv domain name snapshotName (\<lambda>snapshot.
         unlessDone ctx ''delete'' name (do {
           e \<leftarrow> mutate MSnapshotDelete snapshot (snapDelete lv (snapshotDeleteFlags children));
           State_Monad.return (case e of
               Inl err \<Rightarrow> Inl (snapshotOperationError ''delete'' name snapshotName err)
             | Inr _ \<Rightarrow> Inr ())
         })))))"

subsection \<open>The call discipline of the snapshot operations\<close>

lemma triple_freeSnapshot:
  "triple (at (Mon {#d, x#} l)) (freeSnapshot lv x) (\<lambda>_. at (Mon {#d#} l))"
  by (rule tripleI) (auto simp: freeSnapshot_def run_call at_def)

lemma triple_free_snapshots:
  "triple (at (Mon (add_mset d (mset xs)) l)) (free_all (freeSnapshot lv) xs) (\<lambda>_. at (Mon {#d#} l))"
proof (induction xs)
  case Nil
  then show ?case by (auto intro: triple_return)
next
  case (Cons x xs)
  have "triple (at (Mon (add_mset d (mset (x # xs))) l)) (freeSnapshot lv x)
      (\<lambda>_. at (Mon (add_mset d (mset xs)) l))"
    by (rule tripleI) (auto simp: freeSnapshot_def run_call at_def)
  then show ?case by (simp del: mset.simps) (rule triple_bind[OF _ Cons.IH])
qed

lemma snapshotLookupError_presentable [simp]: "presentable (snapshotLookupError n s e)"
  by (simp add: snapshotLookupError_def)

lemma snapshotOperationError_presentable [simp]: "presentable (snapshotOperationError a n s e)"
  by (simp add: snapshotOperationError_def)

lemma parseSnapshotDefinition_sound [simp]: "sound_result (parseSnapshotDefinition root x c)"
  by (simp add: parseSnapshotDefinition_def xml_error_def split: option.split)

lemma snapshotMetadata_sound:
  "x \<in># hs \<Longrightarrow> triple (at (Mon hs l)) (snapshotMetadata lv x c) (\<lambda>r s. at (Mon hs l) s \<and> sound_result r)"
  unfolding snapshotMetadata_def by (rule asked_steps | simp split: sum.split)+

lemma metadata_loop_sound:
  "set xs \<subseteq> set_mset hs \<Longrightarrow>
   triple (at (Mon hs l)) (metadata_loop lv c xs acc) (\<lambda>r s. at (Mon hs l) s \<and> sound_result r)"
proof (induction xs arbitrary: acc)
  case (Cons x xs)
  then have "x \<in># hs" and "set xs \<subseteq> set_mset hs" by simp_all
  with Cons.IH show ?case
    by (simp, intro triple_bind[OF snapshotMetadata_sound] triple_sum)
       (auto intro!: triple_return triple_weaken[OF Cons.IH])
qed (auto intro: triple_return)

lemma currentSnapshotName_sound:
  "triple (at (Held d)) (currentSnapshotName lv n d) (\<lambda>r s. at (Held d) s \<and> sound_result r)"
proof -
  have cur: "triple (at (Held d)) (ask_handle QSnapshotCurrent d (SnapshotCurrent lv))
      (\<lambda>r. at (case r of Inl _ \<Rightarrow> Held d | Inr x \<Rightarrow> Mon {#d, x#} None))"
    by (rule tripleI) (auto simp: ask_handle_def run_call at_def split: sum.split)
  show ?thesis
    unfolding currentSnapshotName_def
    by (rule triple_bind[OF cur] triple_bind[OF triple_ask] triple_bind[OF triple_freeSnapshot] triple_rules
         | simp split: sum.split)+
qed

lemma ListSnapshots_sound:
  "triple (at NoHandle) (ListSnapshots sort_func lv n) (\<lambda>r s. at NoHandle s \<and> sound_result r)"
proof -
  have l: "triple (at (Held d)) (ask_handles QSnapshots d (ListAllSnapshots lv))
      (\<lambda>r. at (Mon (add_mset d (mset (case r of Inl _ \<Rightarrow> [] | Inr xs \<Rightarrow> xs))) None))" for d
    by (rule tripleI) (auto simp: ask_handles_def run_call at_def split: sum.split)
  have b: "triple (at (Mon (add_mset d (mset xs)) None))
      (do {
         m \<leftarrow> metadata_loop lv c xs [];
         State_Monad.return (case m of
             Inl err \<Rightarrow> Inl err
           | Inr result \<Rightarrow> Inr (sort_func compareSnapshots result))
       }) (\<lambda>r s. at (Mon (add_mset d (mset xs)) None) s \<and> sound_result r)" for d xs c
    by (rule triple_bind[OF metadata_loop_sound], simp add: subset_insertI, rule triple_return)
       (auto split: sum.split)
  show ?thesis
    unfolding ListSnapshots_def
    apply (rule triple_withDomain, rule triple_bind[OF currentSnapshotName_sound], rule triple_sum)
     apply (auto intro: triple_return)[1]
    apply (simp, rule triple_bind[OF l], rule triple_sum)
     apply (auto intro: triple_return)[1]
    apply (simp, rule triple_deferring[OF b triple_free_snapshots])
    done
qed

lemma withSnapshotLock_sound:
  assumes "triple (at (Locked d uuid)) body (\<lambda>r s. at (Locked d uuid) s \<and> sound_result r)"
  shows "triple (at (Held d)) (withSnapshotLock ctx action name uuid body)
    (\<lambda>r s. at (Held d) s \<and> sound_result r)"
  unfolding withSnapshotLock_def
  by (auto intro!: triple_return triple_withActionLock[OF assms] split: option.split)

lemma unlessDone_sound:
  assumes "triple (at m) body (\<lambda>r s. at m s \<and> sound_result r)"
  shows "triple (at m) (unlessDone ctx action name body) (\<lambda>r s. at m s \<and> sound_result r)"
  unfolding unlessDone_def by (auto intro!: triple_return assms split: option.split)

lemma withSnapshot_sound:
  assumes "\<And>x. triple (at (Mon {#d, x#} (Some u))) (body x) (\<lambda>r s. at (Mon {#d, x#} (Some u)) s \<and> sound_result r)"
  shows "triple (at (Locked d u)) (withSnapshot lv d name sn body) (\<lambda>r s. at (Locked d u) s \<and> sound_result r)"
proof -
  have l: "triple (at (Locked d u)) (ask_handle (QSnapshotByName sn) d (SnapshotLookupByName lv sn))
      (\<lambda>r. at (case r of Inl _ \<Rightarrow> Locked d u | Inr x \<Rightarrow> Mon {#d, x#} (Some u)))"
    by (rule tripleI) (auto simp: ask_handle_def run_call at_def split: sum.split)
  show ?thesis
    unfolding withSnapshot_def
    by (rule triple_bind[OF l], rule triple_sum)
       (auto intro!: triple_return triple_deferring[OF assms triple_freeSnapshot])
qed

lemma CreateSnapshot_sound:
  "triple (at NoHandle) (CreateSnapshot lv ctx n req) (\<lambda>r s. at NoHandle s \<and> sound_result r)"
proof -
  have c: "triple (at (Locked d u)) (mutate_handle MSnapshotCreate d f)
      (\<lambda>r. at (case r of Inl _ \<Rightarrow> Locked d u | Inr x \<Rightarrow> Mon {#d, x#} (Some u)))" for d u f
    by (rule tripleI) (auto simp: mutate_handle_def run_call at_def split: sum.split)
  show ?thesis
    unfolding CreateSnapshot_def
    by (rule triple_withDomain triple_withIdentity withSnapshotLock_sound unlessDone_sound)+
       (rule triple_bind[OF c], rule triple_sum,
        auto intro!: triple_return triple_deferring[OF snapshotMetadata_sound triple_freeSnapshot])
qed

lemma RevertSnapshot_sound:
  "triple (at NoHandle) (RevertSnapshot lv ctx n sn req) (\<lambda>r s. at NoHandle s \<and> sound_result r)"
  unfolding RevertSnapshot_def
  by (rule triple_withDomain triple_withIdentity withSnapshotLock_sound withSnapshot_sound unlessDone_sound)+
     (rule triple_bind[OF triple_mutate_any] triple_rules | simp split: sum.split)+

lemma DeleteSnapshot_sound:
  "triple (at NoHandle) (DeleteSnapshot lv ctx n sn ch) (\<lambda>r s. at NoHandle s \<and> sound_result r)"
  unfolding DeleteSnapshot_def
  by (rule triple_withDomain triple_withIdentity withSnapshotLock_sound withSnapshot_sound unlessDone_sound)+
     (rule triple_bind[OF triple_mutate_any] triple_rules | simp split: sum.split)+

subsection \<open>The order of a list of snapshots\<close>

definition snapshot_before :: "Snapshot \<Rightarrow> Snapshot \<Rightarrow> bool" where
  "snapshot_before a b \<longleftrightarrow>
     time_before (the (snap_CreatedAt a)) (the (snap_CreatedAt b)) \<or>
     snap_CreatedAt a = snap_CreatedAt b \<and> snap_Name a < snap_Name b"

lemma compareSnapshots_before:
  "snap_CreatedAt a \<noteq> None \<Longrightarrow> snap_CreatedAt b \<noteq> None \<Longrightarrow>
   compareSnapshots a b < 0 \<longleftrightarrow> snapshot_before a b"
  by (auto simp: compareSnapshots_def snapshot_before_def time_before_def split: if_splits)

lemma time_before_total: "t \<noteq> u \<Longrightarrow> time_before t u \<or> time_before u t"
proof -
  assume "t \<noteq> u"
  then have "sint t \<noteq> sint u" by (metis of_int_sint scast_id)
  then show ?thesis by (auto simp: time_before_def)
qed

lemma compare_linear:
  assumes "\<forall>a \<in> S. snap_CreatedAt a \<noteq> None" and "inj_on snap_Name S"
  shows "cmp_linear compareSnapshots S"
  unfolding cmp_linear_def
proof (intro conjI ballI impI)
  fix a b assume ab: "a \<in> S" "b \<in> S" "a \<noteq> b"
  then have n: "snap_Name a \<noteq> snap_Name b" using assms(2) by (auto dest: inj_onD)
  from ab assms(1) obtain t u where t: "snap_CreatedAt a = Some t" "snap_CreatedAt b = Some u" by blast
  with n show "compareSnapshots a b < 0 \<or> compareSnapshots b a < 0"
    using time_before_total[of t u] by (cases "t = u") (auto simp: compareSnapshots_before snapshot_before_def)
qed (use assms(1) in \<open>auto simp: compareSnapshots_before snapshot_before_def time_before_def\<close>)

subsection \<open>Reading a definition back\<close>

text \<open>
  A reader for documents of plain elements, with a bound on the number of items; it shows
  that the parameter which reads XML has an instance that understands what is written.
\<close>

fun read_items :: "nat \<Rightarrow> string \<Rightarrow> (xml_node list \<times> string) option" where
  "read_items 0 s = None"
| "read_items (Suc k) s =
     (case s of
        [] \<Rightarrow> Some ([], [])
      | c # cs \<Rightarrow>
        if c = CHR ''<'' then
          (if take 1 cs = ''/'' then Some ([], s)
           else (case cut_at (CHR ''>'') cs of
             (tag, body, found) \<Rightarrow>
               if \<not> found then None
               else (case read_items k body of
                  None \<Rightarrow> None
                | Some (kids, rest) \<Rightarrow>
                  let close_tag = ''</'' @ tag @ ''>'' in
                  if take (length close_tag) rest \<noteq> close_tag then None
                  else map_option (\<lambda>(items, r). (Element tag [] kids # items, r))
                    (read_items k (drop (length close_tag) rest)))))
        else (case read_text s of
            None \<Rightarrow> None
          | Some (t, rest) \<Rightarrow> map_option (\<lambda>(items, r). (Chars t # items, r)) (read_items k rest)))"

definition read_document :: "string \<Rightarrow> xml_node option" where
  "read_document s = (case read_items 10 s of Some (e # _, []) \<Rightarrow> Some e | _ \<Rightarrow> None)"

definition text_node :: "string \<Rightarrow> xml_node list" where
  "text_node s = (if s = [] then [] else [Chars s])"

lemma read_items_end: "read_items (Suc k) (CHR ''<'' # CHR ''/'' # t) = Some ([], CHR ''<'' # CHR ''/'' # t)"
  by simp

lemma escape_text_head: "s \<noteq> [] \<Longrightarrow> xml_clean s \<Longrightarrow> \<exists>c cs. escape_text s = c # cs \<and> c \<noteq> CHR ''<''"
proof -
  assume s: "s \<noteq> []" "xml_clean s"
  then have "escape_text s \<noteq> []"
    using read_escape_text[of s "[]"] by (auto simp: read_text.simps)
  with escape_text_no_markup[of s] show ?thesis by (cases "escape_text s") auto
qed

lemma read_items_text:
  assumes "xml_clean s"
  shows "read_items (Suc (Suc k)) (escape_text s @ CHR ''<'' # CHR ''/'' # t) =
    Some (text_node s, CHR ''<'' # CHR ''/'' # t)"
proof (cases "s = []")
  case True
  then show ?thesis by (simp add: escape_text_def text_node_def)
next
  case False
  then obtain c cs where e: "escape_text s = c # cs" "c \<noteq> CHR ''<''"
    using escape_text_head assms by blast
  then show ?thesis
    using read_escape_text[OF assms, of "CHR ''/'' # t"] False
    by (simp add: text_node_def)
qed

lemma read_items_element:
  assumes "CHR ''>'' \<notin> set tag" and "take 1 tag \<noteq> ''/''" and "tag \<noteq> []"
    and "\<And>t. read_items k (content @ CHR ''<'' # CHR ''/'' # t) = Some (kids, CHR ''<'' # CHR ''/'' # t)"
  shows "read_items (Suc k) (xml_element tag content @ rest) =
    map_option (\<lambda>(items, r). (Element tag [] kids # items, r)) (read_items k rest)"
  using assms by (cases tag) (auto simp: xml_element_def cut_at_present)

lemma read_definition:
  assumes "xml_clean (scr_Name q)" and "xml_clean (scr_Description q)"
  shows "read_document (snapshotCreateXML q) = Some (Element ''domainsnapshot'' []
    (Element ''name'' [] (text_node (scr_Name q)) #
     (if scr_Description q = [] then []
      else [Element ''description'' [] (text_node (scr_Description q))])))"
proof -
  let ?n = "xml_element ''name'' (escape_text (scr_Name q))"
  let ?d = "xml_element ''description'' (escape_text (scr_Description q))"
  let ?D = "if scr_Description q = [] then [] else ?d"
  let ?kids = "Element ''name'' [] (text_node (scr_Name q)) #
     (if scr_Description q = [] then []
      else [Element ''description'' [] (text_node (scr_Description q))])"
  have n: "read_items (Suc (Suc (Suc k))) (?n @ rest) =
      map_option (\<lambda>(items, r). (Element ''name'' [] (text_node (scr_Name q)) # items, r))
        (read_items (Suc (Suc k)) rest)" for k rest
    by (rule read_items_element) (simp_all add: read_items_text[OF assms(1)] del: read_items.simps)
  have d: "read_items (Suc (Suc (Suc k))) (?d @ rest) =
      map_option (\<lambda>(items, r). (Element ''description'' [] (text_node (scr_Description q)) # items, r))
        (read_items (Suc (Suc k)) rest)" for k rest
    by (rule read_items_element) (simp_all add: read_items_text[OF assms(2)] del: read_items.simps)
  have kids: "read_items (Suc (Suc (Suc (Suc k)))) ((?n @ ?D) @ CHR ''<'' # CHR ''/'' # t) =
      Some (?kids, CHR ''<'' # CHR ''/'' # t)" for k t
    by (simp add: n d read_items_end del: read_items.simps)
  have root: "read_items (Suc (Suc (Suc (Suc (Suc k))))) (xml_element ''domainsnapshot'' (?n @ ?D) @ []) =
      map_option (\<lambda>(items, r). (Element ''domainsnapshot'' [] ?kids # items, r))
        (read_items (Suc (Suc (Suc (Suc k)))) [])" for k
    by (rule read_items_element) (simp_all only: kids, simp_all)
  have "read_items (Suc (Suc (Suc (Suc (Suc 5))))) (snapshotCreateXML q) =
      map_option (\<lambda>(items, r). (Element ''domainsnapshot'' [] ?kids # items, r))
        (read_items (Suc (Suc (Suc (Suc 5)))) [])"
    using root[of 5] by (simp only: snapshotCreateXML_def append_Nil2)
  moreover have "(10 :: nat) = Suc (Suc (Suc (Suc (Suc 5))))" by simp
  ultimately show ?thesis by (simp only: read_document_def read_items.simps) simp
qed

subsection \<open>The changes a snapshot operation can make\<close>

lemma changing_handles [changing_intros]:
  "changing A (ask_handle q d g)" "changing A (ask_handles q d h)" "changing A (freeSnapshot slv d)"
  by (simp_all add: ask_handle_def ask_handles_def freeSnapshot_def changing_call)

lemma changing_mutate_handle [changing_intros]: "m \<in> A \<Longrightarrow> changing A (mutate_handle m d f)"
  by (simp add: mutate_handle_def changing_call)

lemma changing_withSnapshotLock [changing_intros]:
  "(ctx_lock ctx = None \<Longrightarrow> changing A body) \<Longrightarrow> changing A (withSnapshotLock ctx a n u body)"
  unfolding withSnapshotLock_def by (intro changing_intros)

lemma changing_withSnapshot [changing_intros]:
  "(\<And>x. changing A (body x)) \<Longrightarrow> changing A (withSnapshot lv d n sn body)"
  unfolding withSnapshot_def by (intro changing_intros)

lemma changing_unlessDone [changing_intros]:
  "(ctx_check ctx = None \<Longrightarrow> changing A body) \<Longrightarrow> changing A (unlessDone ctx a n body)"
  unfolding unlessDone_def by (intro changing_intros)

lemma changing_snapshotMetadata [changing_intros]: "changing A (snapshotMetadata lv x y)"
  unfolding snapshotMetadata_def by (intro changing_intros)

lemma changing_metadata_loop [changing_intros]: "changing A (metadata_loop lv cur items acc)"
  by (induction items arbitrary: acc) (auto intro!: changing_intros)

lemma changing_ListSnapshots: "changing A (ListSnapshots sort_func lv n)"
  unfolding ListSnapshots_def currentSnapshotName_def by (intro changing_intros)

lemma changing_CreateSnapshot:
  "ctx_lock ctx = None \<and> ctx_check ctx = None \<longrightarrow> MSnapshotCreate \<in> A \<Longrightarrow> changing A (CreateSnapshot lv ctx n q)"
  unfolding CreateSnapshot_def by (intro changing_intros) simp_all

lemma changing_RevertSnapshot:
  "ctx_lock ctx = None \<and> ctx_check ctx = None \<longrightarrow> MSnapshotRevert \<in> A \<Longrightarrow> changing A (RevertSnapshot lv ctx n sn q)"
  unfolding RevertSnapshot_def by (intro changing_intros) simp_all

lemma changing_DeleteSnapshot:
  "ctx_lock ctx = None \<and> ctx_check ctx = None \<longrightarrow> MSnapshotDelete \<in> A \<Longrightarrow> changing A (DeleteSnapshot lv ctx n sn c)"
  unfolding DeleteSnapshot_def by (intro changing_intros) simp_all

text \<open>Operations that change nothing.\<close>

fun changes :: "'d call \<Rightarrow> bool" where
  "changes (CMutate _ _ _) = True"
| "changes _ = False"

lemma within_nothing: "within_call {} c \<longleftrightarrow> \<not> changes c"
  by (cases c) simp_all

lemma keeps_quietD:
  "changing {} m \<Longrightarrow>
   list_all (\<lambda>c. \<not> changes c) (calls (snd (run_state m \<lparr>world = w, calls = []\<rparr>)))"
  using changingD[of "{}" m w] by (simp add: within_nothing list_all_iff)

subsection \<open>The contract of the snapshot operations\<close>

text \<open>
  C28: The snapshots of a domain whose creation times are known are listed by time and
  then by name, and the list depends neither on the order in which libvirt returns them
  nor on the sorting algorithm the standard library picks.
\<close>

theorem snapshot_order_determined:
  assumes "sorter sort_func" and "distinct (map snap_Name xs)" and "mset ys = mset xs"
    and "list_all (\<lambda>s. snap_CreatedAt s \<noteq> None) xs"
  shows "sort_func compareSnapshots ys = insertion_sort compareSnapshots xs \<and>
    sorted_wrt snapshot_before (sort_func compareSnapshots ys)"
proof -
  have inj: "inj_on snap_Name (set xs)" and d: "distinct xs"
    using assms(2) by (simp_all add: distinct_map)
  have lin: "cmp_linear compareSnapshots (set xs)"
    using compare_linear[OF _ inj] assms(4) by (simp add: list_all_iff)
  have ys: "distinct ys" "set ys = set xs"
    using d mset_eq_imp_distinct_iff[OF assms(3)] mset_eq_setD[OF assms(3)] by auto
  let ?r = "insertion_sort compareSnapshots xs"
  have r: "sorted_wrt (\<lambda>a b. compareSnapshots a b < 0) ?r" "mset ?r = mset ys" "set ?r = set xs"
    by (rule go_sort.ordered[OF d lin], simp_all only: go_sort.perm go_sort.keeps_set assms(3))
  have "sort_func compareSnapshots ys = ?r"
    using sorter.result_unique[OF assms(1) ys(1)] lin ys(2) r by metis
  moreover have "sorted_wrt snapshot_before ?r"
    by (rule sorted_wrt_mono_rel[OF _ r(1)])
       (use r(3) assms(4) in \<open>auto simp: list_all_iff compareSnapshots_before\<close>)
  ultimately show ?thesis by simp
qed

definition plain_snapshot :: "string \<Rightarrow> gotime option \<Rightarrow> Snapshot" where
  "plain_snapshot name t =
     \<lparr>snap_Name = name, snap_Description = [], snap_Parent = [], snap_State = ''running'',
      snap_CreatedAt = t, snap_Current = False\<rparr>"

theorem snapshot_order_determined_witness:
  "insertion_sort compareSnapshots [plain_snapshot ''b'' (Some 2), plain_snapshot ''c'' (Some 1), plain_snapshot ''a'' (Some 2)] =
   insertion_sort compareSnapshots [plain_snapshot ''a'' (Some 2), plain_snapshot ''b'' (Some 2), plain_snapshot ''c'' (Some 1)]"
  using snapshot_order_determined[OF go_sort.sorter_axioms,
    of "[plain_snapshot ''a'' (Some 2), plain_snapshot ''b'' (Some 2), plain_snapshot ''c'' (Some 1)]"
       "[plain_snapshot ''b'' (Some 2), plain_snapshot ''c'' (Some 1), plain_snapshot ''a'' (Some 2)]"]
  by (simp add: plain_snapshot_def)


text \<open>
  C25: No name or description can escape from the definition sent to libvirt: read as XML
  it has exactly the elements the code writes, and decoding it gives back the name and the
  description of the request, whatever markup characters they contain.
\<close>

theorem snapshot_definition_roundtrip:
  assumes "xml_clean (scr_Name request)" and "xml_clean (scr_Description request)"
  shows "parseSnapshotDefinition read_document (snapshotCreateXML request) (scr_Name request) =
    Inr \<lparr>snap_Name = scr_Name request, snap_Description = scr_Description request,
         snap_Parent = [], snap_State = [], snap_CreatedAt = None, snap_Current = True\<rparr>"
  by (simp add: parseSnapshotDefinition_def read_definition[OF assms] decode_snapshotXML_def
      child_int64_def child_text_def children_named_def text_of_def text_node_def)

theorem snapshot_definition_roundtrip_witness:
  "parseSnapshotDefinition read_document
     (snapshotCreateXML \<lparr>scr_Name = ''</name>&'', scr_Description = ''<x>'', scr_Kind = ''disk'', scr_Quiesce = False\<rparr>)
     ''</name>&'' =
   Inr \<lparr>snap_Name = ''</name>&'', snap_Description = ''<x>'', snap_Parent = [], snap_State = [],
        snap_CreatedAt = None, snap_Current = True\<rparr>"
proof -
  have "xml_clean ''</name>&''" "xml_clean ''<x>''" by code_simp+
  with snapshot_definition_roundtrip[of
      "\<lparr>scr_Name = ''</name>&'', scr_Description = ''<x>'', scr_Kind = ''disk'', scr_Quiesce = False\<rparr>"]
  show ?thesis by simp
qed

text \<open>
  C29: A request whose context is done before the snapshot operation reaches libvirt
  (while it waits for the lock, or at the check before the call) changes nothing.
\<close>

theorem cancelled_request_changes_nothing:
  assumes "ctx_lock ctx \<noteq> None \<or> ctx_check ctx \<noteq> None"
  shows "list_all (\<lambda>c. \<not> changes c)
      (calls (snd (run_state (CreateSnapshot lv ctx n create) \<lparr>world = w, calls = []\<rparr>))) \<and>
    list_all (\<lambda>c. \<not> changes c)
      (calls (snd (run_state (RevertSnapshot lv ctx n sn revert) \<lparr>world = w, calls = []\<rparr>))) \<and>
    list_all (\<lambda>c. \<not> changes c)
      (calls (snd (run_state (DeleteSnapshot lv ctx n sn children) \<lparr>world = w, calls = []\<rparr>)))"
  by (intro conjI keeps_quietD changing_CreateSnapshot changing_RevertSnapshot changing_DeleteSnapshot)
     (use assms in auto)

theorem cancelled_request_changes_nothing_witness:
  "\<forall>lv w create. list_all (\<lambda>c. \<not> changes c) (calls (snd (run_state
      (CreateSnapshot lv \<lparr>ctx_lock = None, ctx_check = Some Canceled\<rparr> ''vm'' create)
      \<lparr>world = w, calls = []\<rparr>)))"
proof (intro allI)
  show "list_all (\<lambda>c. \<not> changes c) (calls (snd (run_state
      (CreateSnapshot lv \<lparr>ctx_lock = None, ctx_check = Some Canceled\<rparr> ''vm'' create)
      \<lparr>world = w, calls = []\<rparr>)))" for lv :: "('w, 'd, 'x) lv_snapshots_scheme" and w create
    using cancelled_request_changes_nothing[of "\<lparr>ctx_lock = None, ctx_check = Some Canceled\<rparr>"
        lv "''vm''" create w] by simp
qed

end
