(* ===== verification/Connection.thy ===== *)
theory Connection
  imports EventFeed Libvirt_Core
begin

text \<open>
  The connection of the libvirt adapter: \<open>Connect\<close> and \<open>Close\<close> of
  \<open>internal/hypervisor/libvirt.go\<close>, the event loop of the process, and the lifecycle callback
  that feeds the broker.
\<close>

subsection \<open>Connection\<close>

text \<open>
  The part of the binding that opens and closes a connection.  The package keeps two
  \<open>sync.Once\<close> values: the result of registering the event loop implementation, and whether
  the loop runs.  The calls made are recorded in order, with the two calls of the HTTP server
  that the process makes between them.
\<close>

record ('w, 'k) lv_connection =
  EventRegisterDefaultImpl :: "'w \<Rightarrow> lverr option \<times> 'w"
  NewConnect :: "string \<Rightarrow> 'w \<Rightarrow> (lverr + 'k) \<times> 'w"
  DomainEventLifecycleRegister :: "'k \<Rightarrow> 'w \<Rightarrow> (lverr + int) \<times> 'w"
  DomainEventDeregister :: "'k \<Rightarrow> int \<Rightarrow> 'w \<Rightarrow> unit \<times> 'w"
  ConnectClose :: "'k \<Rightarrow> 'w \<Rightarrow> lverr option \<times> 'w"

datatype 'k conn_call =
    KRegisterImpl
  | KNewConnect string "lverr + 'k"
  | KRegisterCallback 'k "lverr + int"
  | KDeregister 'k int
  | KCloseBroker
  | KClose 'k
  | KRunEventLoop
  | KServe string
  | KShutdownServer

record ('w, 'k) process =
  pr_world :: 'w
  eventSetup :: "lverr option option"
  eventRunner :: bool
  conn_calls :: "'k conn_call list"

definition conn_call ::
  "('r \<Rightarrow> 'k conn_call) \<Rightarrow> ('w \<Rightarrow> 'r \<times> 'w) \<Rightarrow> (('w, 'k) process, 'r) state" where
  "conn_call c f = State (\<lambda>s. case f (pr_world s) of
     (r, w) \<Rightarrow> (r, s\<lparr>pr_world := w, conn_calls := conn_calls s @ [c r]\<rparr>))"

definition note_conn :: "'k conn_call \<Rightarrow> (('w, 'k) process, unit) state" where
  "note_conn c = State (\<lambda>s. ((), s\<lparr>conn_calls := conn_calls s @ [c]\<rparr>))"

definition setupEvents :: "('w, 'k, 'x) lv_connection_scheme \<Rightarrow> (('w, 'k) process, lverr option) state" where
  "setupEvents lv = do {
     s \<leftarrow> State_Monad.get;
     case eventSetup s of
       Some err \<Rightarrow> State_Monad.return err
     | None \<Rightarrow> do {
         err \<leftarrow> conn_call (\<lambda>_. KRegisterImpl) (EventRegisterDefaultImpl lv);
         State (\<lambda>s. ((), s\<lparr>eventSetup := Some err\<rparr>));
         State_Monad.return err
       }
   }"

definition startEventLoop :: "(('w, 'k) process, unit) state" where
  "startEventLoop = State (\<lambda>s.
     if eventRunner s then ((), s)
     else ((), s\<lparr>eventRunner := True, conn_calls := conn_calls s @ [KRunEventLoop]\<rparr>))"

record 'k Libvirt =
  connection :: 'k
  lv_broker :: eventBroker
  eventCallbackID :: int

definition Connect ::
  "('w, 'k, 'x) lv_connection_scheme \<Rightarrow> 8 word list option \<Rightarrow> int \<Rightarrow> string \<Rightarrow>
     (('w, 'k) process, goerr + 'k Libvirt) state" where
  "Connect lv random unixnano uri = do {
     e \<leftarrow> setupEvents lv;
     case e of
       Some err \<Rightarrow> State_Monad.return (Inl (Wrap [Lit ''initialize libvirt events: ''] (Lib err) []))
     | None \<Rightarrow> do {
         c \<leftarrow> conn_call (KNewConnect uri) (NewConnect lv uri);
         case c of
           Inl err \<Rightarrow> State_Monad.return (Inl (Wrap [Lit ''connect to libvirt: ''] (Lib err) []))
         | Inr k \<Rightarrow> do {
             cb \<leftarrow> conn_call (KRegisterCallback k) (DomainEventLifecycleRegister lv k);
             case cb of
               Inl err \<Rightarrow> do {
                 conn_call (\<lambda>_. KClose k) (ConnectClose lv k);
                 State_Monad.return (Inl (Wrap [Lit ''register lifecycle events: ''] (Lib err) []))
               }
             | Inr callbackID \<Rightarrow> do {
                 startEventLoop;
                 State_Monad.return (Inr
                   \<lparr>connection = k, lv_broker = newEventBroker random unixnano,
                    eventCallbackID = callbackID\<rparr>)
               }
           }
       }
   }"

text \<open>
  \<open>Close\<close>: the callback first, then the broker, then the connection.  The broker may have
  seen events and subscribers since \<open>Connect\<close>, so its state is an argument.
\<close>

definition CloseService ::
  "('w, 'k, 'x) lv_connection_scheme \<Rightarrow> 'k Libvirt \<Rightarrow>
     (('w, 'k) process, ((goerr + unit) \<times> eventBroker) outcome) state" where
  "CloseService lv l = do {
     (if eventCallbackID l \<ge> 0
      then conn_call (\<lambda>_. KDeregister (connection l) (eventCallbackID l))
        (DomainEventDeregister lv (connection l) (eventCallbackID l))
      else State_Monad.return ());
     b \<leftarrow> conn_call (\<lambda>_. KCloseBroker) (\<lambda>w. (close (lv_broker l), w));
     case b of
       Ok b \<Rightarrow> do {
         e \<leftarrow> conn_call (\<lambda>_. KClose (connection l)) (ConnectClose lv (connection l));
         State_Monad.return (Ok
           (case e of
              Some err \<Rightarrow> Inl (Wrap [Lit ''close libvirt connection: ''] (Lib err) [])
            | None \<Rightarrow> Inr (), b))
       }
     | Panicked \<Rightarrow> State_Monad.return Panicked
     | Blocked \<Rightarrow> State_Monad.return Blocked
   }"

definition SubscribeService :: "'k Libvirt \<Rightarrow> gotime \<Rightarrow> string \<Rightarrow> (nat \<times> 'k Libvirt) outcome" where
  "SubscribeService l now cur =
     bind_outcome (subscribe now cur (lv_broker l)) (\<lambda>(i, b). Ok (i, l\<lparr>lv_broker := b\<rparr>))"

subsection \<open>The lifecycle callback\<close>

record event_consts =
  DOMAIN_EVENT_DEFINED :: int
  DOMAIN_EVENT_UNDEFINED :: int
  DOMAIN_EVENT_STARTED :: int
  DOMAIN_EVENT_SUSPENDED :: int
  DOMAIN_EVENT_RESUMED :: int
  DOMAIN_EVENT_STOPPED :: int
  DOMAIN_EVENT_SHUTDOWN :: int
  DOMAIN_EVENT_PMSUSPENDED :: int
  DOMAIN_EVENT_CRASHED :: int

definition lifecycleEventName :: "event_consts \<Rightarrow> int \<Rightarrow> string" where
  "lifecycleEventName c event =
     (if event = DOMAIN_EVENT_DEFINED c then ''defined''
      else if event = DOMAIN_EVENT_UNDEFINED c then ''undefined''
      else if event = DOMAIN_EVENT_STARTED c then ''started''
      else if event = DOMAIN_EVENT_SUSPENDED c then ''suspended''
      else if event = DOMAIN_EVENT_RESUMED c then ''resumed''
      else if event = DOMAIN_EVENT_STOPPED c then ''stopped''
      else if event = DOMAIN_EVENT_SHUTDOWN c then ''shutdown''
      else if event = DOMAIN_EVENT_PMSUSPENDED c then ''suspended-to-memory''
      else if event = DOMAIN_EVENT_CRASHED c then ''crashed''
      else ''unknown'')"

text \<open>The publication a callback makes, if libvirt can still name the domain.\<close>

definition recordLifecycleEvent ::
  "('w, 'd, 'x) lv_core_scheme \<Rightarrow> event_consts \<Rightarrow> gotime \<Rightarrow> 'd \<Rightarrow> int \<Rightarrow> int \<Rightarrow>
     ('w, 'd, action option) io" where
  "recordLifecycleEvent lv c now domain event detail = do {
     n \<leftarrow> ask QGetName domain (GetName lv);
     case n of
       Inl _ \<Rightarrow> State_Monad.return None
     | Inr name \<Rightarrow> do {
         u \<leftarrow> ask QGetUUID domain (GetUUIDString lv);
         case u of
           Inl _ \<Rightarrow> State_Monad.return None
         | Inr uuid \<Rightarrow> State_Monad.return
             (Some (Publish now name uuid (lifecycleEventName c event) detail))
       }
   }"

subsection \<open>Connections and callbacks\<close>

fun conn_step ::
  "'k multiset \<times> ('k \<times> int) multiset \<Rightarrow> 'k conn_call \<Rightarrow> 'k multiset \<times> ('k \<times> int) multiset" where
  "conn_step (ks, cbs) (KNewConnect _ (Inr k)) = (add_mset k ks, cbs)"
| "conn_step (ks, cbs) (KRegisterCallback k (Inr i)) = (ks, add_mset (k, i) cbs)"
| "conn_step (ks, cbs) (KDeregister k i) = (ks, cbs - {#(k, i)#})"
| "conn_step (ks, cbs) (KClose k) = (ks - {#k#}, cbs)"
| "conn_step s _ = s"

definition conn_open :: "'k conn_call list \<Rightarrow> 'k multiset \<times> ('k \<times> int) multiset" where
  "conn_open cs = foldl conn_step ({#}, {#}) cs"

lemma conn_open_append [simp]: "conn_open (cs @ ds) = foldl conn_step (conn_open cs) ds"
  by (simp add: conn_open_def)

lemma run_conn_call:
  "run_state (conn_call c f) s =
     (fst (f (pr_world s)),
      s\<lparr>pr_world := snd (f (pr_world s)), conn_calls := conn_calls s @ [c (fst (f (pr_world s)))]\<rparr>)"
  by (simp add: conn_call_def split: prod.split)

text \<open>The state of the connections and callbacks as a precondition.\<close>

definition conns :: "'k multiset \<times> ('k \<times> int) multiset \<Rightarrow> ('w, 'k) process \<Rightarrow> bool" where
  "conns c p \<longleftrightarrow> conn_open (conn_calls p) = c"

lemma triple_conn_call:
  "triple (conns c) (conn_call k f) (\<lambda>r. conns (conn_step c (k r)))"
  by (rule tripleI) (simp add: run_conn_call conns_def)

lemma triple_note_conn: "conn_step c k = c \<Longrightarrow> triple (conns c) (note_conn k) (\<lambda>_. conns c)"
  by (rule tripleI) (simp add: note_conn_def conns_def)

lemma conn_step_neutral [simp]:
  "conn_step c KRegisterImpl = c" "conn_step c KCloseBroker = c" "conn_step c KRunEventLoop = c"
  "conn_step c (KServe a) = c" "conn_step c KShutdownServer = c"
  by (cases c; simp)+

lemma triple_setupEvents:
  "triple (conns c) (setupEvents (lv :: ('w, 'k, 'x) lv_connection_scheme)) (\<lambda>_. conns c)"
proof (rule tripleI)
  fix s :: "('w, 'k) process" assume "conns c s"
  then show "conns c (snd (run_state (setupEvents lv) s))"
    by (cases "eventSetup s") (simp_all add: setupEvents_def conns_def run_conn_call)
qed

lemma triple_startEventLoop: "triple (conns c) startEventLoop (\<lambda>_. conns c)"
  by (rule tripleI) (simp add: startEventLoop_def conns_def)

lemma Connect_conns:
  "triple (conns (ks, cbs)) (Connect lv random t uri)
     (\<lambda>r. conns (case r of Inl _ \<Rightarrow> (ks, cbs)
                 | Inr l \<Rightarrow> (add_mset (connection l) ks, add_mset (connection l, eventCallbackID l) cbs)))"
  unfolding Connect_def
  by (rule triple_bind[OF triple_setupEvents] triple_bind[OF triple_conn_call]
      triple_bind[OF triple_startEventLoop] triple_rules | simp)+

lemma CloseService_conns:
  assumes "close (lv_broker l) = Ok b" and "eventCallbackID l \<ge> 0"
  shows "triple (conns (add_mset (connection l) ks, add_mset (connection l, eventCallbackID l) cbs))
    (CloseService lv l) (\<lambda>_. conns (ks, cbs))"
proof (rule tripleI)
  fix p :: "('b, 'a) process"
  assume "conns (add_mset (connection l) ks, add_mset (connection l, eventCallbackID l) cbs) p"
  then show "conns (ks, cbs) (snd (run_state (CloseService lv l) p))"
    using assms by (simp add: CloseService_def conns_def run_conn_call)
qed

subsection \<open>Once in a process\<close>

definition once :: "('w, 'k) process \<Rightarrow> bool" where
  "once p \<longleftrightarrow>
     count_list (conn_calls p) KRegisterImpl = (if eventSetup p = None then 0 else 1) \<and>
     count_list (conn_calls p) KRunEventLoop = (if eventRunner p then 1 else 0) \<and>
     (eventRunner p \<longrightarrow> eventSetup p = Some None)"

text \<open>The registration has succeeded.\<close>

definition set_up :: "('w, 'k) process \<Rightarrow> bool" where
  "set_up p \<longleftrightarrow> once p \<and> eventSetup p = Some None"

lemma set_up_call:
  "(\<And>r. k r \<noteq> KRegisterImpl \<and> k r \<noteq> KRunEventLoop) \<Longrightarrow> triple set_up (conn_call k f) (\<lambda>_. set_up)"
  by (rule tripleI) (simp add: run_conn_call once_def set_up_def)

lemma once_setupEvents:
  "triple once (setupEvents (lv :: ('w, 'k, 'x) lv_connection_scheme))
     (\<lambda>r. if r = None then set_up else once)"
proof (rule tripleI)
  fix p :: "('w, 'k) process" assume "once p"
  then show "(if fst (run_state (setupEvents lv) p) = None then set_up else once)
      (snd (run_state (setupEvents lv) p))"
    by (cases "eventSetup p") (auto simp: setupEvents_def once_def set_up_def run_conn_call)
qed

lemma set_up_startEventLoop: "triple set_up startEventLoop (\<lambda>_. set_up)"
  by (rule tripleI) (simp add: startEventLoop_def once_def set_up_def)

lemma set_up_once: "set_up p \<Longrightarrow> once p"
  by (simp add: set_up_def)

lemma once_Connect: "triple once (Connect lv random t uri) (\<lambda>_. once)"
  unfolding Connect_def
  by (rule triple_bind[OF once_setupEvents] triple_bind[OF set_up_call] triple_bind[OF set_up_startEventLoop]
      triple_rules | simp add: set_up_once)+

fun connect_all ::
  "('w, 'k, 'x) lv_connection_scheme \<Rightarrow> (8 word list option \<times> int \<times> string) list \<Rightarrow> (('w, 'k) process, unit) state" where
  "connect_all lv [] = State_Monad.return ()"
| "connect_all lv ((random, t, uri) # rest) = do {
     Connect lv random t uri;
     connect_all lv rest
   }"

lemma once_connect_all: "triple once (connect_all lv cs) (\<lambda>_. once)"
proof (induction cs)
  case (Cons c cs)
  then show ?case by (cases c) (auto intro: triple_bind[OF once_Connect])
qed (simp add: triple_return)

definition fresh_process :: "'w \<Rightarrow> ('w, 'k) process" where
  "fresh_process w = \<lparr>pr_world = w, eventSetup = None, eventRunner = False, conn_calls = []\<rparr>"

lemma close_reachable:
  assumes "reachable gen s" and "length (published s) < 2 ^ 64"
  shows "\<exists>b. close (broker s) = Ok b"
  using perform_ok[OF reachable_inv[OF assms] assms(2), of CloseBroker] by (auto simp: bind_outcome_Ok)

subsection \<open>The properties of the connection\<close>

text \<open>
  However often the process connects, with success or not, it registers the event loop
  implementation at most once and starts the event loop at most once, and only when the
  registration has succeeded.
\<close>

theorem event_loop_once:
  "let p = snd (run_state (connect_all lv cs) (fresh_process w)) in
     count_list (conn_calls p) KRegisterImpl \<le> 1 \<and>
     count_list (conn_calls p) KRunEventLoop \<le> (if eventSetup p = Some None then 1 else 0)"
proof -
  have "once (fresh_process w)" by (simp add: once_def fresh_process_def)
  with once_connect_all have "once (snd (run_state (connect_all lv cs) (fresh_process w)))"
    by (auto simp: triple_def)
  then show ?thesis by (simp add: once_def Let_def)
qed

text \<open>
  A lifecycle callback publishes exactly if libvirt still tells the name and then the
  UUID of the domain, and publishes these with the name of the event; it only reads, and it
  leaves the handle to libvirt.
\<close>

theorem callback_publishes:
  "case run_state (recordLifecycleEvent lv c now d event detail) s of (published_action, s') \<Rightarrow>
     (published_action = Some act \<longleftrightarrow>
        (\<exists>name uuid. fst (GetName lv d (world s)) = Inr name \<and>
           fst (GetUUIDString lv d (snd (GetName lv d (world s)))) = Inr uuid \<and>
           act = Publish now name uuid (lifecycleEventName c event) detail)) \<and>
     (calls s' = calls s @ [CQuery QGetName d []] \<or>
      calls s' = calls s @ [CQuery QGetName d [], CQuery QGetUUID d []])"
  by (auto simp: recordLifecycleEvent_def ask_def run_call split: sum.split prod.split)

end
