(* ===== verification/Json.thy ===== *)
theory Json
  imports Events Go_Net
begin

text \<open>
  JSON as the API reads and writes it: values, the encoding of the result types by their
  struct tags (\<open>internal/hypervisor/service.go\<close>), and the decoding of a request body into a
  struct of the handlers.

  Written strings keep the parts of a message apart.  A time is a leaf, because
  \<open>encoding/json\<close> refuses the years it cannot write, and that is the one way in which
  encoding these values fails.
\<close>

datatype json =
    JNull
  | JBool bool
  | JNum int
  | JStr string
  | JMsg "msgpart list"
  | JTime gotime
  | JArr "json list"
  | JObj "(string \<times> json) list"

subsection \<open>Encoding\<close>

fun encodable :: "json \<Rightarrow> bool" where
  "encodable (JTime t) = time_encodable t"
| "encodable (JArr vs) = list_all encodable vs"
| "encodable (JObj kvs) = list_all (\<lambda>(_, v). encodable v) kvs"
| "encodable _ = True"

fun json_leaks :: "json \<Rightarrow> bool" where
  "json_leaks (JMsg m) = leaks m"
| "json_leaks (JArr vs) = list_ex json_leaks vs"
| "json_leaks (JObj kvs) = list_ex (\<lambda>(_, v). json_leaks v) kvs"
| "json_leaks _ = False"

text \<open>\<open>omitempty\<close> for a string and for a pointer.\<close>

definition unless_empty :: "string \<Rightarrow> string \<Rightarrow> (string \<times> json) list" where
  "unless_empty k s = (if s = [] then [] else [(k, JStr s)])"

definition unless_nil :: "string \<Rightarrow> ('a \<Rightarrow> json) \<Rightarrow> 'a option \<Rightarrow> (string \<times> json) list" where
  "unless_nil k f p = (case p of None \<Rightarrow> [] | Some v \<Rightarrow> [(k, f v)])"

definition or_null :: "('a \<Rightarrow> json) \<Rightarrow> 'a option \<Rightarrow> json" where
  "or_null f p = (case p of None \<Rightarrow> JNull | Some v \<Rightarrow> f v)"

abbreviation JUint :: "64 word \<Rightarrow> json" where "JUint w \<equiv> JNum (uint w)"

definition json_Host :: "Host \<Rightarrow> json" where
  "json_Host h = JObj
     [(''name'', JStr (host_Name h)), (''model'', JStr (host_Model h)),
      (''memory_kib'', JUint (host_MemoryKiB h)), (''cpus'', JUint (host_CPUs h)),
      (''mhz'', JUint (host_MHz h)), (''numa_nodes'', JUint (host_NUMANodes h)),
      (''sockets'', JUint (host_Sockets h)), (''cores'', JUint (host_Cores h)),
      (''threads'', JUint (host_Threads h))]"

definition domain_fields :: "Domain \<Rightarrow> (string \<times> json) list" where
  "domain_fields d =
     [(''name'', JStr (dom_Name d)), (''uuid'', JStr (dom_UUID d)), (''id'', JNum (dom_ID d)),
      (''state'', JStr (dom_State d)), (''active'', JBool (dom_Active d))]"

definition json_DomainInfo :: "DomainInfo \<Rightarrow> json" where
  "json_DomainInfo i = JObj (domain_fields (info_Domain i) @
     [(''state_code'', JNum (info_StateCode i)), (''max_memory_kib'', JUint (info_MaxMemoryKiB i)),
      (''memory_kib'', JUint (info_MemoryKiB i)), (''vcpus'', JUint (info_VCPUs i)),
      (''cpu_time_ns'', JUint (info_CPUTimeNS i))])"

definition json_Viewer :: "Viewer \<Rightarrow> json" where
  "json_Viewer v = JObj (unless_empty ''type'' (viewer_Type v) @
     [(''listen'', or_null JStr (viewer_Listen v)), (''port'', or_null JNum (viewer_Port v))])"

definition json_ActionResult :: "ActionResult \<Rightarrow> json" where
  "json_ActionResult a = JObj
     ([(''name'', JStr (act_Name a)), (''uuid'', JStr (act_UUID a)), (''state'', JStr (act_State a))] @
      unless_empty ''status'' (act_Status a))"

definition json_CPUStats :: "CPUStats \<Rightarrow> json" where
  "json_CPUStats c = JObj
     (unless_nil ''cpu_time_ns'' JUint (cpu_CPUTimeNS c) @
      unless_nil ''user_time_ns'' JUint (cpu_UserTimeNS c) @
      unless_nil ''system_time_ns'' JUint (cpu_SystemTimeNS c))"

definition json_memory :: "(string \<times> 64 word) list \<Rightarrow> json" where
  "json_memory m = JObj (map (\<lambda>(k, v). (k, JUint v)) m)"

definition json_HostStats :: "HostStats \<Rightarrow> json" where
  "json_HostStats s = JObj
     [(''sampled_at'', JTime (hs_SampledAt s)), (''cpu'', json_CPUStats (hs_CPU s)),
      (''memory_kib'', json_memory (hs_MemoryKiB s))]"

definition json_BlockStats :: "BlockStats \<Rightarrow> json" where
  "json_BlockStats b = JObj ([(''device'', JStr (blk_Device b))] @
     unless_nil ''read_bytes'' JNum (blk_ReadBytes b) @
     unless_nil ''read_requests'' JNum (blk_ReadRequests b) @
     unless_nil ''write_bytes'' JNum (blk_WriteBytes b) @
     unless_nil ''write_requests'' JNum (blk_WriteRequests b))"

definition json_NetworkStats :: "NetworkStats \<Rightarrow> json" where
  "json_NetworkStats n = JObj ([(''device'', JStr (net_Device n))] @
     unless_nil ''rx_bytes'' JNum (net_RXBytes n) @
     unless_nil ''rx_packets'' JNum (net_RXPackets n) @
     unless_nil ''tx_bytes'' JNum (net_TXBytes n) @
     unless_nil ''tx_packets'' JNum (net_TXPackets n))"

definition json_DomainStats :: "DomainStats \<Rightarrow> json" where
  "json_DomainStats s = JObj
     [(''sampled_at'', JTime (ds_SampledAt s)), (''name'', JStr (ds_Name s)),
      (''uuid'', JStr (ds_UUID s)), (''state'', JStr (ds_State s)),
      (''cpu'', json_CPUStats (ds_CPU s)), (''memory_kib'', json_memory (ds_MemoryKiB s)),
      (''disks'', JArr (map json_BlockStats (ds_Disks s))),
      (''interfaces'', JArr (map json_NetworkStats (ds_Interfaces s)))]"

definition json_IPAddress :: "IPAddress \<Rightarrow> json" where
  "json_IPAddress a = JObj
     [(''family'', JStr (ip_Family a)), (''address'', JStr (ip_Address a)),
      (''prefix'', JUint (ip_Prefix a))]"

definition json_DomainInterface :: "DomainInterface \<Rightarrow> json" where
  "json_DomainInterface i = JObj
     [(''name'', JStr (if_Name i)), (''mac'', JStr (if_MAC i)),
      (''addresses'', JArr (map json_IPAddress (if_Addresses i)))]"

definition json_DomainInterfaces :: "DomainInterfaces \<Rightarrow> json" where
  "json_DomainInterfaces i = JObj
     [(''name'', JStr (ifs_Name i)), (''uuid'', JStr (ifs_UUID i)),
      (''source'', JStr (ifs_Source i)),
      (''interfaces'', JArr (map json_DomainInterface (ifs_Interfaces i)))]"

definition json_Autostart :: "Autostart \<Rightarrow> json" where
  "json_Autostart a = JObj
     [(''name'', JStr (auto_Name a)), (''uuid'', JStr (auto_UUID a)),
      (''enabled'', JBool (auto_Enabled a))]"

definition json_Snapshot :: "Snapshot \<Rightarrow> json" where
  "json_Snapshot s = JObj ([(''name'', JStr (snap_Name s))] @
     unless_empty ''description'' (snap_Description s) @ unless_empty ''parent'' (snap_Parent s) @
     unless_empty ''state'' (snap_State s) @ unless_nil ''created_at'' JTime (snap_CreatedAt s) @
     [(''current'', JBool (snap_Current s))])"

definition json_SnapshotActionResult :: "SnapshotActionResult \<Rightarrow> json" where
  "json_SnapshotActionResult r = JObj
     [(''name'', JStr (sar_Name r)), (''uuid'', JStr (sar_UUID r)),
      (''snapshot'', JStr (sar_Snapshot r)), (''status'', JStr (sar_Status r))]"

definition json_LifecycleEvent :: "LifecycleEvent \<Rightarrow> json" where
  "json_LifecycleEvent e = JObj
     [(''id'', JUint (ev_ID e)), (''cursor'', JStr (ev_Cursor e)),
      (''occurred_at'', JTime (ev_OccurredAt e)), (''name'', JStr (ev_Name e)),
      (''uuid'', JStr (ev_UUID e)), (''event'', JStr (ev_Event e)), (''detail'', JNum (ev_Detail e))]"

named_theorems json_simps \<open>the encodings of the result types\<close>

lemmas [json_simps] =
  json_Host_def domain_fields_def json_DomainInfo_def json_Viewer_def json_ActionResult_def
  json_CPUStats_def json_memory_def json_HostStats_def json_BlockStats_def json_NetworkStats_def
  json_DomainStats_def json_IPAddress_def json_DomainInterface_def json_DomainInterfaces_def
  json_Autostart_def json_Snapshot_def json_SnapshotActionResult_def json_LifecycleEvent_def
  unless_empty_def unless_nil_def or_null_def

text \<open>No result of the service carries a message, so encoding one leaks nothing.\<close>

lemma results_no_leak [simp]:
  "\<not> json_leaks (json_Host h)" "\<not> json_leaks (json_DomainInfo di)" "\<not> json_leaks (json_Viewer vw)"
  "\<not> json_leaks (json_ActionResult ac)" "\<not> json_leaks (json_HostStats hs)"
  "\<not> json_leaks (json_DomainStats dst)" "\<not> json_leaks (json_DomainInterfaces difs)"
  "\<not> json_leaks (json_Autostart au)" "\<not> json_leaks (json_Snapshot sn)"
  "\<not> json_leaks (json_SnapshotActionResult sa)" "\<not> json_leaks (json_LifecycleEvent le)"
  "\<not> json_leaks (JObj (domain_fields dm))"
  by (auto simp: json_simps list_ex_iff split: option.splits)

text \<open>Only a snapshot and the samples carry a time.\<close>

lemma results_encodable [simp]:
  "encodable (json_Host h)" "encodable (json_DomainInfo di)" "encodable (json_Viewer vw)"
  "encodable (json_ActionResult ac)" "encodable (json_DomainInterfaces difs)"
  "encodable (json_Autostart au)" "encodable (json_SnapshotActionResult sa)"
  "encodable (JObj (domain_fields dm))"
  by (auto simp: json_simps list_all_iff split: option.splits)

lemma timed_encodable:
  "encodable (json_HostStats hs) = time_encodable (hs_SampledAt hs)"
  "encodable (json_DomainStats dst) = time_encodable (ds_SampledAt dst)"
  "encodable (json_Snapshot sn) = (case snap_CreatedAt sn of None \<Rightarrow> True | Some t \<Rightarrow> time_encodable t)"
  "encodable (json_LifecycleEvent le) = time_encodable (ev_OccurredAt le)"
  by (auto simp: json_simps list_all_iff split: option.splits)

subsection \<open>Decoding a request body\<close>

text \<open>
  A body as the decoder sees it: its JSON values, each with the offset of its end, the size
  of the whole and whether only white space follows the last value.  Reading is limited:
  what lies beyond the limit is an error, not the end of the body.
\<close>

record body =
  body_values :: "(int \<times> json) list"
  body_size :: int
  body_clean :: bool
  body_limit :: "int option"

datatype decoded = Value json | AtEOF | Malformed

definition within_limit :: "body \<Rightarrow> int \<Rightarrow> bool" where
  "within_limit b n = (case body_limit b of None \<Rightarrow> True | Some limit \<Rightarrow> n \<le> limit)"

definition decode_next :: "body \<Rightarrow> decoded \<times> body" where
  "decode_next b =
     (case body_values b of
        (stop, v) # rest \<Rightarrow>
          if within_limit b stop then (Value v, b\<lparr>body_values := rest\<rparr>) else (Malformed, b)
      | [] \<Rightarrow> (if body_clean b \<and> within_limit b (body_size b) then AtEOF else Malformed, b))"

text \<open>
  How a key matches a field name: letters in either case, and the two runes outside ASCII
  that fold to an ASCII letter.
\<close>

definition fold_rune :: "int \<times> string \<Rightarrow> string" where
  "fold_rune p = (case p of (r, bs) \<Rightarrow>
     if r < 128 then map ascii_lower bs
     else if r = 383 then ''s'' else if r = 8490 then ''k'' else bs)"

definition fold_key :: "string \<Rightarrow> string" where
  "fold_key k = concat (map fold_rune (chunks k))"

text \<open>
  Decoding an object into a struct with unknown fields refused: the fields are set in the
  order of the object, a repeated one again.  A null leaves the struct or the field as it
  is.  Decoding fails on an unknown field and on a value of the wrong type.
\<close>

fun decode_fields ::
  "(string \<times> (json \<Rightarrow> 'r \<Rightarrow> 'r option)) list \<Rightarrow> (string \<times> json) list \<Rightarrow> 'r \<Rightarrow> 'r option" where
  "decode_fields setters [] r = Some r"
| "decode_fields setters ((k, v) # rest) r =
     (case map_of setters (fold_key k) of
        None \<Rightarrow> None
      | Some put \<Rightarrow> Option.bind (put v r) (decode_fields setters rest))"

definition decode_struct ::
  "(string \<times> (json \<Rightarrow> 'r \<Rightarrow> 'r option)) list \<Rightarrow> json \<Rightarrow> 'r \<Rightarrow> 'r option" where
  "decode_struct setters v r =
     (case v of
        JObj kvs \<Rightarrow> decode_fields setters kvs r
      | JNull \<Rightarrow> Some r
      | _ \<Rightarrow> None)"

definition put_string :: "(string \<Rightarrow> 'r \<Rightarrow> 'r) \<Rightarrow> json \<Rightarrow> 'r \<Rightarrow> 'r option" where
  "put_string upd v r = (case v of JStr s \<Rightarrow> Some (upd s r) | JNull \<Rightarrow> Some r | _ \<Rightarrow> None)"

definition put_bool :: "(bool \<Rightarrow> 'r \<Rightarrow> 'r) \<Rightarrow> json \<Rightarrow> 'r \<Rightarrow> 'r option" where
  "put_bool upd v r = (case v of JBool b \<Rightarrow> Some (upd b r) | JNull \<Rightarrow> Some r | _ \<Rightarrow> None)"

definition put_bool_ptr :: "(bool option \<Rightarrow> 'r \<Rightarrow> 'r) \<Rightarrow> json \<Rightarrow> 'r \<Rightarrow> 'r option" where
  "put_bool_ptr upd v r =
     (case v of JBool b \<Rightarrow> Some (upd (Some b) r) | JNull \<Rightarrow> Some (upd None r) | _ \<Rightarrow> None)"

end
