(* ===== verification/Http.thy ===== *)
theory Http
  imports Json
begin

text \<open>
  What a handler of \<open>internal/api/server.go\<close> works on: the request, the response writer and
  the state of the hypervisor service; the two writers of JSON responses; and the flow of a
  handler, which returns or panics.

  A response writer has a header map that may be changed until the status is written; the
  first status counts, and writing a body before it means status 200.  The code only sets
  headers to one value, so the map is an association list.
\<close>

datatype part =
    PJson json
  | PText string
  | PEvent string string json

record response =
  rs_header :: "(string \<times> string) list"
  rs_sent :: "(int \<times> (string \<times> string) list) option"
  rs_body :: "part list"
  rs_flusher :: bool

definition set_header :: "string \<Rightarrow> string \<Rightarrow> response \<Rightarrow> response" where
  "set_header k v r = r\<lparr>rs_header := assoc_set k v (rs_header r)\<rparr>"

definition write_header :: "int \<Rightarrow> response \<Rightarrow> response" where
  "write_header status r =
     (if rs_sent r = None then r\<lparr>rs_sent := Some (status, rs_header r)\<rparr> else r)"

definition write_part :: "part \<Rightarrow> response \<Rightarrow> response" where
  "write_part p r = (let r = write_header 200 r in r\<lparr>rs_body := rs_body r @ [p]\<rparr>)"

definition sent_status :: "response \<Rightarrow> int option" where
  "sent_status r = map_option fst (rs_sent r)"

definition sent_header :: "string \<Rightarrow> response \<Rightarrow> string option" where
  "sent_header k r = Option.bind (rs_sent r) (\<lambda>(_, h). map_of h k)"

text \<open>
  The context of a request as the snapshot operations meet it: see theory \<open>Snapshots\<close>.  The
  header function gives the first value of a header, the empty string without one.
\<close>

record 'c Request =
  req_Method :: string
  req_Path :: string
  req_EscapedPath :: string
  req_RawQuery :: string
  req_Header :: "string \<Rightarrow> string"
  req_ContentLength :: int
  req_Body :: body
  req_Context :: 'c
  req_Vars :: "(string \<times> string) list"

definition PathValue :: "'c Request \<Rightarrow> string \<Rightarrow> string" where
  "PathValue r n = (case map_of (req_Vars r) n of None \<Rightarrow> [] | Some v \<Rightarrow> v)"

definition QueryGet :: "'c Request \<Rightarrow> string \<Rightarrow> string" where
  "QueryGet r k = query_get k (req_RawQuery r)"

datatype flow = Done | Panic

datatype log_entry =
    LogRequest string string
  | LogServiceError goerr
  | LogNotReady goerr
  | LogScreenshot goerr
  | LogPanic

record 'h http =
  hyp :: 'h
  resp :: response
  logged :: "log_entry list"

type_synonym ('h, 'a) web = "('h http, 'a) state"

definition respond_with :: "(response \<Rightarrow> response) \<Rightarrow> ('h, unit) web" where
  "respond_with f = State (\<lambda>s. ((), s\<lparr>resp := f (resp s)\<rparr>))"

definition log_line :: "log_entry \<Rightarrow> ('h, unit) web" where
  "log_line e = State (\<lambda>s. ((), s\<lparr>logged := logged s @ [e]\<rparr>))"

text \<open>A call of the service.\<close>

definition serve :: "('h \<Rightarrow> 'a \<times> 'h) \<Rightarrow> ('h, 'a) web" where
  "serve f = State (\<lambda>s. case f (hyp s) of (r, h) \<Rightarrow> (r, s\<lparr>hyp := h\<rparr>))"

lemma run_respond_with: "run_state (respond_with f) s = ((), s\<lparr>resp := f (resp s)\<rparr>)"
  by (simp add: respond_with_def)

lemma run_log_line: "run_state (log_line e) s = ((), s\<lparr>logged := logged s @ [e]\<rparr>)"
  by (simp add: log_line_def)

lemma run_serve: "run_state (serve f) s = (fst (f (hyp s)), s\<lparr>hyp := snd (f (hyp s))\<rparr>)"
  by (simp add: serve_def split: prod.split)

subsection \<open>Writing JSON\<close>

definition json_type :: string where
  "json_type = ''application/json; charset=utf-8''"

definition writeJSON :: "int \<Rightarrow> json \<Rightarrow> ('h, flow) web" where
  "writeJSON status v = do {
     respond_with (set_header ''Content-Type'' json_type);
     respond_with (write_header status);
     if encodable v then do {
       respond_with (write_part (PJson v));
       State_Monad.return Done
     }
     else State_Monad.return Panic
   }"

definition error_json :: "string \<Rightarrow> msgpart list \<Rightarrow> json" where
  "error_json code message =
     JObj [(''error'', JObj [(''code'', JStr code), (''message'', JMsg message)])]"

definition writeError :: "int \<Rightarrow> string \<Rightarrow> msgpart list \<Rightarrow> ('h, flow) web" where
  "writeError status code message = writeJSON status (error_json code message)"

definition serviceError :: "goerr \<Rightarrow> int \<times> string \<times> msgpart list" where
  "serviceError err =
     (if is_err err ErrNotFound then (404, ''vm_not_found'', [Lit ''virtual machine not found''])
      else if is_err err ErrSnapshotNotFound then (404, ''snapshot_not_found'', [Lit ''snapshot not found''])
      else if is_err err ErrConflict then (409, ''state_conflict'', error_text err)
      else if is_err err ErrUnsupported then (422, ''operation_unsupported'', error_text err)
      else (503, ''hypervisor_unavailable'', [Lit ''hypervisor request failed'']))"

definition writeServiceError :: "goerr \<Rightarrow> ('h, flow) web" where
  "writeServiceError err =
     (case serviceError err of (status, code, message) \<Rightarrow>
        if status = 503 then do { log_line (LogServiceError err); writeError status code message }
        else writeError status code message)"

text \<open>The end of most handlers: an error of the service, or its result as JSON.\<close>

definition respond :: "int \<Rightarrow> ('a \<Rightarrow> json) \<Rightarrow> goerr + 'a \<Rightarrow> ('h, flow) web" where
  "respond status encode r =
     (case r of
        Inl err \<Rightarrow> writeServiceError err
      | Inr v \<Rightarrow> writeJSON status (encode v))"

lemma error_json_encodable [simp]: "encodable (error_json code message)"
  by (simp add: error_json_def)

lemma error_json_leaks [simp]: "json_leaks (error_json code message) = leaks message"
  by (simp add: error_json_def)

lemma run_writeJSON:
  "run_state (writeJSON status v) s =
     (if encodable v then Done else Panic,
      s\<lparr>resp := (let r = write_header status (set_header ''Content-Type'' json_type (resp s)) in
                 if encodable v then write_part (PJson v) r else r)\<rparr>)"
  by (simp add: writeJSON_def run_respond_with Let_def)

lemma run_writeError:
  "run_state (writeError status code message) s =
     (Done, s\<lparr>resp := write_part (PJson (error_json code message))
        (write_header status (set_header ''Content-Type'' json_type (resp s)))\<rparr>)"
  by (simp add: writeError_def run_writeJSON Let_def)

lemma serviceError_safe:
  "serviceError err = (status, code, message) \<Longrightarrow> presentable err \<Longrightarrow> \<not> leaks message"
  by (auto simp: serviceError_def presentable_def split: if_splits)

end
