(* ===== verification/Handlers.thy ===== *)
theory Handlers
  imports Http
begin

text \<open>
  The handlers of \<open>internal/api/server.go\<close> over the \<open>Service\<close> interface of
  \<open>internal/hypervisor/service.go\<close>, which is a record of functions over a state of its own.
  Each handler is the whole function of the source: validation in its order, the one call
  of the service, and the response.
\<close>

subsection \<open>The Service interface\<close>

type_synonym ('h, 'a) op = "'h \<Rightarrow> (goerr + 'a) \<times> 'h"

text \<open>
  What the loop of the events handler can meet next: an event and whether writing it
  succeeds, the closed channel, the heartbeat and whether writing it succeeds, or the end
  of the request.  \<open>Subscribe\<close> yields the sequence of them.
\<close>

datatype sse_input = GotEvent LifecycleEvent bool | GotClosed | GotTick bool | GotDone

text \<open>A screenshot: the media type, the bytes read from it and how reading ended.\<close>

type_synonym shot = "string \<times> string \<times> goerr option"

record ('h, 'c) service =
  svcReady :: "('h, unit) op"
  svcHost :: "('h, Host) op"
  svcHostStats :: "('h, HostStats) op"
  svcListDomains :: "DomainFilter \<Rightarrow> ('h, Domain list) op"
  svcDomain :: "string \<Rightarrow> ('h, DomainInfo) op"
  svcDomainStats :: "string \<Rightarrow> ('h, DomainStats) op"
  svcDomainInterfaces :: "string \<Rightarrow> InterfaceAddressSource \<Rightarrow> ('h, DomainInterfaces) op"
  svcAutostart :: "string \<Rightarrow> ('h, Autostart) op"
  svcSetAutostart :: "string \<Rightarrow> bool \<Rightarrow> ('h, Autostart) op"
  svcListSnapshots :: "string \<Rightarrow> ('h, Snapshot list) op"
  svcCreateSnapshot :: "'c \<Rightarrow> string \<Rightarrow> SnapshotCreateRequest \<Rightarrow> ('h, Snapshot) op"
  svcRevertSnapshot :: "'c \<Rightarrow> string \<Rightarrow> string \<Rightarrow> SnapshotRevertRequest \<Rightarrow> ('h, SnapshotActionResult) op"
  svcDeleteSnapshot :: "'c \<Rightarrow> string \<Rightarrow> string \<Rightarrow> bool \<Rightarrow> ('h, unit) op"
  svcSubscribe :: "string \<Rightarrow> 'h \<Rightarrow> sse_input list \<times> 'h"
  svcDomainXML :: "string \<Rightarrow> ('h, string) op"
  svcViewer :: "string \<Rightarrow> ('h, Viewer) op"
  svcScreenshot :: "'c \<Rightarrow> string \<Rightarrow> ('h, shot) op"
  svcStart :: "string \<Rightarrow> ('h, ActionResult) op"
  svcShutdown :: "string \<Rightarrow> PowerMode \<Rightarrow> ('h, ActionResult) op"
  svcReboot :: "string \<Rightarrow> PowerMode \<Rightarrow> ('h, ActionResult) op"
  svcPause :: "string \<Rightarrow> ('h, ActionResult) op"
  svcResume :: "string \<Rightarrow> ('h, ActionResult) op"
  svcReset :: "string \<Rightarrow> ('h, ActionResult) op"
  svcStop :: "string \<Rightarrow> ('h, ActionResult) op"

subsection \<open>Validation\<close>

definition parseDomainFilter :: "string \<Rightarrow> DomainFilter option" where
  "parseDomainFilter value =
     (let v = to_lower value in
      if v = [] \<or> v = ''all'' then Some DomainAll
      else if v = ''active'' then Some DomainActive
      else if v = ''inactive'' then Some DomainInactive
      else None)"

definition isASCIILetterOrNumber :: "char \<Rightarrow> bool" where
  "isASCIILetterOrNumber c \<longleftrightarrow>
     97 \<le> byte c \<and> byte c \<le> 122 \<or> 65 \<le> byte c \<and> byte c \<le> 90 \<or> 48 \<le> byte c \<and> byte c \<le> 57"

definition validSnapshotName :: "string \<Rightarrow> bool" where
  "validSnapshotName name =
     (case name of
        [] \<Rightarrow> False
      | c # cs \<Rightarrow>
          length name \<le> 128 \<and> isASCIILetterOrNumber c \<and>
          list_all (\<lambda>x. isASCIILetterOrNumber x \<or> x = CHR ''.'' \<or> x = CHR ''_'' \<or> x = CHR ''-'') cs)"

definition validSnapshotLookupName :: "string \<Rightarrow> bool" where
  "validSnapshotLookupName name \<longleftrightarrow>
     0 < length name \<and> length name \<le> 1024 \<and> valid_utf8 name \<and> CHR 0x00 \<notin> set name"

text \<open>\<open>decodeJSON\<close>: one value, and then the end of the body.\<close>

definition decodeJSON ::
  "(string \<times> (json \<Rightarrow> 'r \<Rightarrow> 'r option)) list \<Rightarrow> 'r \<Rightarrow> body \<Rightarrow> 'r option" where
  "decodeJSON setters start b =
     (case decode_next b of
        (Value v, rest) \<Rightarrow>
          (case decode_struct setters v start of
             None \<Rightarrow> None
           | Some r \<Rightarrow> if fst (decode_next rest) = AtEOF then Some r else None)
      | _ \<Rightarrow> None)"

text \<open>\<open>decoder.Decode(&request)\<close> alone: what follows the first value is not looked at.\<close>

definition decodeFirst ::
  "(string \<times> (json \<Rightarrow> 'r \<Rightarrow> 'r option)) list \<Rightarrow> 'r \<Rightarrow> body \<Rightarrow> 'r option" where
  "decodeFirst setters start b =
     (case decode_next b of
        (Value v, _) \<Rightarrow> decode_struct setters v start
      | _ \<Rightarrow> None)"

definition autostart_setters :: "(string \<times> (json \<Rightarrow> bool option \<Rightarrow> bool option option)) list" where
  "autostart_setters = [(''enabled'', put_bool_ptr (\<lambda>v _. v))]"

definition create_setters ::
  "(string \<times> (json \<Rightarrow> SnapshotCreateRequest \<Rightarrow> SnapshotCreateRequest option)) list" where
  "create_setters =
     [(''name'', put_string (\<lambda>s r. r\<lparr>scr_Name := s\<rparr>)),
      (''description'', put_string (\<lambda>s r. r\<lparr>scr_Description := s\<rparr>)),
      (''kind'', put_string (\<lambda>s r. r\<lparr>scr_Kind := s\<rparr>)),
      (''quiesce'', put_bool (\<lambda>b r. r\<lparr>scr_Quiesce := b\<rparr>))]"

definition revert_setters ::
  "(string \<times> (json \<Rightarrow> SnapshotRevertRequest \<Rightarrow> SnapshotRevertRequest option)) list" where
  "revert_setters =
     [(''state'', put_string (\<lambda>s r. r\<lparr>srr_State := s\<rparr>)),
      (''force'', put_bool (\<lambda>b r. r\<lparr>srr_Force := b\<rparr>))]"

definition mode_setters :: "(string \<times> (json \<Rightarrow> PowerMode \<Rightarrow> PowerMode option)) list" where
  "mode_setters = [(''mode'', put_string (\<lambda>s _. s))]"

subsection \<open>Handlers that read\<close>

definition health :: "('h, flow) web" where
  "health = writeJSON 200 (JObj [(''status'', JStr ''ok'')])"

definition ready :: "('h, 'c) service \<Rightarrow> ('h, flow) web" where
  "ready svc = do {
     r \<leftarrow> serve (svcReady svc);
     case r of
       Inl err \<Rightarrow> do {
         log_line (LogNotReady err);
         writeError 503 ''hypervisor_unavailable'' [Lit ''hypervisor is not ready'']
       }
     | Inr _ \<Rightarrow> writeJSON 200 (JObj [(''status'', JStr ''ready'')])
   }"

definition host :: "('h, 'c) service \<Rightarrow> ('h, flow) web" where
  "host svc = do { r \<leftarrow> serve (svcHost svc); respond 200 json_Host r }"

definition hostStats :: "('h, 'c) service \<Rightarrow> ('h, flow) web" where
  "hostStats svc = do { r \<leftarrow> serve (svcHostStats svc); respond 200 json_HostStats r }"

definition listVMs :: "('h, 'c) service \<Rightarrow> 'c Request \<Rightarrow> ('h, flow) web" where
  "listVMs svc r =
     (case parseDomainFilter (QueryGet r ''state'') of
        None \<Rightarrow> writeError 400 ''invalid_state'' [Lit ''state must be all, active, or inactive'']
      | Some which \<Rightarrow> do {
          d \<leftarrow> serve (svcListDomains svc which);
          respond 200 (\<lambda>ds. JObj [(''vms'', JArr (map (\<lambda>d. JObj (domain_fields d)) ds))]) d
        })"

definition vm :: "('h, 'c) service \<Rightarrow> 'c Request \<Rightarrow> ('h, flow) web" where
  "vm svc r = do {
     d \<leftarrow> serve (svcDomain svc (PathValue r ''identifier''));
     respond 200 json_DomainInfo d
   }"

definition vmStats :: "('h, 'c) service \<Rightarrow> 'c Request \<Rightarrow> ('h, flow) web" where
  "vmStats svc r = do {
     d \<leftarrow> serve (svcDomainStats svc (PathValue r ''identifier''));
     respond 200 json_DomainStats d
   }"

definition vmInterfaces :: "('h, 'c) service \<Rightarrow> 'c Request \<Rightarrow> ('h, flow) web" where
  "vmInterfaces svc r =
     (let source = to_lower (QueryGet r ''source'');
          source = (if source = [] then InterfaceSourceLease else source) in
      if source \<noteq> InterfaceSourceLease \<and> source \<noteq> InterfaceSourceAgent \<and> source \<noteq> InterfaceSourceARP then
        writeError 400 ''invalid_source'' [Lit ''source must be lease, agent, or arp'']
      else do {
        i \<leftarrow> serve (svcDomainInterfaces svc (PathValue r ''identifier'') source);
        respond 200 json_DomainInterfaces i
      })"

definition vmAutostart :: "('h, 'c) service \<Rightarrow> 'c Request \<Rightarrow> ('h, flow) web" where
  "vmAutostart svc r = do {
     a \<leftarrow> serve (svcAutostart svc (PathValue r ''identifier''));
     respond 200 json_Autostart a
   }"

definition vmXML :: "('h, 'c) service \<Rightarrow> 'c Request \<Rightarrow> ('h, flow) web" where
  "vmXML svc r = do {
     x \<leftarrow> serve (svcDomainXML svc (PathValue r ''identifier''));
     case x of
       Inl err \<Rightarrow> writeServiceError err
     | Inr xml \<Rightarrow> do {
         respond_with (set_header ''Content-Type'' ''application/xml; charset=utf-8'');
         respond_with (write_header 200);
         respond_with (write_part (PText xml));
         State_Monad.return Done
       }
   }"

definition vmViewer :: "('h, 'c) service \<Rightarrow> 'c Request \<Rightarrow> ('h, flow) web" where
  "vmViewer svc r = do {
     v \<leftarrow> serve (svcViewer svc (PathValue r ''identifier''));
     respond 200 json_Viewer v
   }"

definition vmScreenshot :: "('h, 'c) service \<Rightarrow> 'c Request \<Rightarrow> ('h, flow) web" where
  "vmScreenshot svc r = do {
     s \<leftarrow> serve (svcScreenshot svc (req_Context r) (PathValue r ''identifier''));
     case s of
       Inl err \<Rightarrow> writeServiceError err
     | Inr (contentType, bytes, failure) \<Rightarrow> do {
         respond_with (set_header ''Content-Type'' contentType);
         respond_with (set_header ''Cache-Control'' ''no-store'');
         respond_with (write_header 200);
         respond_with (write_part (PText bytes));
         (case failure of None \<Rightarrow> State_Monad.return () | Some err \<Rightarrow> log_line (LogScreenshot err));
         State_Monad.return Done
       }
   }"

definition listVMSnapshots :: "('h, 'c) service \<Rightarrow> 'c Request \<Rightarrow> ('h, flow) web" where
  "listVMSnapshots svc r = do {
     s \<leftarrow> serve (svcListSnapshots svc (PathValue r ''identifier''));
     respond 200 (\<lambda>ss. JObj [(''snapshots'', JArr (map json_Snapshot ss))]) s
   }"

subsection \<open>Events\<close>

definition reset_json :: "LifecycleEvent \<Rightarrow> json" where
  "reset_json event = JObj
     [(''id'', JUint (ev_ID event)), (''occurred_at'', JTime (ev_OccurredAt event)),
      (''reason'', JStr ''replay_unavailable'')]"

definition event_part :: "LifecycleEvent \<Rightarrow> part" where
  "event_part event =
     (if ev_StreamReset event then PEvent (ev_Cursor event) ''stream.reset'' (reset_json event)
      else PEvent (ev_Cursor event) ''vm.lifecycle'' (json_LifecycleEvent event))"

definition newline :: char where
  "newline = char_of (10 :: int)"

text \<open>The loop: what it writes until it returns or has nothing more to read.\<close>

fun event_loop :: "sse_input list \<Rightarrow> part list" where
  "event_loop [] = []"
| "event_loop (GotClosed # _) = []"
| "event_loop (GotDone # _) = []"
| "event_loop (GotTick ok # rest) =
     (if ok then PText ('': heartbeat'' @ [newline, newline]) # event_loop rest else [])"
| "event_loop (GotEvent event ok # rest) =
     (if \<not> time_encodable (ev_OccurredAt event) \<or> \<not> ok then []
      else event_part event # event_loop rest)"

fun write_parts :: "part list \<Rightarrow> response \<Rightarrow> response" where
  "write_parts [] r = r"
| "write_parts (p # ps) r = write_parts ps (write_part p r)"

definition events :: "('h, 'c) service \<Rightarrow> 'c Request \<Rightarrow> ('h, flow) web" where
  "events svc r = do {
     s \<leftarrow> State_Monad.get;
     if \<not> rs_flusher (resp s) then
       writeError 500 ''streaming_unsupported'' [Lit ''streaming is unavailable'']
     else do {
       respond_with (set_header ''Content-Type'' ''text/event-stream'');
       respond_with (set_header ''Cache-Control'' ''no-cache'');
       respond_with (set_header ''Connection'' ''keep-alive'');
       respond_with (write_header 200);
       respond_with (write_part (PText ('': connected'' @ [newline, newline])));
       inputs \<leftarrow> serve (svcSubscribe svc (req_Header r ''Last-Event-Id''));
       respond_with (write_parts (event_loop inputs));
       State_Monad.return Done
     }
   }"

subsection \<open>Handlers that change something\<close>

definition setVMAutostart :: "('h, 'c) service \<Rightarrow> 'c Request \<Rightarrow> ('h, flow) web" where
  "setVMAutostart svc r =
     (case decodeFirst autostart_setters None (req_Body r) of
        Some (Some enabled) \<Rightarrow> do {
          a \<leftarrow> serve (svcSetAutostart svc (PathValue r ''identifier'') enabled);
          respond 200 json_Autostart a
        }
      | _ \<Rightarrow> writeError 400 ''invalid_request'' [Lit ''request body must contain boolean enabled''])"

definition createVMSnapshot :: "('h, 'c) service \<Rightarrow> 'c Request \<Rightarrow> ('h, flow) web" where
  "createVMSnapshot svc r =
     (case decodeJSON create_setters
         \<lparr>scr_Name = [], scr_Description = [], scr_Kind = [], scr_Quiesce = False\<rparr> (req_Body r) of
        None \<Rightarrow> writeError 400 ''invalid_request'' [Lit ''request body must be one JSON object'']
      | Some request \<Rightarrow>
        if \<not> validSnapshotName (scr_Name request) then
          writeError 400 ''invalid_snapshot_name''
            [Lit ''name must be 1-128 ASCII letters, numbers, dots, underscores, or hyphens and must start with a letter or number'']
        else if length (scr_Description request) > 1024 then
          writeError 400 ''invalid_description'' [Lit ''description must not exceed 1024 bytes'']
        else if scr_Kind request \<noteq> SnapshotKindSystem \<and> scr_Kind request \<noteq> SnapshotKindDisk then
          writeError 400 ''invalid_snapshot_kind'' [Lit ''kind must be system or disk'']
        else if scr_Quiesce request \<and> scr_Kind request \<noteq> SnapshotKindDisk then
          writeError 400 ''invalid_snapshot_options'' [Lit ''quiesce is only valid for disk snapshots'']
        else do {
          s \<leftarrow> serve (svcCreateSnapshot svc (req_Context r) (PathValue r ''identifier'') request);
          respond 201 json_Snapshot s
        })"

definition revertVMSnapshot :: "('h, 'c) service \<Rightarrow> 'c Request \<Rightarrow> ('h, flow) web" where
  "revertVMSnapshot svc r =
     (let snapshotName = PathValue r ''snapshot'';
          start = \<lparr>srr_State = SnapshotRevertRecorded, srr_Force = False\<rparr> in
      if \<not> validSnapshotLookupName snapshotName then
        writeError 400 ''invalid_snapshot_name'' [Lit ''invalid snapshot name'']
      else (case (if req_ContentLength r \<noteq> 0 then decodeJSON revert_setters start (req_Body r)
                  else Some start) of
          None \<Rightarrow> writeError 400 ''invalid_request'' [Lit ''request body must be one JSON object'']
        | Some request \<Rightarrow>
          let request = (if srr_State request = [] then request\<lparr>srr_State := SnapshotRevertRecorded\<rparr>
                         else request) in
          if srr_State request \<noteq> SnapshotRevertRecorded \<and> srr_State request \<noteq> SnapshotRevertRunning \<and>
             srr_State request \<noteq> SnapshotRevertPaused then
            writeError 400 ''invalid_revert_state'' [Lit ''state must be snapshot, running, or paused'']
          else do {
            s \<leftarrow> serve (svcRevertSnapshot svc (req_Context r) (PathValue r ''identifier'') snapshotName request);
            respond 200 json_SnapshotActionResult s
          }))"

definition deleteVMSnapshot :: "('h, 'c) service \<Rightarrow> 'c Request \<Rightarrow> ('h, flow) web" where
  "deleteVMSnapshot svc r =
     (let snapshotName = PathValue r ''snapshot''; value = QueryGet r ''children'' in
      if \<not> validSnapshotLookupName snapshotName then
        writeError 400 ''invalid_snapshot_name'' [Lit ''invalid snapshot name'']
      else (case (if value \<noteq> [] then parse_bool value else Some False) of
          None \<Rightarrow> writeError 400 ''invalid_children'' [Lit ''children must be true or false'']
        | Some children \<Rightarrow> do {
            s \<leftarrow> serve (svcDeleteSnapshot svc (req_Context r) (PathValue r ''identifier'') snapshotName children);
            case s of
              Inl err \<Rightarrow> writeServiceError err
            | Inr _ \<Rightarrow> do {
                respond_with (write_header 204);
                State_Monad.return Done
              }
          }))"

definition runAction ::
  "'c Request \<Rightarrow> int \<Rightarrow> (string \<Rightarrow> ('h, ActionResult) op) \<Rightarrow> ('h, flow) web" where
  "runAction r status action = do {
     a \<leftarrow> serve (action (PathValue r ''identifier''));
     respond status json_ActionResult a
   }"

definition vmStart :: "('h, 'c) service \<Rightarrow> 'c Request \<Rightarrow> ('h, flow) web" where
  "vmStart svc r = runAction r 200 (svcStart svc)"

definition vmStop :: "('h, 'c) service \<Rightarrow> 'c Request \<Rightarrow> ('h, flow) web" where
  "vmStop svc r = runAction r 200 (svcStop svc)"

definition vmPause :: "('h, 'c) service \<Rightarrow> 'c Request \<Rightarrow> ('h, flow) web" where
  "vmPause svc r = runAction r 200 (svcPause svc)"

definition vmResume :: "('h, 'c) service \<Rightarrow> 'c Request \<Rightarrow> ('h, flow) web" where
  "vmResume svc r = runAction r 200 (svcResume svc)"

definition vmReset :: "('h, 'c) service \<Rightarrow> 'c Request \<Rightarrow> ('h, flow) web" where
  "vmReset svc r = runAction r 200 (svcReset svc)"

text \<open>\<open>decodePowerMode\<close>: the mode, or the error response it writes.\<close>

definition decodePowerMode :: "'c Request \<Rightarrow> (string \<times> msgpart list) + PowerMode" where
  "decodePowerMode r =
     (if req_ContentLength r = 0 then Inr PowerModeDefault
      else (case decodeFirst mode_setters [] (req_Body r) of
          None \<Rightarrow> Inl (''invalid_request'', [Lit ''request body must be a JSON object containing mode''])
        | Some mode \<Rightarrow>
          let mode = (if mode = [] then PowerModeDefault else mode) in
          if mode = PowerModeDefault \<or> mode = PowerModeACPI \<or> mode = PowerModeGuestAgent then Inr mode
          else Inl (''invalid_mode'', [Lit ''mode must be default, acpi, or guest-agent''])))"

definition vmShutdown :: "('h, 'c) service \<Rightarrow> 'c Request \<Rightarrow> ('h, flow) web" where
  "vmShutdown svc r =
     (case decodePowerMode r of
        Inl (code, message) \<Rightarrow> writeError 400 code message
      | Inr mode \<Rightarrow> do {
          a \<leftarrow> serve (svcShutdown svc (PathValue r ''identifier'') mode);
          respond 202 json_ActionResult a
        })"

definition vmReboot :: "('h, 'c) service \<Rightarrow> 'c Request \<Rightarrow> ('h, flow) web" where
  "vmReboot svc r =
     (case decodePowerMode r of
        Inl (code, message) \<Rightarrow> writeError 400 code message
      | Inr mode \<Rightarrow> do {
          a \<leftarrow> serve (svcReboot svc (PathValue r ''identifier'') mode);
          respond 202 json_ActionResult a
        })"

end
