(* ===== verification/Router.thy ===== *)
theory Router
  imports Handlers "HOL-Library.Char_ord" "HOL-Library.List_Lexorder"
begin

text \<open>
  Routing and the layers around it in \<open>internal/api/server.go\<close>: scopes and bearer tokens,
  the route registry over \<open>http.ServeMux\<close> as the code uses it (patterns of literal segments
  and one-segment wildcards without methods, and the catch-all pattern), cross-origin
  requests, security headers, access log and recovery, composed as \<open>New\<close> composes them.
\<close>

subsection \<open>Scopes and tokens\<close>

datatype scope = scopePublic | scopeRead | scopeControl | scopeAdmin

fun scope_rank :: "scope \<Rightarrow> nat" where
  "scope_rank scopePublic = 0"
| "scope_rank scopeRead = 1"
| "scope_rank scopeControl = 2"
| "scope_rank scopeAdmin = 3"

lemma scope_rank_inject: "scope_rank a = scope_rank b \<Longrightarrow> a = b"
  by (cases a; cases b) auto

instantiation scope :: linorder
begin

definition less_eq_scope :: "scope \<Rightarrow> scope \<Rightarrow> bool" where
  "less_eq_scope a b \<longleftrightarrow> scope_rank a \<le> scope_rank b"

definition less_scope :: "scope \<Rightarrow> scope \<Rightarrow> bool" where
  "less_scope a b \<longleftrightarrow> scope_rank a < scope_rank b"

instance
  by standard (auto simp: less_eq_scope_def less_scope_def dest: scope_rank_inject)

end

record Server =
  bearerToken :: string
  readToken :: string
  controlToken :: string
  adminToken :: string
  allowedOrigins :: "string list"

definition serverHasCredentials :: "Server \<Rightarrow> bool" where
  "serverHasCredentials s \<longleftrightarrow>
     bearerToken s \<noteq> [] \<or> readToken s \<noteq> [] \<or> controlToken s \<noteq> [] \<or> adminToken s \<noteq> []"

definition candidates :: "Server \<Rightarrow> (string \<times> scope) list" where
  "candidates s = [(readToken s, scopeRead), (controlToken s, scopeControl),
     (bearerToken s, scopeAdmin), (adminToken s, scopeAdmin)]"

definition scopeForToken :: "Server \<Rightarrow> string \<Rightarrow> scope option" where
  "scopeForToken s token =
     map_option snd (find (\<lambda>(t, _). t \<noteq> [] \<and> token = t) (candidates s))"

type_synonym ('h, 'c) handler = "'c Request \<Rightarrow> ('h, flow) web"

definition unauthorized :: "('h, flow) web" where
  "unauthorized = do {
     respond_with (set_header ''Www-Authenticate'' ''Bearer realm=\"libvirt-rest-api\"'');
     writeError 401 ''unauthorized'' [Lit ''a valid bearer token is required'']
   }"

definition requireScope :: "Server \<Rightarrow> scope \<Rightarrow> ('h, 'c) handler \<Rightarrow> ('h, 'c) handler" where
  "requireScope srv required next_handler r =
     (if required = scopePublic \<or> \<not> serverHasCredentials srv then next_handler r
      else (case cut_at (CHR '' '') (req_Header r ''Authorization'') of
        (scheme, provided, found) \<Rightarrow>
          if \<not> found \<or> \<not> equal_fold scheme ''Bearer'' \<or> provided = [] then unauthorized
          else (case scopeForToken srv provided of
              None \<Rightarrow> unauthorized
            | Some providedScope \<Rightarrow>
              if providedScope < required then
                writeError 403 ''insufficient_scope''
                  [Lit ''the bearer token does not grant the required scope'']
              else next_handler r)))"

subsection \<open>The endpoints and their routes\<close>

datatype endpoint =
    Health | ReadyCheck | HostEndpoint | HostStatsEndpoint | ListVMs | EventsEndpoint | VM | VMStats
  | VMInterfaces | VMAutostart | SetVMAutostart | ListVMSnapshots | CreateVMSnapshot
  | RevertVMSnapshot | DeleteVMSnapshot | VMXML | VMViewer | VMScreenshot | VMStart | VMShutdown
  | VMReboot | VMPause | VMResume | VMReset | VMStop

fun run_endpoint :: "('h, 'c) service \<Rightarrow> endpoint \<Rightarrow> ('h, 'c) handler" where
  "run_endpoint svc Health r = health"
| "run_endpoint svc ReadyCheck r = ready svc"
| "run_endpoint svc HostEndpoint r = host svc"
| "run_endpoint svc HostStatsEndpoint r = hostStats svc"
| "run_endpoint svc ListVMs r = listVMs svc r"
| "run_endpoint svc EventsEndpoint r = events svc r"
| "run_endpoint svc VM r = vm svc r"
| "run_endpoint svc VMStats r = vmStats svc r"
| "run_endpoint svc VMInterfaces r = vmInterfaces svc r"
| "run_endpoint svc VMAutostart r = vmAutostart svc r"
| "run_endpoint svc SetVMAutostart r = setVMAutostart svc r"
| "run_endpoint svc ListVMSnapshots r = listVMSnapshots svc r"
| "run_endpoint svc CreateVMSnapshot r = createVMSnapshot svc r"
| "run_endpoint svc RevertVMSnapshot r = revertVMSnapshot svc r"
| "run_endpoint svc DeleteVMSnapshot r = deleteVMSnapshot svc r"
| "run_endpoint svc VMXML r = vmXML svc r"
| "run_endpoint svc VMViewer r = vmViewer svc r"
| "run_endpoint svc VMScreenshot r = vmScreenshot svc r"
| "run_endpoint svc VMStart r = vmStart svc r"
| "run_endpoint svc VMShutdown r = vmShutdown svc r"
| "run_endpoint svc VMReboot r = vmReboot svc r"
| "run_endpoint svc VMPause r = vmPause svc r"
| "run_endpoint svc VMResume r = vmResume svc r"
| "run_endpoint svc VMReset r = vmReset svc r"
| "run_endpoint svc VMStop r = vmStop svc r"

definition routes :: "(string \<times> string \<times> scope \<times> endpoint) list" where
  "routes =
     [(''GET'', ''/healthz'', scopePublic, Health),
      (''GET'', ''/readyz'', scopePublic, ReadyCheck),
      (''GET'', ''/api/v1/host'', scopeRead, HostEndpoint),
      (''GET'', ''/api/v1/host/stats'', scopeRead, HostStatsEndpoint),
      (''GET'', ''/api/v1/vms'', scopeRead, ListVMs),
      (''GET'', ''/api/v1/events'', scopeRead, EventsEndpoint),
      (''GET'', ''/api/v1/vms/{identifier}'', scopeRead, VM),
      (''GET'', ''/api/v1/vms/{identifier}/stats'', scopeRead, VMStats),
      (''GET'', ''/api/v1/vms/{identifier}/interfaces'', scopeRead, VMInterfaces),
      (''GET'', ''/api/v1/vms/{identifier}/autostart'', scopeRead, VMAutostart),
      (''PATCH'', ''/api/v1/vms/{identifier}/autostart'', scopeAdmin, SetVMAutostart),
      (''GET'', ''/api/v1/vms/{identifier}/snapshots'', scopeRead, ListVMSnapshots),
      (''POST'', ''/api/v1/vms/{identifier}/snapshots'', scopeAdmin, CreateVMSnapshot),
      (''POST'', ''/api/v1/vms/{identifier}/snapshots/{snapshot}/actions/revert'', scopeAdmin, RevertVMSnapshot),
      (''DELETE'', ''/api/v1/vms/{identifier}/snapshots/{snapshot}'', scopeAdmin, DeleteVMSnapshot),
      (''GET'', ''/api/v1/vms/{identifier}/xml'', scopeRead, VMXML),
      (''GET'', ''/api/v1/vms/{identifier}/viewer'', scopeRead, VMViewer),
      (''GET'', ''/api/v1/vms/{identifier}/screenshot'', scopeRead, VMScreenshot),
      (''POST'', ''/api/v1/vms/{identifier}/actions/start'', scopeControl, VMStart),
      (''POST'', ''/api/v1/vms/{identifier}/actions/shutdown'', scopeControl, VMShutdown),
      (''POST'', ''/api/v1/vms/{identifier}/actions/reboot'', scopeControl, VMReboot),
      (''POST'', ''/api/v1/vms/{identifier}/actions/pause'', scopeControl, VMPause),
      (''POST'', ''/api/v1/vms/{identifier}/actions/resume'', scopeControl, VMResume),
      (''POST'', ''/api/v1/vms/{identifier}/actions/reset'', scopeAdmin, VMReset),
      (''POST'', ''/api/v1/vms/{identifier}/actions/stop'', scopeAdmin, VMStop)]"

subsection \<open>The route registry\<close>

type_synonym 'f route_table = "(string \<times> (string \<times> 'f) list) list"

text \<open>Registering a route; \<open>None\<close> is the panic on a duplicate.\<close>

fun registry_handle :: "string \<Rightarrow> string \<Rightarrow> 'f \<Rightarrow> 'f route_table \<Rightarrow> 'f route_table option" where
  "registry_handle method path h [] = Some [(path, [(method, h)])]"
| "registry_handle method path h ((p, methods) # reg) =
     (if p = path then
        (if map_of methods method \<noteq> None then None
         else Some ((p, methods @ [(method, h)]) # reg))
      else map_option ((#) (p, methods)) (registry_handle method path h reg))"

fun register_all ::
  "(string \<times> string \<times> scope \<times> endpoint) list \<Rightarrow> (scope \<times> endpoint) route_table \<Rightarrow>
     (scope \<times> endpoint) route_table option" where
  "register_all [] reg = Some reg"
| "register_all ((method, path, required, e) # rest) reg =
     Option.bind (registry_handle method path (required, e) reg) (register_all rest)"

definition registry :: "(scope \<times> endpoint) route_table" where
  "registry = (case register_all routes [] of None \<Rightarrow> [] | Some reg \<Rightarrow> reg)"

definition allowedMethods :: "(string \<times> 'f) list \<Rightarrow> string list" where
  "allowedMethods methods =
     sort (concat (map (\<lambda>(m, _). if m = ''GET'' then [m, ''HEAD''] else [m]) methods))"

text \<open>The handler the registry installs for one path.\<close>

definition serveRoute ::
  "('f \<Rightarrow> ('h, 'c) handler) \<Rightarrow> (string \<times> 'f) list \<Rightarrow> ('h, 'c) handler" where
  "serveRoute run methods r =
     (let method = (if req_Method r = ''HEAD'' then ''GET'' else req_Method r) in
      case map_of methods method of
        Some matched \<Rightarrow> run matched r
      | None \<Rightarrow> do {
          respond_with (set_header ''Allow'' (join_with '', '' (allowedMethods methods)));
          writeError 405 ''method_not_allowed'' [Lit ''method not allowed'']
        })"

subsection \<open>The multiplexer\<close>

datatype segment = Literal string | Wildcard string

definition parse_segment :: "string \<Rightarrow> segment" where
  "parse_segment s = (if take 1 s = ''{'' then Wildcard (butlast (tl s)) else Literal s)"

definition parse_pattern :: "string \<Rightarrow> segment list" where
  "parse_pattern p = map parse_segment (tl (split_on (CHR ''/'') p))"

definition literals :: "string \<Rightarrow> (segment list \<times> 'f) list \<Rightarrow> (segment list \<times> 'f) list" where
  "literals seg ps = map (\<lambda>(p, f). (tl p, f)) (filter (\<lambda>(p, _). take 1 p = [Literal seg]) ps)"

fun is_wildcard :: "segment \<Rightarrow> bool" where
  "is_wildcard (Wildcard _) = True"
| "is_wildcard (Literal _) = False"

definition wildcards :: "(segment list \<times> 'f) list \<Rightarrow> (segment list \<times> 'f) list" where
  "wildcards ps = map (\<lambda>(p, f). (tl p, f)) (filter (\<lambda>(p, _). p \<noteq> [] \<and> is_wildcard (hd p)) ps)"

text \<open>
  Matching a path, segment by segment: a literal first, then a wildcard, which does not
  match the segment \<open>/\<close> (a trailing slash, or a lone escaped one).
\<close>

fun match_path ::
  "(segment list \<times> 'f) list \<Rightarrow> string list \<Rightarrow> string list \<Rightarrow> ('f \<times> string list) option" where
  "match_path ps [] vs =
     (case filter (\<lambda>(p, _). p = []) ps of (_, f) # _ \<Rightarrow> Some (f, vs) | [] \<Rightarrow> None)"
| "match_path ps (seg # segs) vs =
     (case match_path (literals seg ps) segs vs of
        Some m \<Rightarrow> Some m
      | None \<Rightarrow> if seg \<noteq> ''/'' then match_path (wildcards ps) segs (vs @ [seg]) else None)"

text \<open>\<open>path.Clean\<close> on a rooted path, and \<open>cleanPath\<close>, which keeps a trailing slash.\<close>

fun clean_segments :: "string list \<Rightarrow> string list \<Rightarrow> string list" where
  "clean_segments acc [] = rev acc"
| "clean_segments acc (s # ss) =
     (if s = [] \<or> s = ''.'' then clean_segments acc ss
      else if s = ''..'' then clean_segments (tl acc) ss
      else clean_segments (s # acc) ss)"

definition cleanPath :: "string \<Rightarrow> string" where
  "cleanPath p =
     (let p = (if take 1 p = ''/'' then p else CHR ''/'' # p);
          np = CHR ''/'' # join_with ''/'' (clean_segments [] (split_on (CHR ''/'') p))
      in if last p = CHR ''/'' \<and> np \<noteq> ''/'' then np @ ''/'' else np)"

definition path_unescape :: "string \<Rightarrow> string" where
  "path_unescape s = (case unescape EncPath s of Some t \<Rightarrow> t | None \<Rightarrow> s)"

definition path_segments :: "string \<Rightarrow> string list" where
  "path_segments p =
     (let ss = tl (split_on (CHR ''/'') p) in
      map path_unescape (butlast ss) @ (if ss = [] then [] else [if last ss = [] then ''/'' else path_unescape (last ss)]))"

definition wildcard_names :: "string \<Rightarrow> string list" where
  "wildcard_names p =
     concat (map (\<lambda>s. case s of Wildcard n \<Rightarrow> [n] | Literal _ \<Rightarrow> []) (parse_pattern p))"

definition findRoute ::
  "'f route_table \<Rightarrow> string \<Rightarrow> ((string \<times> 'f) list \<times> (string \<times> string) list) option" where
  "findRoute reg path =
     (case match_path (map (\<lambda>(p, methods). (parse_pattern p, (p, methods))) reg) (path_segments path) [] of
        None \<Rightarrow> None
      | Some ((p, methods), vs) \<Rightarrow> Some (methods, zip (wildcard_names p) vs))"

text \<open>
  \<open>ServeMux\<close>: a path that is not clean is redirected; what no route matches goes to the
  handler of the catch-all pattern.
\<close>

definition serveMux :: "('f \<Rightarrow> ('h, 'c) handler) \<Rightarrow> 'f route_table \<Rightarrow> ('h, 'c) handler" where
  "serveMux run reg r =
     (let path = (if req_Method r = ''CONNECT'' then req_EscapedPath r
                  else cleanPath (req_EscapedPath r)) in
      if path \<noteq> req_EscapedPath r then do {
        respond_with (write_header 301);
        State_Monad.return Done
      }
      else (case findRoute reg path of
          Some (methods, vars) \<Rightarrow> serveRoute run methods (r\<lparr>req_Vars := vars\<rparr>)
        | None \<Rightarrow> writeError 404 ''not_found'' [Lit ''endpoint not found'']))"

subsection \<open>The layers\<close>

definition cors :: "Server \<Rightarrow> ('h, 'c) handler \<Rightarrow> ('h, 'c) handler" where
  "cors srv next_handler r =
     (let origin = req_Header r ''Origin'' in
      if origin = [] then next_handler r
      else if origin \<notin> set (allowedOrigins srv) then
        writeError 403 ''origin_forbidden'' [Lit ''origin is not allowed'']
      else do {
        respond_with (set_header ''Access-Control-Allow-Origin'' origin);
        respond_with (set_header ''Vary'' ''Origin'');
        respond_with (set_header ''Access-Control-Allow-Headers'' ''Authorization, Content-Type, Last-Event-ID'');
        respond_with (set_header ''Access-Control-Allow-Methods'' ''GET, POST, PATCH, DELETE, OPTIONS'');
        if req_Method r = ''OPTIONS'' then do {
          respond_with (write_header 204);
          State_Monad.return Done
        }
        else next_handler r
      })"

definition maxRequestBody :: int where
  "maxRequestBody = 1048576"

definition securityHeaders :: "('h, 'c) handler \<Rightarrow> ('h, 'c) handler" where
  "securityHeaders next_handler r = do {
     respond_with (set_header ''X-Content-Type-Options'' ''nosniff'');
     respond_with (set_header ''X-Frame-Options'' ''DENY'');
     respond_with (set_header ''Referrer-Policy'' ''no-referrer'');
     next_handler (r\<lparr>req_Body := (req_Body r)\<lparr>body_limit := Some maxRequestBody\<rparr>\<rparr>)
   }"

text \<open>The log line is not reached when the handler panics.\<close>

definition accessLog :: "('h, 'c) handler \<Rightarrow> ('h, 'c) handler" where
  "accessLog next_handler r = do {
     f \<leftarrow> next_handler r;
     case f of
       Panic \<Rightarrow> State_Monad.return Panic
     | Done \<Rightarrow> do { log_line (LogRequest (req_Method r) (req_Path r)); State_Monad.return Done }
   }"

definition recoverPanic :: "('h, 'c) handler \<Rightarrow> ('h, 'c) handler" where
  "recoverPanic next_handler r = do {
     f \<leftarrow> next_handler r;
     case f of
       Done \<Rightarrow> State_Monad.return Done
     | Panic \<Rightarrow> do {
         log_line LogPanic;
         writeError 500 ''internal_error'' [Lit ''internal server error'']
       }
   }"

definition routeHandler ::
  "Server \<Rightarrow> ('h, 'c) service \<Rightarrow> scope \<times> endpoint \<Rightarrow> ('h, 'c) handler" where
  "routeHandler srv svc route = requireScope srv (fst route) (run_endpoint svc (snd route))"

definition New :: "Server \<Rightarrow> ('h, 'c) service \<Rightarrow> ('h, 'c) handler" where
  "New srv svc =
     recoverPanic (accessLog (securityHeaders (cors srv (serveMux (routeHandler srv svc) registry))))"

definition new_response :: response where
  "new_response = \<lparr>rs_header = [], rs_sent = None, rs_body = [], rs_flusher = True\<rparr>"

text \<open>One request, from a fresh response writer; the service starts in state \<open>h\<close>.\<close>

definition handle :: "Server \<Rightarrow> ('h, 'c) service \<Rightarrow> 'c Request \<Rightarrow> 'h \<Rightarrow> 'h http" where
  "handle srv svc r h =
     snd (run_state (New srv svc r) \<lparr>hyp = h, resp = new_response, logged = []\<rparr>)"

end
