(* ===== verification/Routing.thy ===== *)
theory Routing
  imports Router
begin

text \<open>
  The multiplexer against its specification: the table of routes.  A path is served by a
  route exactly if it matches the pattern of the route segment by segment.
\<close>

subsection \<open>Matching a pattern\<close>

fun matches :: "segment list \<Rightarrow> string list \<Rightarrow> bool" where
  "matches [] [] = True"
| "matches (Literal l # p) (s # ss) = (s = l \<and> matches p ss)"
| "matches (Wildcard _ # p) (s # ss) = (s \<noteq> ''/'' \<and> matches p ss)"
| "matches _ _ = False"

fun captured :: "segment list \<Rightarrow> string list \<Rightarrow> string list" where
  "captured (Wildcard _ # p) (s # ss) = s # captured p ss"
| "captured (Literal _ # p) (s # ss) = captured p ss"
| "captured _ _ = []"

lemma matches_Nil [simp]: "matches p [] \<longleftrightarrow> p = []"
proof (cases p)
  case (Cons x q)
  then show ?thesis by (cases x) simp_all
qed simp

lemma matches_Cons:
  "matches p (s # ss) \<longleftrightarrow>
     (\<exists>q. p = Literal s # q \<and> matches q ss) \<or> (\<exists>n q. p = Wildcard n # q \<and> s \<noteq> ''/'' \<and> matches q ss)"
  by (cases p) (auto, (metis matches.simps(2,3) segment.exhaust)+)

lemma take_1_eq: "take (Suc 0) p = [x] \<longleftrightarrow> (\<exists>q. p = x # q)"
  by (cases p) auto

lemma literals_mem: "(q, f) \<in> set (literals seg ps) \<longleftrightarrow> (Literal seg # q, f) \<in> set ps"
proof -
  have "(q, f) \<in> set (literals seg ps) \<longleftrightarrow>
      (\<exists>p. (p, f) \<in> set ps \<and> take 1 p = [Literal seg] \<and> q = tl p)"
    by (auto simp: literals_def)
  then show ?thesis by (auto simp: take_1_eq)
qed

lemma is_wildcard_iff: "is_wildcard x \<longleftrightarrow> (\<exists>n. x = Wildcard n)"
  by (cases x) simp_all

lemma wildcards_mem: "(q, f) \<in> set (wildcards ps) \<longleftrightarrow> (\<exists>n. (Wildcard n # q, f) \<in> set ps)"
  by (force simp: wildcards_def neq_Nil_conv is_wildcard_iff)

lemma match_path_sound:
  "match_path ps segs vs = Some (f, ws) \<Longrightarrow>
   \<exists>p. (p, f) \<in> set ps \<and> matches p segs \<and> ws = vs @ captured p segs"
proof (induction segs arbitrary: ps vs)
  case Nil
  then show ?case by (force split: list.splits dest!: filter_eq_ConsD)
next
  case (Cons seg segs)
  show ?case
  proof (cases "match_path (literals seg ps) segs vs")
    case (Some m)
    with Cons.prems have "match_path (literals seg ps) segs vs = Some (f, ws)" by simp
    from Cons.IH[OF this] obtain p where "(p, f) \<in> set (literals seg ps)" "matches p segs" "ws = vs @ captured p segs"
      by blast
    then have "(Literal seg # p, f) \<in> set ps \<and> matches (Literal seg # p) (seg # segs) \<and>
        ws = vs @ captured (Literal seg # p) (seg # segs)" by (simp add: literals_mem)
    then show ?thesis by blast
  next
    case None
    with Cons.prems have "match_path (wildcards ps) segs (vs @ [seg]) = Some (f, ws)" and "seg \<noteq> ''/''"
      by (auto split: if_splits)
    from Cons.IH[OF this(1)] this(2) obtain p n where "(Wildcard n # p, f) \<in> set ps" "matches p segs"
        "ws = vs @ seg # captured p segs"
      by (auto simp: wildcards_mem)
    then show ?thesis using \<open>seg \<noteq> ''/''\<close> by (intro exI[of _ "Wildcard n # p"]) simp
  qed
qed

lemma match_path_complete:
  "(p, f) \<in> set ps \<Longrightarrow> matches p segs \<Longrightarrow> match_path ps segs vs \<noteq> None"
proof (induction segs arbitrary: ps vs p)
  case Nil
  then have "(p, f) \<in> set (filter (\<lambda>(p, _). p = []) ps)" by simp
  then show ?case by (cases "filter (\<lambda>(p, _). p = []) ps") auto
next
  case (Cons seg segs)
  have lit: "match_path (literals seg ps) segs vs \<noteq> None" if "(q, f) \<in> set (literals seg ps)" "matches q segs" for q
    using Cons.IH that by blast
  have wild: "match_path (wildcards ps) segs (vs @ [seg]) \<noteq> None" if "(q, f) \<in> set (wildcards ps)" "matches q segs" for q
    using Cons.IH that by blast
  from Cons.prems(2) show ?case
    unfolding matches_Cons
  proof (elim disjE exE conjE)
    fix q assume "p = Literal seg # q" "matches q segs"
    with lit[of q] Cons.prems(1) show ?thesis by (auto simp: literals_mem)
  next
    fix n q assume "p = Wildcard n # q" "seg \<noteq> ''/''" "matches q segs"
    with wild[of q] Cons.prems(1) show ?thesis by (auto simp: wildcards_mem split: option.split)
  qed
qed

subsection \<open>Patterns that do not overlap\<close>

fun overlap :: "segment list \<Rightarrow> segment list \<Rightarrow> bool" where
  "overlap [] [] = True"
| "overlap (Literal a # p) (Literal b # q) = (a = b \<and> overlap p q)"
| "overlap (_ # p) (_ # q) = overlap p q"
| "overlap _ _ = False"

lemma matches_overlap: "matches p ss \<Longrightarrow> matches q ss \<Longrightarrow> overlap p q"
  by (induction ss arbitrary: p q) (auto simp: matches_Cons)

lemma registered: "register_all routes [] = Some registry"
proof -
  have "register_all routes [] \<noteq> None" by code_simp
  then show ?thesis by (auto simp: registry_def split: option.split)
qed

lemma overlap_sym: "overlap p q = overlap q p"
  by (induction p q rule: overlap.induct) auto

lemma sorted_wrt_pairs:
  "sorted_wrt P (map f xs) \<Longrightarrow> x \<in> set xs \<Longrightarrow> y \<in> set xs \<Longrightarrow> x = y \<or> P (f x) (f y) \<or> P (f y) (f x)"
  by (induction xs) auto

lemma registry_separate:
  assumes "(p, ms) \<in> set registry" and "(q, ns) \<in> set registry"
    and "overlap (parse_pattern p) (parse_pattern q)"
  shows "(p, ms) = (q, ns)"
proof -
  have "sorted_wrt (\<lambda>p q. \<not> overlap p q) (map (\<lambda>(p, _). parse_pattern p) registry)" by code_simp
  from sorted_wrt_pairs[OF this assms(1,2)] assms(3) show ?thesis by (auto simp: overlap_sym)
qed

definition registered_at :: "'f route_table \<Rightarrow> string \<Rightarrow> string \<Rightarrow> 'f option" where
  "registered_at reg p m = Option.bind (map_of reg p) (\<lambda>methods. map_of methods m)"

lemma registry_holds_routes: "(m, p, f) \<in> set routes \<Longrightarrow> registered_at registry p m = Some f"
proof -
  have "list_all (\<lambda>(m, p, f). registered_at registry p m = Some f) routes" by code_simp
  then show "(m, p, f) \<in> set routes \<Longrightarrow> ?thesis" by (auto simp: list_all_iff)
qed

lemma registry_only_routes: "(p, ms) \<in> set registry \<Longrightarrow> (m, f) \<in> set ms \<Longrightarrow> (m, p, f) \<in> set routes"
proof -
  have "list_all (\<lambda>(p, ms). list_all (\<lambda>(m, f). (m, p, f) \<in> set routes) ms) registry" by code_simp
  then show "(p, ms) \<in> set registry \<Longrightarrow> (m, f) \<in> set ms \<Longrightarrow> ?thesis" by (auto simp: list_all_iff)
qed

subsection \<open>Finding a route\<close>

lemma findRoute_exact:
  "findRoute registry path = Some (methods, vars) \<longleftrightarrow>
     (\<exists>p. (p, methods) \<in> set registry \<and> matches (parse_pattern p) (path_segments path) \<and>
        vars = zip (wildcard_names p) (captured (parse_pattern p) (path_segments path)))"
    (is "?found \<longleftrightarrow> ?exact")
proof
  let ?ps = "map (\<lambda>(p, methods). (parse_pattern p, (p, methods))) registry"
  show ?exact if found: ?found
  proof -
    from found obtain p where m: "match_path ?ps (path_segments path) [] =
        Some ((p, methods), captured (parse_pattern p) (path_segments path))"
        "(p, methods) \<in> set registry" "matches (parse_pattern p) (path_segments path)"
        "vars = zip (wildcard_names p) (captured (parse_pattern p) (path_segments path))"
      by (auto simp: findRoute_def split: option.splits dest!: match_path_sound)
    then show ?exact by blast
  qed
  assume ?exact
  then obtain p where p: "(p, methods) \<in> set registry" "matches (parse_pattern p) (path_segments path)"
      "vars = zip (wildcard_names p) (captured (parse_pattern p) (path_segments path))" by blast
  then have "(parse_pattern p, (p, methods)) \<in> set ?ps" by force
  from match_path_complete[OF this p(2)] have "match_path ?ps (path_segments path) [] \<noteq> None" .
  then obtain q ns ws where m: "match_path ?ps (path_segments path) [] = Some ((q, ns), ws)" by auto
  from match_path_sound[OF m] have q: "(q, ns) \<in> set registry" "matches (parse_pattern q) (path_segments path)"
      "ws = captured (parse_pattern q) (path_segments path)" by auto
  with p have "(q, ns) = (p, methods)" using registry_separate matches_overlap by blast
  with m q p(3) show ?found by (simp add: findRoute_def)
qed

definition route_method :: "'c Request \<Rightarrow> string" where
  "route_method r = (if req_Method r = ''HEAD'' then ''GET'' else req_Method r)"

text \<open>The route a request is dispatched to.\<close>

definition routed :: "'c Request \<Rightarrow> (scope \<times> endpoint) option" where
  "routed r =
     (case findRoute registry (req_EscapedPath r) of
        None \<Rightarrow> None
      | Some (methods, _) \<Rightarrow> map_of methods (route_method r))"

lemma registry_keys: "distinct (map fst registry)"
  by code_simp

lemma registry_method:
  assumes "(p, ms) \<in> set registry"
  shows "map_of ms m = Some f \<longleftrightarrow> (m, p, f) \<in> set routes"
proof -
  have "map_of registry p = Some ms" using registry_keys assms by (rule map_of_is_SomeI)
  then have "registered_at registry p m = map_of ms m" by (simp add: registered_at_def)
  then show ?thesis using registry_holds_routes registry_only_routes[OF assms] by (metis map_of_SomeD)
qed

lemma routed_iff:
  "routed r = Some (required, e) \<longleftrightarrow>
     (\<exists>p. (route_method r, p, required, e) \<in> set routes \<and>
        matches (parse_pattern p) (path_segments (req_EscapedPath r)))"
proof
  assume "routed r = Some (required, e)"
  then obtain ms vars where f: "findRoute registry (req_EscapedPath r) = Some (ms, vars)"
      "map_of ms (route_method r) = Some (required, e)"
    by (auto simp: routed_def split: option.splits)
  then show "\<exists>p. (route_method r, p, required, e) \<in> set routes \<and>
      matches (parse_pattern p) (path_segments (req_EscapedPath r))"
    unfolding findRoute_exact using registry_method by blast
next
  assume "\<exists>p. (route_method r, p, required, e) \<in> set routes \<and>
      matches (parse_pattern p) (path_segments (req_EscapedPath r))"
  then obtain p where p: "(route_method r, p, required, e) \<in> set routes"
      "matches (parse_pattern p) (path_segments (req_EscapedPath r))" by blast
  from registry_holds_routes[OF p(1)] obtain ms where
      "map_of registry p = Some ms" "map_of ms (route_method r) = Some (required, e)"
    by (auto simp: registered_at_def split: Option.bind_splits)
  moreover from this(1) p(2) have "\<exists>vars. findRoute registry (req_EscapedPath r) = Some (ms, vars)"
    unfolding findRoute_exact by (blast dest: map_of_SomeD)
  ultimately show "routed r = Some (required, e)" by (auto simp: routed_def)
qed

end
