(* ===== verification/Handler_Contract.thy ===== *)
theory Handler_Contract
  imports Routing
begin

text \<open>
  The contracts between the layers of the HTTP server: what a service promises the handlers
  (every operation keeps a property of its state, and its errors are of a kind), what a
  property of responses must tolerate, and, proved once under both, that every handler and
  the composed server keep the properties and answer every request.
\<close>

subsection \<open>Contracts\<close>

definition lawful :: "('h \<Rightarrow> bool) \<Rightarrow> (goerr \<Rightarrow> bool) \<Rightarrow> ('h, 'a) op \<Rightarrow> bool" where
  "lawful H ok f \<longleftrightarrow>
     (\<forall>h. H h \<longrightarrow> H (snd (f h)) \<and> (case fst (f h) of Inl e \<Rightarrow> ok e | Inr _ \<Rightarrow> True))"

locale service_contract =
  fixes svc :: "('h, 'c) service" and H :: "'h \<Rightarrow> bool" and ok :: "goerr \<Rightarrow> bool"
  assumes Ready: "lawful H ok (svcReady svc)"
    and Host: "lawful H ok (svcHost svc)"
    and HostStats: "lawful H ok (svcHostStats svc)"
    and ListDomains: "lawful H ok (svcListDomains svc which)"
    and Domain: "lawful H ok (svcDomain svc n)"
    and DomainStats: "lawful H ok (svcDomainStats svc n)"
    and DomainInterfaces: "lawful H ok (svcDomainInterfaces svc n source)"
    and Autostart: "lawful H ok (svcAutostart svc n)"
    and SetAutostart: "lawful H ok (svcSetAutostart svc n enabled)"
    and ListSnapshots: "lawful H ok (svcListSnapshots svc n)"
    and CreateSnapshot: "lawful H ok (svcCreateSnapshot svc ctx n create)"
    and RevertSnapshot: "lawful H ok (svcRevertSnapshot svc ctx n sn revert)"
    and DeleteSnapshot: "lawful H ok (svcDeleteSnapshot svc ctx n sn children)"
    and Subscribe: "H h \<Longrightarrow> H (snd (svcSubscribe svc last_id h))"
    and DomainXML: "lawful H ok (svcDomainXML svc n)"
    and Viewer: "lawful H ok (svcViewer svc n)"
    and Screenshot: "lawful H ok (svcScreenshot svc ctx n)"
    and Start: "lawful H ok (svcStart svc n)"
    and Shutdown: "lawful H ok (svcShutdown svc n mode)"
    and Reboot: "lawful H ok (svcReboot svc n mode)"
    and Pause: "lawful H ok (svcPause svc n)"
    and Resume: "lawful H ok (svcResume svc n)"
    and Reset: "lawful H ok (svcReset svc n)"
    and Stop: "lawful H ok (svcStop svc n)"

text \<open>What an endpoint needs of the service.\<close>

fun lawful_endpoint :: "('h \<Rightarrow> bool) \<Rightarrow> (goerr \<Rightarrow> bool) \<Rightarrow> ('h, 'c) service \<Rightarrow> endpoint \<Rightarrow> bool" where
  "lawful_endpoint H ok svc Health = True"
| "lawful_endpoint H ok svc ReadyCheck = lawful H ok (svcReady svc)"
| "lawful_endpoint H ok svc HostEndpoint = lawful H ok (svcHost svc)"
| "lawful_endpoint H ok svc HostStatsEndpoint = lawful H ok (svcHostStats svc)"
| "lawful_endpoint H ok svc ListVMs = (\<forall>which. lawful H ok (svcListDomains svc which))"
| "lawful_endpoint H ok svc EventsEndpoint = (\<forall>cur h. H h \<longrightarrow> H (snd (svcSubscribe svc cur h)))"
| "lawful_endpoint H ok svc VM = (\<forall>n. lawful H ok (svcDomain svc n))"
| "lawful_endpoint H ok svc VMStats = (\<forall>n. lawful H ok (svcDomainStats svc n))"
| "lawful_endpoint H ok svc VMInterfaces = (\<forall>n source. lawful H ok (svcDomainInterfaces svc n source))"
| "lawful_endpoint H ok svc VMAutostart = (\<forall>n. lawful H ok (svcAutostart svc n))"
| "lawful_endpoint H ok svc SetVMAutostart = (\<forall>n enabled. lawful H ok (svcSetAutostart svc n enabled))"
| "lawful_endpoint H ok svc ListVMSnapshots = (\<forall>n. lawful H ok (svcListSnapshots svc n))"
| "lawful_endpoint H ok svc CreateVMSnapshot = (\<forall>ctx n q. lawful H ok (svcCreateSnapshot svc ctx n q))"
| "lawful_endpoint H ok svc RevertVMSnapshot = (\<forall>ctx n sn q. lawful H ok (svcRevertSnapshot svc ctx n sn q))"
| "lawful_endpoint H ok svc DeleteVMSnapshot = (\<forall>ctx n sn c. lawful H ok (svcDeleteSnapshot svc ctx n sn c))"
| "lawful_endpoint H ok svc VMXML = (\<forall>n. lawful H ok (svcDomainXML svc n))"
| "lawful_endpoint H ok svc VMViewer = (\<forall>n. lawful H ok (svcViewer svc n))"
| "lawful_endpoint H ok svc VMScreenshot = (\<forall>ctx n. lawful H ok (svcScreenshot svc ctx n))"
| "lawful_endpoint H ok svc VMStart = (\<forall>n. lawful H ok (svcStart svc n))"
| "lawful_endpoint H ok svc VMShutdown = (\<forall>n mode. lawful H ok (svcShutdown svc n mode))"
| "lawful_endpoint H ok svc VMReboot = (\<forall>n mode. lawful H ok (svcReboot svc n mode))"
| "lawful_endpoint H ok svc VMPause = (\<forall>n. lawful H ok (svcPause svc n))"
| "lawful_endpoint H ok svc VMResume = (\<forall>n. lawful H ok (svcResume svc n))"
| "lawful_endpoint H ok svc VMReset = (\<forall>n. lawful H ok (svcReset svc n))"
| "lawful_endpoint H ok svc VMStop = (\<forall>n. lawful H ok (svcStop svc n))"

context service_contract
begin

lemma endpoint_law: "lawful_endpoint H ok svc e"
  by (cases e)
     (simp_all add: Ready Host HostStats ListDomains Domain DomainStats DomainInterfaces Autostart
        SetAutostart ListSnapshots CreateSnapshot RevertSnapshot DeleteSnapshot Subscribe DomainXML
        Viewer Screenshot Start Shutdown Reboot Pause Resume Reset Stop)

end

text \<open>The headers the outer layer sets, which no handler sets again, and the statuses.\<close>

definition security_headers :: "(string \<times> string) list" where
  "security_headers =
     [(''X-Content-Type-Options'', ''nosniff''), (''X-Frame-Options'', ''DENY''),
      (''Referrer-Policy'', ''no-referrer'')]"

definition plain_header :: "string \<Rightarrow> bool" where
  "plain_header k \<longleftrightarrow> map_of security_headers k = None"

definition statuses :: "int list" where
  "statuses = [200, 201, 202, 204, 301, 400, 401, 403, 404, 405, 409, 422, 500, 503]"

definition secured_response :: response where
  "secured_response = foldl (\<lambda>r (k, v). set_header k v r) new_response security_headers"

locale response_contract =
  fixes R :: "response \<Rightarrow> bool" and ok_part :: "part \<Rightarrow> bool" and ok :: "goerr \<Rightarrow> bool"
  assumes fresh: "R secured_response"
    and set_header: "R r \<Longrightarrow> plain_header k \<Longrightarrow> R (set_header k v r)"
    and write_header: "R r \<Longrightarrow> status \<in> set statuses \<Longrightarrow> R (write_header status r)"
    and write_part: "R r \<Longrightarrow> ok_part p \<Longrightarrow> R (write_part p r)"
    and part_json: "\<not> json_leaks j \<Longrightarrow> ok_part (PJson j)"
    and part_text: "ok_part (PText t)"
    and part_event: "\<not> json_leaks j \<Longrightarrow> ok_part (PEvent cur name j)"
    and part_error: "ok err \<Longrightarrow> serviceError err = (status, code, message) \<Longrightarrow>
      ok_part (PJson (error_json code message))"

locale handler_contract = service_contract svc H ok + response_contract R ok_part ok
  for svc :: "('h, 'c) service" and H :: "'h \<Rightarrow> bool" and ok :: "goerr \<Rightarrow> bool"
    and R :: "response \<Rightarrow> bool" and ok_part :: "part \<Rightarrow> bool"

subsection \<open>What a handler is checked for\<close>

definition held :: "('h \<Rightarrow> bool) \<Rightarrow> (response \<Rightarrow> bool) \<Rightarrow> 'h http \<Rightarrow> bool" where
  "held H R s \<longleftrightarrow> H (hyp s) \<and> R (resp s)"

definition answered :: "response \<Rightarrow> bool" where
  "answered r \<longleftrightarrow> rs_sent r \<noteq> None"

definition answers :: "('h \<Rightarrow> bool) \<Rightarrow> (response \<Rightarrow> bool) \<Rightarrow> ('h, flow) web \<Rightarrow> bool" where
  "answers H R m \<longleftrightarrow> triple (held H R) m (\<lambda>_ s. held H R s \<and> answered (resp s))"

lemma answered_steps [simp]:
  "answered (write_header status r)" "answered (write_part p r)"
  "answered (set_header k v r) = answered r"
  by (simp_all add: answered_def write_header_def write_part_def Let_def set_header_def)

lemma answers_if: "(b \<Longrightarrow> answers H R m) \<Longrightarrow> (\<not> b \<Longrightarrow> answers H R n) \<Longrightarrow> answers H R (if b then m else n)"
  by simp

lemma answers_let: "answers H R (f v) \<Longrightarrow> answers H R (let x = v in f x)"
  by simp

lemma answers_option:
  "(x = None \<Longrightarrow> answers H R m) \<Longrightarrow> (\<And>v. x = Some v \<Longrightarrow> answers H R (f v)) \<Longrightarrow>
   answers H R (case x of None \<Rightarrow> m | Some v \<Rightarrow> f v)"
  by (cases x) simp_all

lemma answers_sum:
  "(\<And>e. x = Inl e \<Longrightarrow> answers H R (f e)) \<Longrightarrow> (\<And>v. x = Inr v \<Longrightarrow> answers H R (g v)) \<Longrightarrow>
   answers H R (case x of Inl e \<Rightarrow> f e | Inr v \<Rightarrow> g v)"
  by (cases x) simp_all

lemma answers_prod:
  "(\<And>a b. x = (a, b) \<Longrightarrow> answers H R (f a b)) \<Longrightarrow> answers H R (case x of (a, b) \<Rightarrow> f a b)"
  by (cases x) simp

lemmas answers_cases = answers_if answers_let answers_option answers_sum answers_prod

lemma answers_log: "answers H R m \<Longrightarrow> answers H R (do { log_line e; m })"
  by (simp add: answers_def triple_def held_def run_log_line)

text \<open>The panic that a handler may end with is caught, and answered if nothing was sent.\<close>

lemma answers_serve:
  assumes "lawful H ok f"
    and "\<And>r. (case r of Inl e \<Rightarrow> ok e | Inr _ \<Rightarrow> True) \<Longrightarrow> answers H R (g r)"
  shows "answers H R (do { r \<leftarrow> serve f; g r })"
  using assms unfolding answers_def triple_def held_def lawful_def
  by (simp add: run_serve)

context response_contract
begin

lemma steps:
  "plain_header k \<Longrightarrow> answers H R m \<Longrightarrow> answers H R (do { respond_with (set_header k v); m })"
  "status \<in> set statuses \<Longrightarrow> answers H R (do { respond_with (write_header status); State_Monad.return f })"
  "ok_part p \<Longrightarrow> status \<in> set statuses \<Longrightarrow>
     answers H R (do { respond_with (write_header status); respond_with (write_part p); State_Monad.return f })"
  by (simp_all add: answers_def triple_def held_def run_respond_with set_header write_header write_part)

lemma json_shape:
  assumes "status \<in> set statuses" and "ok_part (PJson v)"
  shows "answers H R (writeJSON status v)"
  using assms
  by (simp add: answers_def triple_def held_def run_writeJSON Let_def set_header write_header write_part
      plain_header_def security_headers_def)

lemma json: "status \<in> set statuses \<Longrightarrow> \<not> json_leaks v \<Longrightarrow> answers H R (writeJSON status v)"
  by (rule json_shape) (simp_all add: part_json)

lemma error: "status \<in> set statuses \<Longrightarrow> \<not> leaks message \<Longrightarrow> answers H R (writeError status code message)"
  by (simp add: writeError_def json)

lemma service_error: "ok err \<Longrightarrow> answers H R (writeServiceError err)"
proof -
  assume ok: "ok err"
  obtain status code message where e: "serviceError err = (status, code, message)"
    by (metis prod_cases3)
  then have "status \<in> set statuses" by (auto simp: serviceError_def statuses_def split: if_splits)
  then have "answers H R (writeError status code message)"
    using json_shape part_error[OF ok e] by (simp add: writeError_def)
  then show ?thesis by (auto simp: writeServiceError_def e intro: answers_log)
qed

lemma respond:
  assumes "status \<in> set statuses" and "\<And>v. \<not> json_leaks (encode v)"
    and "case r of Inl e \<Rightarrow> ok e | Inr _ \<Rightarrow> True"
  shows "answers H R (respond status encode r)"
  using assms by (auto simp: respond_def intro: service_error json split: sum.split)

lemma respond_all:
  assumes "status \<in> set statuses" and "\<And>x. \<not> json_leaks (f x)"
    and "case r of Inl e \<Rightarrow> ok e | Inr _ \<Rightarrow> True"
  shows "answers H R (respond status (\<lambda>xs. JObj [(k, JArr (map f xs))]) r)"
  by (rule respond) (use assms in \<open>auto simp: list_ex_iff\<close>)

end

subsection \<open>The handlers\<close>

context response_contract
begin

lemma calls:
  assumes "lawful H ok f" and "status \<in> set statuses" and "\<And>v. \<not> json_leaks (encode v)"
  shows "answers H R (do { r \<leftarrow> serve f; respond status encode r })"
  by (rule answers_serve[OF assms(1)]) (rule respond[OF assms(2,3)])

lemmas served = answers_serve[where ok = ok]

lemma runAction_answers:
  "(\<And>n. lawful H ok (action n)) \<Longrightarrow> status \<in> set statuses \<Longrightarrow> answers H R (runAction r status action)"
  unfolding runAction_def by (rule calls) simp_all

lemma decoded_mode:
  "(\<And>mode. answers H R (f mode)) \<Longrightarrow>
   answers H R (case decodePowerMode r of Inl (code, message) \<Rightarrow> writeError 400 code message | Inr mode \<Rightarrow> f mode)"
  by (auto simp: decodePowerMode_def Let_def statuses_def intro!: error split: option.split)

lemma actions:
  "lawful_endpoint H ok svc VMStart \<Longrightarrow> answers H R (vmStart svc r)"
  "lawful_endpoint H ok svc VMStop \<Longrightarrow> answers H R (vmStop svc r)"
  "lawful_endpoint H ok svc VMPause \<Longrightarrow> answers H R (vmPause svc r)"
  "lawful_endpoint H ok svc VMResume \<Longrightarrow> answers H R (vmResume svc r)"
  "lawful_endpoint H ok svc VMReset \<Longrightarrow> answers H R (vmReset svc r)"
  "lawful_endpoint H ok svc VMShutdown \<Longrightarrow> answers H R (vmShutdown svc r)"
  "lawful_endpoint H ok svc VMReboot \<Longrightarrow> answers H R (vmReboot svc r)"
  unfolding vmStart_def vmStop_def vmPause_def vmResume_def vmReset_def vmShutdown_def vmReboot_def
  by (rule runAction_answers decoded_mode calls | simp add: statuses_def)+

lemma reads:
  "lawful_endpoint H ok svc HostEndpoint \<Longrightarrow> answers H R (host svc)"
  "lawful_endpoint H ok svc HostStatsEndpoint \<Longrightarrow> answers H R (hostStats svc)"
  "lawful_endpoint H ok svc VM \<Longrightarrow> answers H R (vm svc r)"
  "lawful_endpoint H ok svc VMStats \<Longrightarrow> answers H R (vmStats svc r)"
  "lawful_endpoint H ok svc VMAutostart \<Longrightarrow> answers H R (vmAutostart svc r)"
  "lawful_endpoint H ok svc VMViewer \<Longrightarrow> answers H R (vmViewer svc r)"
  unfolding host_def hostStats_def vm_def vmStats_def vmAutostart_def vmViewer_def
  by (rule calls | simp add: statuses_def)+

lemma lists:
  "lawful_endpoint H ok svc ListVMs \<Longrightarrow> answers H R (listVMs svc r)"
  "lawful_endpoint H ok svc ListVMSnapshots \<Longrightarrow> answers H R (listVMSnapshots svc r)"
  unfolding listVMs_def listVMSnapshots_def
  by (rule answers_cases served respond_all error results_no_leak(12)[simplified] |
      simp add: statuses_def)+

lemma interfaces: "lawful_endpoint H ok svc VMInterfaces \<Longrightarrow> answers H R (vmInterfaces svc r)"
  unfolding vmInterfaces_def by (rule answers_cases calls error | simp add: statuses_def)+

lemma checks:
  "answers H R health"
  "lawful_endpoint H ok svc ReadyCheck \<Longrightarrow> answers H R (ready svc)"
  unfolding health_def ready_def
  by (rule json served answers_cases answers_log error | simp add: statuses_def)+

lemma xml: "lawful_endpoint H ok svc VMXML \<Longrightarrow> answers H R (vmXML svc r)"
  unfolding vmXML_def
  by (rule served answers_cases service_error steps part_text |
      simp add: statuses_def plain_header_def security_headers_def)+

lemma screenshot:
  assumes "lawful_endpoint H ok svc VMScreenshot"
  shows "answers H R (vmScreenshot svc r)"
proof -
  have tail: "answers H R (do {
         respond_with (write_header 200);
         respond_with (write_part (PText bytes));
         (case failure of None \<Rightarrow> State_Monad.return () | Some err \<Rightarrow> log_line (LogScreenshot err));
         State_Monad.return Done
       })" for bytes failure
    using write_header[of _ 200] write_part[OF _ part_text]
    by (cases failure) (auto simp: answers_def triple_def held_def run_respond_with run_log_line statuses_def)
  show ?thesis
    unfolding vmScreenshot_def
    by (rule served answers_cases service_error steps(1) tail |
        use assms in \<open>simp add: plain_header_def security_headers_def\<close>)+
qed

lemma event_parts: "p \<in> set (event_loop inputs) \<Longrightarrow> ok_part p"
  by (induction inputs rule: event_loop.induct)
     (auto simp: event_part_def reset_json_def part_text split: if_splits intro!: part_event)

lemma write_parts_keeps:
  "(\<And>p. p \<in> set ps \<Longrightarrow> ok_part p) \<Longrightarrow> R r \<Longrightarrow> R (write_parts ps r)"
  by (induction ps arbitrary: r) (auto intro: write_part)

lemma write_parts_answered: "answered r \<Longrightarrow> answered (write_parts ps r)"
  by (induction ps arbitrary: r) auto

lemma stream:
  assumes "lawful_endpoint H ok svc EventsEndpoint"
  shows "answers H R (events svc r)"
proof -
  have "answers H R (do {
       respond_with (write_header 200);
       respond_with (write_part (PText ('': connected'' @ [newline, newline])));
       inputs \<leftarrow> serve (svcSubscribe svc (req_Header r ''Last-Event-Id''));
       respond_with (write_parts (event_loop inputs));
       State_Monad.return Done
     })"
    using write_header[of _ 200] write_part[OF _ part_text] write_parts_keeps event_parts
      write_parts_answered assms
    by (auto simp: answers_def triple_def held_def run_respond_with run_serve statuses_def)
  then have body: "answers H R (do {
       respond_with (set_header ''Content-Type'' ''text/event-stream'');
       respond_with (set_header ''Cache-Control'' ''no-cache'');
       respond_with (set_header ''Connection'' ''keep-alive'');
       respond_with (write_header 200);
       respond_with (write_part (PText ('': connected'' @ [newline, newline])));
       inputs \<leftarrow> serve (svcSubscribe svc (req_Header r ''Last-Event-Id''));
       respond_with (write_parts (event_loop inputs));
       State_Monad.return Done
     })" (is "answers H R ?body")
    by (intro steps(1)) (simp_all add: plain_header_def security_headers_def)
  have "answers H R (writeError 500 ''streaming_unsupported'' [Lit ''streaming is unavailable''])"
    by (rule error) (simp_all add: statuses_def)
  with body show ?thesis
    by (simp add: events_def answers_def triple_def)
qed

lemma changes:
  "lawful_endpoint H ok svc SetVMAutostart \<Longrightarrow> answers H R (setVMAutostart svc r)"
  "lawful_endpoint H ok svc CreateVMSnapshot \<Longrightarrow> answers H R (createVMSnapshot svc r)"
  "lawful_endpoint H ok svc RevertVMSnapshot \<Longrightarrow> answers H R (revertVMSnapshot svc r)"
  "lawful_endpoint H ok svc DeleteVMSnapshot \<Longrightarrow> answers H R (deleteVMSnapshot svc r)"
  unfolding setVMAutostart_def createVMSnapshot_def revertVMSnapshot_def deleteVMSnapshot_def
  by (rule answers_cases error calls served service_error steps | simp add: statuses_def)+

lemmas endpoints = actions reads lists interfaces checks xml screenshot stream changes

lemma run_endpoint_answers: "lawful_endpoint H ok svc e \<Longrightarrow> answers H R (run_endpoint svc e r)"
  by (cases e) (simp_all add: endpoints del: lawful_endpoint.simps)

end

subsection \<open>The composed server\<close>

text \<open>The scope of the token a request carries, and whether a route lets the request through.\<close>

definition bearer_scope :: "Server \<Rightarrow> 'c Request \<Rightarrow> scope option" where
  "bearer_scope srv r =
     (case cut_at (CHR '' '') (req_Header r ''Authorization'') of
        (scheme, provided, found) \<Rightarrow>
          if found \<and> equal_fold scheme ''Bearer'' \<and> provided \<noteq> [] then scopeForToken srv provided
          else None)"

definition admits :: "Server \<Rightarrow> scope \<Rightarrow> 'c Request \<Rightarrow> bool" where
  "admits srv required r \<longleftrightarrow>
     required = scopePublic \<or> \<not> serverHasCredentials srv \<or>
     (case bearer_scope srv r of None \<Rightarrow> False | Some granted \<Rightarrow> required \<le> granted)"

definition origin_allowed :: "Server \<Rightarrow> 'c Request \<Rightarrow> bool" where
  "origin_allowed srv r \<longleftrightarrow>
     req_Header r ''Origin'' = [] \<or> req_Header r ''Origin'' \<in> set (allowedOrigins srv)"

definition reaches :: "Server \<Rightarrow> 'c Request \<Rightarrow> endpoint \<Rightarrow> bool" where
  "reaches srv r e \<longleftrightarrow>
     origin_allowed srv r \<and> (\<exists>required. routed r = Some (required, e) \<and> admits srv required r)"

definition limited :: "'c Request \<Rightarrow> 'c Request" where
  "limited r = r\<lparr>req_Body := (req_Body r)\<lparr>body_limit := Some maxRequestBody\<rparr>\<rparr>"

definition inner :: "Server \<Rightarrow> ('h, 'c) service \<Rightarrow> ('h, 'c) handler" where
  "inner srv svc = cors srv (serveMux (routeHandler srv svc) registry)"

lemma limited_simps [simp]:
  "req_Header (limited r) = req_Header r" "req_Method (limited r) = req_Method r"
  "req_EscapedPath (limited r) = req_EscapedPath r"
  by (simp_all add: limited_def)

lemma reaches_limited [simp]: "reaches srv (limited r) e = reaches srv r e"
proof -
  have "routed (limited r) = routed r" by (auto simp: routed_def route_method_def split: option.split)
  then show ?thesis by (simp add: reaches_def origin_allowed_def admits_def bearer_scope_def)
qed

lemma run_securityHeaders:
  "resp s = new_response \<Longrightarrow>
   run_state (securityHeaders m r) s = run_state (m (limited r)) (s\<lparr>resp := secured_response\<rparr>)"
  by (simp add: securityHeaders_def run_respond_with secured_response_def security_headers_def limited_def)

lemma handle_inner:
  "handle srv svc r h =
     snd (run_state (recoverPanic (accessLog (\<lambda>_. inner srv svc (limited r))) r)
       \<lparr>hyp = h, resp = secured_response, logged = []\<rparr>)"
  by (simp add: handle_def New_def inner_def recoverPanic_def accessLog_def run_securityHeaders split: prod.split)

context response_contract
begin

lemma denied:
  "answers H R unauthorized"
  "answers H R (writeError 403 code [Lit message])"
  "answers H R (writeError 404 code [Lit message])"
  unfolding unauthorized_def
  by (intro steps(1) error; simp add: statuses_def plain_header_def security_headers_def)+

lemma requireScope_answers:
  assumes "admits srv required r \<Longrightarrow> answers H R (next_handler r)"
  shows "answers H R (requireScope srv required next_handler r)"
proof (cases "admits srv required r")
  case True
  then show ?thesis
    using assms unfolding requireScope_def
    by (auto simp: denied split: prod.split option.split)
next
  case False
  then show ?thesis
    unfolding requireScope_def admits_def bearer_scope_def
    by (auto simp: denied split: prod.split option.split)
qed

lemma serveMux_answers:
  assumes "\<And>required e vars. routed r = Some (required, e) \<Longrightarrow> answers H R (run (required, e) (r\<lparr>req_Vars := vars\<rparr>))"
  shows "answers H R (serveMux run registry r)"
proof (cases "(if req_Method r = ''CONNECT'' then req_EscapedPath r else cleanPath (req_EscapedPath r)) = req_EscapedPath r")
  case True
  have refused: "answers H R (do {
      respond_with (set_header ''Allow'' v);
      writeError 405 ''method_not_allowed'' [Lit ''method not allowed'']
    })" for v
    by (intro steps(1) error) (simp_all add: statuses_def plain_header_def security_headers_def)
  have "answers H R (case findRoute registry (req_EscapedPath r) of
          Some (methods, vars) \<Rightarrow> serveRoute run methods (r\<lparr>req_Vars := vars\<rparr>)
        | None \<Rightarrow> writeError 404 ''not_found'' [Lit ''endpoint not found''])"
    using assms
    by (auto simp: serveRoute_def Let_def routed_def route_method_def refused denied split: option.split)
  with True show ?thesis by (simp add: serveMux_def Let_def)
next
  case False
  then show ?thesis unfolding serveMux_def Let_def by (simp add: steps(2) statuses_def)
qed

lemma cors_answers:
  assumes "origin_allowed srv r \<Longrightarrow> answers H R (next_handler r)"
  shows "answers H R (cors srv next_handler r)"
proof (cases "origin_allowed srv r")
  case True
  have "answers H R (do {
      respond_with (set_header ''Access-Control-Allow-Origin'' (req_Header r ''Origin''));
      respond_with (set_header ''Vary'' ''Origin'');
      respond_with (set_header ''Access-Control-Allow-Headers'' ''Authorization, Content-Type, Last-Event-ID'');
      respond_with (set_header ''Access-Control-Allow-Methods'' ''GET, POST, PATCH, DELETE, OPTIONS'');
      if req_Method r = ''OPTIONS'' then do {
        respond_with (write_header 204);
        State_Monad.return Done
      }
      else next_handler r
    })"
    using assms[OF True]
    by (intro steps(1) answers_if steps(2)) (simp_all add: statuses_def plain_header_def security_headers_def)
  with True assms show ?thesis by (auto simp: cors_def origin_allowed_def Let_def)
next
  case False
  then show ?thesis by (simp add: cors_def origin_allowed_def Let_def denied)
qed

lemma accessLog_answers: "answers H R (m r) \<Longrightarrow> answers H R (accessLog m r)"
  unfolding accessLog_def answers_def
  by (erule triple_bind) (auto simp: triple_def run_log_line held_def split: flow.split)

lemma recoverPanic_answers: "answers H R (m r) \<Longrightarrow> answers H R (recoverPanic m r)"
proof -
  assume m: "answers H R (m r)"
  have "answers H R (do {
         log_line LogPanic;
         writeError 500 ''internal_error'' [Lit ''internal server error'']
       })"
    by (intro answers_log error) (simp_all add: statuses_def)
  with m show ?thesis
    unfolding recoverPanic_def answers_def
    by (elim triple_bind) (auto simp: triple_def split: flow.split)
qed

lemma inner_answers:
  assumes "\<And>e. reaches srv r e \<Longrightarrow> lawful_endpoint H ok svc e"
  shows "answers H R (inner srv svc r)"
  unfolding inner_def
proof (rule cors_answers, rule serveMux_answers)
  fix required e vars
  assume "origin_allowed srv r" and "routed r = Some (required, e)"
  then have "admits srv required (r\<lparr>req_Vars := vars\<rparr>) \<Longrightarrow> lawful_endpoint H ok svc e"
    using assms by (auto simp: reaches_def admits_def bearer_scope_def)
  then show "answers H R (routeHandler srv svc (required, e) (r\<lparr>req_Vars := vars\<rparr>))"
    unfolding routeHandler_def by (intro requireScope_answers) (simp add: run_endpoint_answers)
qed

text \<open>What a request does, if the endpoint it can reach is lawful.\<close>

lemma handle_gated:
  assumes "\<And>e. reaches srv r e \<Longrightarrow> lawful_endpoint H ok svc e" and "H h"
  shows "H (hyp (handle srv svc r h)) \<and> R (resp (handle srv svc r h)) \<and> answered (resp (handle srv svc r h))"
proof -
  have "answers H R (recoverPanic (accessLog (\<lambda>_. inner srv svc (limited r))) r)"
    by (intro recoverPanic_answers accessLog_answers inner_answers) (simp add: assms(1))
  with assms(2) show ?thesis
    by (simp add: handle_inner answers_def triple_def held_def fresh)
qed

end

context handler_contract
begin

lemma handle_answers:
  "H h \<Longrightarrow> H (hyp (handle srv svc r h)) \<and> R (resp (handle srv svc r h)) \<and> answered (resp (handle srv svc r h))"
  by (rule handle_gated) (simp_all add: endpoint_law)

end

end
