(* ===== verification/Libvirt_Service.thy ===== *)
theory Libvirt_Service
  imports Snapshots Handlers
begin

text \<open>
  The libvirt adapter as an implementation of the \<open>Service\<close> interface that the HTTP handlers
  call: each operation of \<open>internal/hypervisor/libvirt.go\<close> and \<open>snapshots.go\<close> under its name in the
  interface.
\<close>

subsection \<open>The adapter as a service\<close>

record ('w, 'd) lv_service = "('w, 'd) lv_snapshots" +
  StreamRecvAll :: "'d \<Rightarrow> 'w \<Rightarrow> (string \<times> lverr option) \<times> 'w"

text \<open>
  A screenshot with the copy to its end, which the handler waits for; the error of the
  context, if the copying goroutine sees it first, is the one of the check.
\<close>

definition screenshot_copied ::
  "('w, 'd, 'x) lv_service_scheme \<Rightarrow> Context \<Rightarrow> string \<Rightarrow> ('w, 'd, goerr + shot) io" where
  "screenshot_copied lv ctx identifier = do {
     r \<leftarrow> ScreenshotOf lv identifier;
     case r of
       Inl err \<Rightarrow> State_Monad.return (Inl err)
     | Inr shot \<Rightarrow> do {
         d \<leftarrow> ask QStreamRecvAll (shot_stream shot) (StreamRecvAll lv);
         err \<leftarrow> copyScreenshot lv shot (snd d) (ctx_check ctx);
         State_Monad.return (Inr (shot_ContentType shot, fst d, err))
       }
   }"

text \<open>The sequence of events a subscriber sees is an argument: theory \<open>EventFeed\<close> is about it.\<close>

definition libvirt_service ::
  "((Snapshot \<Rightarrow> Snapshot \<Rightarrow> int) \<Rightarrow> Snapshot list \<Rightarrow> Snapshot list) \<Rightarrow> (string \<Rightarrow> sse_input list) \<Rightarrow>
     ('w, 'd, 'x) lv_service_scheme \<Rightarrow> (('w, 'd) run, Context) service" where
  "libvirt_service sort_func seen lv =
     \<lparr>svcReady = run_state (Ready lv),
      svcHost = run_state (HostInfo lv),
      svcHostStats = run_state (HostStatistics lv),
      svcListDomains = (\<lambda>which. run_state (ListDomains lv which)),
      svcDomain = (\<lambda>n. run_state (DomainDetails lv n)),
      svcDomainStats = (\<lambda>n. run_state (DomainStatistics lv n)),
      svcDomainInterfaces = (\<lambda>n source. run_state (InterfaceList lv n source)),
      svcAutostart = (\<lambda>n. run_state (AutostartStatus lv n)),
      svcSetAutostart = (\<lambda>n enabled. run_state (SetAutostart lv n enabled)),
      svcListSnapshots = (\<lambda>n. run_state (ListSnapshots sort_func lv n)),
      svcCreateSnapshot = (\<lambda>ctx n q. run_state (CreateSnapshot lv ctx n q)),
      svcRevertSnapshot = (\<lambda>ctx n sn q. run_state (RevertSnapshot lv ctx n sn q)),
      svcDeleteSnapshot = (\<lambda>ctx n sn children. run_state (DeleteSnapshot lv ctx n sn children)),
      svcSubscribe = (\<lambda>cur h. (seen cur, h)),
      svcDomainXML = (\<lambda>n. run_state (DomainXML lv n)),
      svcViewer = (\<lambda>n. run_state (ViewerOf lv n)),
      svcScreenshot = (\<lambda>ctx n. run_state (screenshot_copied lv ctx n)),
      svcStart = (\<lambda>n. run_state (Start lv n)),
      svcShutdown = (\<lambda>n mode. run_state (Shutdown lv n mode)),
      svcReboot = (\<lambda>n mode. run_state (Reboot lv n mode)),
      svcPause = (\<lambda>n. run_state (Pause lv n)),
      svcResume = (\<lambda>n. run_state (Resume lv n)),
      svcReset = (\<lambda>n. run_state (Reset lv n)),
      svcStop = (\<lambda>n. run_state (Stop lv n))\<rparr>"

lemma screenshot_copied_sound:
  "triple (at NoHandle) (screenshot_copied lv ctx n) (\<lambda>r s. at NoHandle s \<and> sound_result r)"
proof -
  have copied: "triple (at (Mon {#shot_domain shot, shot_stream shot#} None))
      (do {
         d \<leftarrow> ask QStreamRecvAll (shot_stream shot) (StreamRecvAll lv);
         err \<leftarrow> copyScreenshot lv shot (snd d) (ctx_check ctx);
         State_Monad.return (Inr (shot_ContentType shot, fst d, err))
       }) (\<lambda>r s. at NoHandle s \<and> sound_result r)" for shot
    by (rule triple_bind[OF triple_ask] triple_bind[OF copyScreenshot_releases] triple_rules | simp)+
  show ?thesis
    unfolding screenshot_copied_def
    by (rule triple_bind[OF ScreenshotOf_sound], rule triple_sum)
       (auto intro!: triple_return intro: triple_weaken[OF copied])
qed

end
