(* ===== verification/Api.thy ===== *)
theory Api
  imports Handler_Contract Libvirt_Service
begin

text \<open>
  The contracts of theory \<open>Handler_Contract\<close> discharged by the model: responses of any service
  carry the security headers and a documented status, and responses over the libvirt adapter
  show no text of the library, whatever the binding answers.
\<close>

subsection \<open>Responses of any service\<close>

definition well_formed :: "response \<Rightarrow> bool" where
  "well_formed r \<longleftrightarrow>
     list_all (\<lambda>(k, v). map_of (rs_header r) k = Some v \<and>
       (case rs_sent r of None \<Rightarrow> True | Some (_, hs) \<Rightarrow> map_of hs k = Some v)) security_headers \<and>
     (case rs_sent r of None \<Rightarrow> rs_body r = [] | Some (status, _) \<Rightarrow> status \<in> set statuses)"

lemma well_formed_header: "well_formed r \<Longrightarrow> plain_header k \<Longrightarrow> well_formed (set_header k v r)"
  by (auto simp: well_formed_def set_header_def plain_header_def security_headers_def split: if_splits option.splits)

lemma well_formed_status: "well_formed r \<Longrightarrow> status \<in> set statuses \<Longrightarrow> well_formed (write_header status r)"
  by (auto simp: well_formed_def write_header_def list_all_iff)

lemma well_formed_part: "well_formed r \<Longrightarrow> well_formed (write_part p r)"
proof -
  have sent: "well_formed q \<Longrightarrow> answered q \<Longrightarrow> well_formed (q\<lparr>rs_body := b\<rparr>)" for q b
    by (auto simp: well_formed_def answered_def)
  assume "well_formed r"
  then have "well_formed (write_header 200 r)" by (rule well_formed_status) (simp add: statuses_def)
  from sent[OF this] show ?thesis by (simp add: write_part_def Let_def)
qed

interpretation forms: response_contract well_formed "\<lambda>_. True" "\<lambda>_. True"
proof unfold_locales
  show "well_formed secured_response" by code_simp
qed (auto intro: well_formed_header well_formed_status well_formed_part)

interpretation any_service: handler_contract svc "\<lambda>_. True" "\<lambda>_. True" well_formed "\<lambda>_. True"
  for svc :: "('h, 'c) service"
  by unfold_locales (simp_all add: lawful_def split: sum.split)

subsection \<open>Responses over the libvirt adapter\<close>

fun part_leaks :: "part \<Rightarrow> bool" where
  "part_leaks (PJson j) = json_leaks j"
| "part_leaks (PText _) = False"
| "part_leaks (PEvent _ _ j) = json_leaks j"

definition no_leaks :: "response \<Rightarrow> bool" where
  "no_leaks r \<longleftrightarrow> list_all (\<lambda>p. \<not> part_leaks p) (rs_body r)"

lemma no_leaks_steps [simp]:
  "no_leaks (set_header k v r) = no_leaks r" "no_leaks (write_header status r) = no_leaks r"
  "no_leaks (write_part p r) \<longleftrightarrow> no_leaks r \<and> \<not> part_leaks p"
  by (auto simp: no_leaks_def set_header_def write_header_def write_part_def Let_def)

interpretation silence: response_contract no_leaks "\<lambda>p. \<not> part_leaks p" presentable
proof unfold_locales
  show "no_leaks secured_response" by code_simp
qed (auto dest: serviceError_safe)

lemma lawful_triple:
  "triple P m (\<lambda>r s. P s \<and> sound_result r) \<Longrightarrow> lawful P presentable (run_state m)"
  by (simp add: lawful_def triple_def sound_result_def)

lemma lawful_changing: "changing A m \<Longrightarrow> lawful (within A) (\<lambda>_. True) (run_state m)"
  by (simp add: lawful_def changing_def triple_def split: sum.split)

interpretation adapter: handler_contract "libvirt_service sort_func seen lv" "at NoHandle" presentable
    no_leaks "\<lambda>p. \<not> part_leaks p"
  for sort_func seen and lv :: "('w, 'd, 'x) lv_service_scheme"
  by unfold_locales
     (simp_all add: libvirt_service_def lawful_triple Ready_sound HostInfo_sound HostStatistics_sound
        ListDomains_sound DomainDetails_sound DomainStatistics_sound InterfaceList_sound
        AutostartStatus_sound SetAutostart_sound ListSnapshots_sound CreateSnapshot_sound
        RevertSnapshot_sound DeleteSnapshot_sound DomainXML_sound ViewerOf_sound screenshot_copied_sound
        Start_sound Shutdown_sound Reboot_sound Pause_sound Resume_sound Reset_sound Stop_sound)

subsection \<open>What a scope allows to change\<close>

fun mutation_scope :: "mutation \<Rightarrow> scope" where
  "mutation_scope MCreate = scopeControl"
| "mutation_scope (MShutdown _) = scopeControl"
| "mutation_scope (MReboot _) = scopeControl"
| "mutation_scope MSuspend = scopeControl"
| "mutation_scope MResume = scopeControl"
| "mutation_scope MReset = scopeAdmin"
| "mutation_scope MDestroy = scopeAdmin"
| "mutation_scope (MSetAutostart _) = scopeAdmin"
| "mutation_scope MSnapshotCreate = scopeAdmin"
| "mutation_scope MSnapshotRevert = scopeAdmin"
| "mutation_scope MSnapshotDelete = scopeAdmin"

fun may_change :: "endpoint \<Rightarrow> mutation set" where
  "may_change SetVMAutostart = range MSetAutostart"
| "may_change CreateVMSnapshot = {MSnapshotCreate}"
| "may_change RevertVMSnapshot = {MSnapshotRevert}"
| "may_change DeleteVMSnapshot = {MSnapshotDelete}"
| "may_change VMStart = {MCreate}"
| "may_change VMShutdown = range MShutdown"
| "may_change VMReboot = range MReboot"
| "may_change VMPause = {MSuspend}"
| "may_change VMResume = {MResume}"
| "may_change VMReset = {MReset}"
| "may_change VMStop = {MDestroy}"
| "may_change _ = {}"

lemma changing_screenshot_copied: "changing A (screenshot_copied lv ctx n)"
  unfolding screenshot_copied_def by (intro changing_intros)

lemma endpoint_changes:
  "may_change e \<subseteq> A \<Longrightarrow> lawful_endpoint (within A) (\<lambda>_. True) (libvirt_service sort_func seen lv) e"
  by (cases e)
     (auto simp: libvirt_service_def intro!: lawful_changing changing_Ready changing_HostInfo
        changing_HostStatistics changing_ListDomains changing_DomainDetails changing_DomainStatistics
        changing_InterfaceList changing_AutostartStatus changing_SetAutostart changing_ListSnapshots
        changing_CreateSnapshot changing_RevertSnapshot changing_DeleteSnapshot changing_DomainXML
        changing_ViewerOf changing_screenshot_copied changing_Start changing_Shutdown changing_Reboot
        changing_Pause changing_Resume changing_Reset changing_Stop)

definition granted_changes :: "Server \<Rightarrow> 'c Request \<Rightarrow> mutation set" where
  "granted_changes srv r =
     {m. \<not> serverHasCredentials srv \<or>
         (case bearer_scope srv r of None \<Rightarrow> False | Some granted \<Rightarrow> mutation_scope m \<le> granted)}"

lemma route_scopes:
  "(m, p, required, e) \<in> set routes \<Longrightarrow> x \<in> may_change e \<Longrightarrow>
   mutation_scope x \<le> required \<and> required \<noteq> scopePublic"
  by (auto simp: routes_def less_eq_scope_def)

lemma reached_changes: "reaches srv r e \<Longrightarrow> may_change e \<subseteq> granted_changes srv r"
  by (auto simp: reaches_def admits_def granted_changes_def routed_iff
      dest: route_scopes split: option.splits intro: order_trans)

subsection \<open>The properties of the server\<close>

text \<open>
  C4: Over the libvirt adapter a request changes domains only as far as the scope of its
  bearer token goes, whatever its method, path, body and headers are: start, shutdown, reboot,
  pause and resume need the control scope, and stop, reset, autostart and snapshots the admin
  scope.  With no credentials configured there is no restriction; with some, a request
  without a valid token changes nothing.
\<close>

theorem token_limits_changes:
  "within (granted_changes srv r)
     (hyp (handle srv (libvirt_service sort_func seen lv) r \<lparr>world = w, calls = []\<rparr>))"
proof (rule forms.handle_gated[THEN conjunct1])
  show "within (granted_changes srv r) \<lparr>world = w, calls = []\<rparr>" by (simp add: within_def)
qed (rule endpoint_changes, rule reached_changes)

text \<open>
  C8: A request that reaches no endpoint (its origin is not allowed, no route matches its
  path and method, or its token lacks the scope of the route) does not call the service at all:
  for every service, one that counts calls included, the state of the service is as before.
\<close>

theorem refused_request_touches_nothing:
  assumes "\<And>e. \<not> reaches srv r e"
  shows "hyp (handle srv svc r h) = h"
  using forms.handle_gated[of srv r "\<lambda>x. x = h" svc h] assms by simp

definition plain_request :: "string \<Rightarrow> string \<Rightarrow> string \<Rightarrow> unit Request" where
  "plain_request method path authorization =
     \<lparr>req_Method = method, req_Path = path, req_EscapedPath = path, req_RawQuery = [],
      req_Header = (\<lambda>k. if k = ''Authorization'' then authorization else []), req_ContentLength = 0,
      req_Body = \<lparr>body_values = [], body_size = 0, body_clean = True, body_limit = None\<rparr>,
      req_Context = (), req_Vars = []\<rparr>"

definition sample_server :: Server where
  "sample_server =
     \<lparr>bearerToken = [], readToken = ''r'', controlToken = ''c'', adminToken = ''a'', allowedOrigins = []\<rparr>"

theorem refused_request_touches_nothing_witness:
  "\<forall>svc h. hyp (handle sample_server svc
     (plain_request ''POST'' ''/api/v1/vms/web/actions/stop'' ''Bearer c'') (h :: nat)) = h"
proof (intro allI refused_request_touches_nothing)
  let ?r = "plain_request ''POST'' ''/api/v1/vms/web/actions/stop'' ''Bearer c''"
  have "routed ?r = Some (scopeAdmin, VMStop)" and "\<not> admits sample_server scopeAdmin ?r" by code_simp+
  then show "\<not> reaches sample_server ?r e" for e by (simp add: reaches_def)
qed

text \<open>
  C16: Every request gets exactly one status, one of fourteen,
  and the response carries the three security headers, whichever handler writes it, for
  errors, redirects, preflight answers and recovered panics too.
\<close>

theorem every_response_secured:
  "(\<exists>status hs. rs_sent (resp (handle srv svc r h)) = Some (status, hs) \<and> status \<in> set statuses) \<and>
   sent_header ''X-Content-Type-Options'' (resp (handle srv svc r h)) = Some ''nosniff'' \<and>
   sent_header ''X-Frame-Options'' (resp (handle srv svc r h)) = Some ''DENY'' \<and>
   sent_header ''Referrer-Policy'' (resp (handle srv svc r h)) = Some ''no-referrer''"
  using any_service.handle_answers[where srv = srv and svc = svc and r = r and h = h]
  by (auto simp: well_formed_def answered_def sent_header_def security_headers_def)


end
