(* ===== verification/Process.thy ===== *)
theory Process
  imports Config Connection Api
begin

text \<open>
  The process: \<open>run\<close> of \<open>cmd/libvirt-rest-api/main.go\<close> from the environment to the exit code.
\<close>

subsection \<open>What the process builds\<close>

text \<open>The options passed to \<open>api.New\<close>, as the fields \<open>New\<close> copies them to.\<close>

definition server_of :: "Config \<Rightarrow> Server" where
  "server_of cfg =
     \<lparr>bearerToken = APIToken cfg, readToken = ReadToken cfg, controlToken = ControlToken cfg,
      adminToken = AdminToken cfg, allowedOrigins = CORSOrigins cfg\<rparr>"

record http_server =
  Addr :: string
  ReadHeaderTimeout :: int
  ReadTimeout :: int
  WriteTimeout :: int
  IdleTimeout :: int
  MaxHeaderBytes :: int

definition http_server_of :: "Config \<Rightarrow> http_server" where
  "http_server_of cfg =
     \<lparr>Addr = ListenAddr cfg, ReadHeaderTimeout = ReadHeader (Timeouts cfg),
      ReadTimeout = Read (Timeouts cfg), WriteTimeout = Write (Timeouts cfg),
      IdleTimeout = Idle (Timeouts cfg), MaxHeaderBytes = 1048576\<rparr>"

text \<open>What ends the wait: the server stopped, or a signal and the result of its shutdown.\<close>

datatype serve_error = ErrServerClosed | ServeFailed string

datatype wakeup = ServerStopped serve_error | Signalled "string option"

datatype run_error =
    ConfigError load_error | ConnectError goerr | ServerError serve_error | ShutdownError string

text \<open>The \<open>select\<close> at the end of \<open>run\<close>.\<close>

definition await_end :: "wakeup \<Rightarrow> (('w, 'k) process, run_error option) state" where
  "await_end wake =
     (case wake of
        ServerStopped err \<Rightarrow>
          State_Monad.return (if err = ErrServerClosed then None else Some (ServerError err))
      | Signalled failure \<Rightarrow> do {
          note_conn KShutdownServer;
          State_Monad.return (map_option ShutdownError failure)
        })"

text \<open>\<open>later\<close> is what publishing and subscribing make of the broker until the process ends.\<close>

definition run_server ::
  "map_order \<Rightarrow> env \<Rightarrow> ('w, 'k, 'x) lv_connection_scheme \<Rightarrow> 8 word list option \<Rightarrow> int \<Rightarrow> wakeup \<Rightarrow>
     (eventBroker \<Rightarrow> eventBroker) \<Rightarrow> (('w, 'k) process, run_error option) state" where
  "run_server order getenv lv random unixnano wake later =
     (case Load order getenv of
        Inl err \<Rightarrow> State_Monad.return (Some (ConfigError err))
      | Inr cfg \<Rightarrow> do {
          c \<leftarrow> Connect lv random unixnano (LibvirtURI cfg);
          case c of
            Inl err \<Rightarrow> State_Monad.return (Some (ConnectError err))
          | Inr svc \<Rightarrow> do {
              note_conn (KServe (Addr (http_server_of cfg)));
              e \<leftarrow> await_end wake;
              CloseService lv (svc\<lparr>lv_broker := later (lv_broker svc)\<rparr>);
              State_Monad.return e
            }
        })"

definition exit_code :: "run_error option \<Rightarrow> int" where
  "exit_code e = (case e of None \<Rightarrow> 0 | Some _ \<Rightarrow> 1)"

subsection \<open>Releasing what was opened\<close>

lemma Connect_service:
  "run_state (Connect lv random t uri) p = (Inr l, p') \<Longrightarrow>
     lv_broker l = newEventBroker random t \<and>
     (\<exists>w. fst (DomainEventLifecycleRegister lv (connection l) w) = Inr (eventCallbackID l))"
  by (auto simp: Connect_def setupEvents_def startEventLoop_def conn_call_def
      split: prod.splits sum.splits option.splits if_splits) (metis fst_conv)+

lemma newEventBroker_fresh: "\<exists>gen. newEventBroker random t = empty_broker gen"
  by (auto simp: newEventBroker_def split: option.split)

text \<open>
  The broker the process closes is one its publishers and subscribers have left in a state
  reachable from the new broker.
\<close>

definition broker_runs :: "(eventBroker \<Rightarrow> eventBroker) \<Rightarrow> bool" where
  "broker_runs later \<longleftrightarrow>
     (\<forall>gen. \<exists>s. reachable gen s \<and> length (published s) < 2 ^ 64 \<and> later (empty_broker gen) = broker s)"

lemma broker_runs_close: "broker_runs later \<Longrightarrow> \<exists>b. close (later (newEventBroker random t)) = Ok b"
  unfolding broker_runs_def using newEventBroker_fresh[of random t] close_reachable by metis

lemma run_server_conns:
  assumes "broker_runs later"
    and ids: "\<And>k w i. fst (DomainEventLifecycleRegister lv k w) = Inr i \<Longrightarrow> 0 \<le> i"
  shows "triple (conns (ks, cbs)) (run_server order getenv lv random t wake later) (\<lambda>_. conns (ks, cbs))"
proof -
  let ?ready = "\<lambda>r p. conns (case r of Inl _ \<Rightarrow> (ks, cbs)
        | Inr l \<Rightarrow> (add_mset (connection l) ks, add_mset (connection l, eventCallbackID l) cbs)) p \<and>
      (case r of Inl _ \<Rightarrow> True | Inr l \<Rightarrow> lv_broker l = newEventBroker random t \<and> 0 \<le> eventCallbackID l)"
  have connect: "triple (conns (ks, cbs)) (Connect lv random t uri) ?ready" for uri
    using Connect_conns[of ks cbs lv random t uri] Connect_service[of lv random t uri] ids
    by (auto simp: triple_def split: sum.splits) (metis prod.collapse)+
  obtain b where b: "close (later (newEventBroker random t)) = Ok b"
    using broker_runs_close[OF assms(1)] by blast
  have close: "triple (\<lambda>p. conns (add_mset (connection l) ks, add_mset (connection l, eventCallbackID l) cbs) p \<and>
        lv_broker l = newEventBroker random t \<and> 0 \<le> eventCallbackID l)
      (CloseService lv (l\<lparr>lv_broker := later (lv_broker l)\<rparr>)) (\<lambda>_. conns (ks, cbs))" for l
    using CloseService_conns[of "l\<lparr>lv_broker := later (lv_broker l)\<rparr>" b ks cbs lv] b
    by (auto simp: triple_def)
  have keep: "triple (\<lambda>p. conns c p \<and> Q) (note_conn (KServe a)) (\<lambda>_ p. conns c p \<and> Q)"
      "triple (\<lambda>p. conns c p \<and> Q) (await_end wake) (\<lambda>_ p. conns c p \<and> Q)" for c Q a
    by (rule tripleI, auto simp: note_conn_def await_end_def conns_def split: wakeup.split)+
  show ?thesis
    unfolding run_server_def
    by (rule triple_bind[OF connect] triple_bind[OF keep(1)] triple_bind[OF keep(2)] triple_bind[OF close]
        triple_rules | simp)+
qed

lemma fresh_open [simp]: "conn_open (conn_calls (fresh_process w)) = ({#}, {#})"
  by (simp add: fresh_process_def conn_open_def)

subsection \<open>The properties of the process\<close>

text \<open>
  C21: However the process ends (an invalid configuration, a connection that fails at any of
  its steps, a server that stops, a signal with or without a shutdown error), every connection
  it opened is closed and every callback it registered is deregistered.  libvirt gives
  callback identifiers that are not negative.
\<close>

theorem run_releases_connection:
  assumes "broker_runs later"
    and "\<And>k w i. fst (DomainEventLifecycleRegister lv k w) = Inr i \<Longrightarrow> 0 \<le> i"
  shows "conn_open (conn_calls (snd (run_state (run_server order getenv lv random t wake later)
      (fresh_process w)))) = ({#}, {#})"
proof -
  have "triple (conns ({#}, {#})) (run_server order getenv lv random t wake later) (\<lambda>_. conns ({#}, {#}))"
    by (rule run_server_conns[OF assms])
  then show ?thesis by (simp add: triple_def conns_def)
qed

definition plain_connection :: "(nat, nat) lv_connection" where
  "plain_connection =
     \<lparr>EventRegisterDefaultImpl = (\<lambda>w. (None, w)), NewConnect = (\<lambda>_ w. (Inr w, Suc w)),
      DomainEventLifecycleRegister = (\<lambda>_ w. (Inr 3, w)), DomainEventDeregister = (\<lambda>_ _ w. ((), w)),
      ConnectClose = (\<lambda>_ w. (None, w))\<rparr>"

lemma broker_runs_id: "broker_runs id"
  unfolding broker_runs_def
proof (intro allI exI conjI)
  show "reachable gen (initial_feed gen)" for gen by (rule reachable.start)
qed (simp_all add: initial_feed_def)

theorem run_releases_connection_witness:
  "conn_open (conn_calls (snd (run_state (run_server id (sample_env [(''API_READ_TOKEN'', ''r'')])
      plain_connection None 5 (Signalled None) id) (fresh_process 0)))) = ({#}, {#}) \<and>
   conn_calls (snd (run_state (run_server id (sample_env [(''API_READ_TOKEN'', ''r'')])
      plain_connection None 5 (Signalled None) id) (fresh_process 0))) =
     [KRegisterImpl, KNewConnect ''qemu:///system'' (Inr 0), KRegisterCallback 0 (Inr 3), KRunEventLoop,
      KServe ''127.0.0.1:8080'', KShutdownServer, KDeregister 0 3, KCloseBroker, KClose 0]"
proof
  show "conn_open (conn_calls (snd (run_state (run_server id (sample_env [(''API_READ_TOKEN'', ''r'')])
      plain_connection None 5 (Signalled None) id) (fresh_process 0)))) = ({#}, {#})"
    by (rule run_releases_connection[OF broker_runs_id]) (simp add: plain_connection_def)
  show "conn_calls (snd (run_state (run_server id (sample_env [(''API_READ_TOKEN'', ''r'')])
      plain_connection None 5 (Signalled None) id) (fresh_process 0))) =
     [KRegisterImpl, KNewConnect ''qemu:///system'' (Inr 0), KRegisterCallback 0 (Inr 3), KRunEventLoop,
      KServe ''127.0.0.1:8080'', KShutdownServer, KDeregister 0 3, KCloseBroker, KClose 0]"
    by code_simp
qed

text \<open>
  C36: The process exits with status 0 exactly if the configuration loads, the connection is
  made, and the server is closed or shuts down without an error after a signal.
\<close>

theorem exit_status:
  "exit_code (fst (run_state (run_server order getenv lv random t wake later) p)) = 0 \<longleftrightarrow>
     (\<exists>cfg l. Load order getenv = Inr cfg \<and>
        fst (run_state (Connect lv random t (LibvirtURI cfg)) p) = Inr l) \<and>
     (wake = ServerStopped ErrServerClosed \<or> wake = Signalled None)"
  by (auto simp: exit_code_def run_server_def await_end_def note_conn_def
      split: sum.split prod.split option.splits wakeup.splits if_splits)

text \<open>
  C17: Under a loaded configuration a token grants exactly the scope it is configured for:
  a request with the header \<open>Authorization: Bearer t\<close> has the read scope for the read token, the
  control scope for the control token, the admin scope for the admin and the API token, and
  none for any other; no token grants two scopes.
\<close>

theorem loaded_token_scope:
  assumes "Load order getenv = Inr cfg" and "mset (order (tokenEntries cfg)) = mset (tokenEntries cfg)"
    and "req_Header r ''Authorization'' = ''Bearer '' @ t"
  shows "bearer_scope (server_of cfg) r = Some granted \<longleftrightarrow>
    t \<noteq> [] \<and>
    (granted = scopeRead \<and> t = ReadToken cfg \<or> granted = scopeControl \<and> t = ControlToken cfg \<or>
     granted = scopeAdmin \<and> (t = APIToken cfg \<or> t = AdminToken cfg))"
proof -
  have "distinct (usableTokens (tokenEntries cfg))"
    using assms(1) validateTokens_ok[where order = order, OF assms(2)] unfolding Load_ok by blast
  then show ?thesis
    using assms(3)
    by (auto simp: bearer_scope_def scopeForToken_def candidates_def server_of_def usableTokens_def
        tokenEntries_def equal_fold_def split: if_splits)
qed

theorem loaded_token_scope_witness:
  "\<exists>cfg. Load rev (sample_env [(''API_READ_TOKEN'', ''r''), (''API_ADMIN_TOKEN'', ''a'')]) = Inr cfg \<and>
     bearer_scope (server_of cfg) (plain_request ''GET'' ''/'' ''Bearer a'') = Some scopeAdmin"
proof -
  let ?e = "sample_env [(''API_READ_TOKEN'', ''r''), (''API_ADMIN_TOKEN'', ''a'')]"
  have "case Load rev ?e of Inl _ \<Rightarrow> False | Inr cfg \<Rightarrow> AdminToken cfg = ''a''" by code_simp
  then obtain cfg where cfg: "Load rev ?e = Inr cfg" "AdminToken cfg = ''a''" by (auto split: sum.splits)
  have "bearer_scope (server_of cfg) (plain_request ''GET'' ''/'' ''Bearer a'') = Some scopeAdmin"
    using loaded_token_scope[OF cfg(1), of "plain_request ''GET'' ''/'' ''Bearer a''" "''a''" scopeAdmin] cfg(2)
    by (simp add: plain_request_def)
  with cfg show ?thesis by blast
qed

end
