(* ===== verification/Event_Stream.thy ===== *)
theory Event_Stream
  imports EventFeed Handler_Contract
begin

text \<open>
  The events handler together with the broker: what a client has been sent when a stream
  ends, and what it gets when it reconnects with the last cursor it has seen.
\<close>

subsection \<open>The loop over an endless sequence of inputs\<close>

text \<open>When the loop of the handler returns.\<close>

fun ends_stream :: "sse_input \<Rightarrow> bool" where
  "ends_stream GotClosed = True"
| "ends_stream GotDone = True"
| "ends_stream (GotTick ok) = (\<not> ok)"
| "ends_stream (GotEvent event ok) = (\<not> time_encodable (ev_OccurredAt event) \<or> \<not> ok)"

fun input_part :: "sse_input \<Rightarrow> part" where
  "input_part (GotEvent event _) = event_part event"
| "input_part _ = PText ('': heartbeat'' @ [newline, newline])"

text \<open>
  The loop as it runs, over the inputs \<open>f 0\<close>, \<open>f 1\<close> and so on; not returning is \<open>None\<close>.
\<close>

partial_function (option) event_run :: "(nat \<Rightarrow> sse_input) \<Rightarrow> nat \<Rightarrow> part list option" where
  "event_run f n =
     (if ends_stream (f n) then Some []
      else Option.bind (event_run f (Suc n)) (\<lambda>ps. Some (input_part (f n) # ps)))"

lemma event_loop_step:
  "event_loop (x # xs) = (if ends_stream x then [] else input_part x # event_loop xs)"
  by (cases x) auto

lemma event_run_stops:
  "(\<forall>j < k. \<not> ends_stream (f (n + j))) \<Longrightarrow> ends_stream (f (n + k)) \<Longrightarrow>
   event_run f n = Some (event_loop (map f [n..<n + Suc k]))"
proof (induction k arbitrary: n)
  case 0
  then show ?case by (simp add: event_run.simps[of f n] event_loop_step)
next
  case (Suc k)
  have "event_run f (Suc n) = Some (event_loop (map f [Suc n..<Suc n + Suc k]))"
    using Suc.prems by (intro Suc.IH) auto
  moreover have "[n..<n + Suc (Suc k)] = n # [Suc n..<Suc n + Suc k]" by (simp add: upt_rec)
  ultimately show ?case
    using Suc.prems(1) by (simp add: event_run.simps[of f n] event_loop_step del: upt_Suc)
qed

lemma event_run_Some: "event_run f n = Some ps \<Longrightarrow> \<exists>k. ends_stream (f (n + k))"
proof (induction arbitrary: rule: event_run.raw_induct[rotated 1, consumes 1])
  case (1 event_run f n ps)
  then show ?case
    by (auto split: if_splits Option.bind_splits) (metis add.right_neutral, metis add_Suc_right add_Suc)
qed

subsection \<open>What is written, and what is taken from the channel\<close>

text \<open>The events the loop receives: one that cannot be written is received and lost.\<close>

fun consumed :: "sse_input list \<Rightarrow> LifecycleEvent list" where
  "consumed [] = []"
| "consumed (GotEvent event ok # rest) =
     event # (if ends_stream (GotEvent event ok) then [] else consumed rest)"
| "consumed (x # rest) = (if ends_stream x then [] else consumed rest)"

fun sent_events :: "sse_input list \<Rightarrow> LifecycleEvent list" where
  "sent_events [] = []"
| "sent_events (GotEvent event ok # rest) =
     (if ends_stream (GotEvent event ok) then [] else event # sent_events rest)"
| "sent_events (x # rest) = (if ends_stream x then [] else sent_events rest)"

fun is_event :: "part \<Rightarrow> bool" where
  "is_event (PEvent _ _ _) = True"
| "is_event _ = False"

lemma is_event_part [simp]: "is_event (event_part e)"
  by (simp add: event_part_def)

lemma written_events: "filter is_event (event_loop inputs) = map event_part (sent_events inputs)"
  by (induction inputs rule: sent_events.induct) auto

lemma sent_prefix: "\<exists>m. sent_events inputs = take m (consumed inputs)"
proof (induction inputs rule: sent_events.induct)
  case (2 event ok rest)
  then show ?case
    by (auto intro: exI[of _ 0]) (metis take_Suc_Cons)
qed (auto intro: exI[of _ 0])

subsection \<open>Where a client stands\<close>

lemma prefix_of_feed:
  assumes "reachable gen s" and "length (published s) < 2 ^ 64" and "i < next_chan (broker s)"
  shows "\<exists>n k. base s i \<le> k \<and> k \<le> length (published s) \<and>
    take m (received s i) = take n (notice s i) @ drop (base s i) (take k (published s))"
proof -
  obtain upto where u: "base s i \<le> upto" "upto \<le> length (published s)"
      "received s i @ ch_buf (chans (broker s) i) = notice s i @ drop (base s i) (take upto (published s))"
    using reachable_inv[OF assms(1,2)] assms(3) by (auto simp: feed_inv_def stream_ok_def stream_def)
  define n where "n = min m (length (received s i))"
  have "take m (received s i) = take n (received s i @ ch_buf (chans (broker s) i))"
    by (simp add: n_def min_def)
  also have "\<dots> = take n (notice s i) @
      drop (base s i) (take (min upto (base s i + (n - length (notice s i)))) (published s))"
    unfolding u(3) by (simp add: take_drop min.commute add.commute)
  finally show ?thesis
    using u(1,2) by (intro exI[of _ n] exI[of _ "min upto (base s i + (n - length (notice s i)))"]) auto
qed

text \<open>The cursor a client has after a prefix of its stream that is not empty.\<close>

lemma cursor_of_prefix:
  assumes "reachable gen s" and "length (published s) < 2 ^ 64" and "i < next_chan (broker s)"
    and "base s i \<le> k" and "k \<le> length (published s)"
    and "es = take n (notice s i) @ drop (base s i) (take k (published s))" and "es \<noteq> []"
  shows "ev_Cursor (last es) = cursor (broker s) (of_nat k)"
proof (cases "base s i < k")
  case True
  then have ne: "drop (base s i) (take k (published s)) \<noteq> []" and k: "k - 1 < length (published s)"
    using assms(5) by simp_all
  have "base s i < length (take k (published s))" using True assms(5) by simp
  with ne assms(6) have "last es = last (take k (published s))" by (metis last_appendR last_drop)
  also have "\<dots> = published s ! (k - 1)"
    using True assms(5) by (subst last_conv_nth) (auto simp: min_def)
  finally have "last es = published s ! (k - 1)" .
  then show ?thesis
    using reachable_feed_inv(4)[OF assms(1,2)] k True by (simp add: numbered_def)
next
  case False
  with assms(4) have "k = base s i" by simp
  with assms(6) have "es = take n (notice s i)" by simp
  with assms(7) have "last es \<in> set (notice s i)" by (metis last_in_set in_set_takeD)
  then show ?thesis
    using reachable_inv[OF assms(1,2)] assms(3) \<open>k = base s i\<close> by (auto simp: feed_inv_def notice_ok_def)
qed

subsection \<open>The properties of event streams\<close>

text \<open>
  C3: A client that reconnects with the cursor of the last event it was sent misses nothing
  and sees nothing twice: whatever the interleaving, and however its stream ended (the client
  left, a write failed, the channel was closed), the events written to it are its reset notice,
  if any, and the published events up to some number, and if no more than 256 events have been
  published after that number the new subscription replays exactly the events after it.
\<close>

theorem reconnect_is_seamless:
  assumes "reachable gen s" and "length (published s) < 2 ^ 64" and "i < next_chan (broker s)"
    and "consumed inputs = received s i" and "sent_events inputs \<noteq> []"
    and "reachable gen s'" and "length (published s') < 2 ^ 64" and "\<not> closed (broker s')"
    and "published s' = published s @ later" and "CHR '':'' \<notin> set gen"
  shows "\<exists>n k. filter is_event (event_loop inputs) =
      map event_part (take n (notice s i) @ drop (base s i) (take k (published s))) \<and>
    (length (published s') \<le> k + 256 \<longrightarrow>
       (\<exists>b. subscribe now (ev_Cursor (last (sent_events inputs))) (broker s') = Ok (next_chan (broker s'), b) \<and>
          ch_buf (chans b (next_chan (broker s'))) = drop k (published s')))"
proof -
  obtain m where m: "sent_events inputs = take m (received s i)"
    using sent_prefix[of inputs] assms(4) by auto
  obtain n k where k: "base s i \<le> k" "k \<le> length (published s)"
      "sent_events inputs = take n (notice s i) @ drop (base s i) (take k (published s))"
    using prefix_of_feed[OF assms(1-3), of m] m by auto
  have "cursor (broker s) = cursor (broker s')"
    using reachable_feed_inv(1)[OF assms(1,2)] reachable_feed_inv(1)[OF assms(6,7)]
    by (simp add: fun_eq_iff cursor_def)
  then have c: "ev_Cursor (last (sent_events inputs)) = cursor (broker s') (of_nat k)"
    using cursor_of_prefix[OF assms(1-3) k assms(5)] by simp
  have "k \<le> length (published s')" using k(2) assms(9) by simp
  from resume_at[OF assms(6-8,10) this, of now]
  have "length (published s') \<le> k + 256 \<Longrightarrow>
      \<exists>b. subscribe now (ev_Cursor (last (sent_events inputs))) (broker s') = Ok (next_chan (broker s'), b) \<and>
          ch_buf (chans b (next_chan (broker s'))) = drop k (published s')"
    unfolding c by (simp split: if_splits)
  then show ?thesis using k(3) written_events[of inputs] by metis
qed

theorem reconnect_is_seamless_witness:
  "\<exists>n k. filter is_event (event_loop [GotEvent (hd (received sample_feed 0)) True, GotDone]) =
      map event_part (take n (notice sample_feed 0) @ drop (base sample_feed 0) (take k (published sample_feed))) \<and>
    (\<exists>b. subscribe 30 (ev_Cursor (hd (received sample_feed 0))) (broker sample_feed) =
        Ok (next_chan (broker sample_feed), b) \<and>
      ch_buf (chans b (next_chan (broker sample_feed))) = drop k (published sample_feed))"
proof -
  let ?e = "hd (received sample_feed 0)"
  have "length (received sample_feed 0) = 1 \<and> time_encodable (ev_OccurredAt ?e)" by code_simp
  then have e: "received sample_feed 0 = [?e]" "time_encodable (ev_OccurredAt ?e)"
    by (auto simp: length_Suc_conv)
  have gen: "CHR '':'' \<notin> set ''g''" by simp
  have inputs: "consumed [GotEvent ?e True, GotDone] = received sample_feed 0"
      "sent_events [GotEvent ?e True, GotDone] = [?e]"
    using e by simp_all
  then show ?thesis
    using reconnect_is_seamless[OF sample_feed(1) _ _ inputs(1) _ sample_feed(1) _ sample_feed(5) _ gen,
        of "[]" 30] sample_feed
    by simp
qed


end
