(* ===== verification/Validation.thy ===== *)
theory Validation
  imports Handler_Contract
begin

text \<open>
  What the handlers let through to the service, and how the names they accept travel in paths.
\<close>

subsection \<open>Arguments in range\<close>

definition valid_create :: "SnapshotCreateRequest \<Rightarrow> bool" where
  "valid_create q \<longleftrightarrow>
     validSnapshotName (scr_Name q) \<and> length (scr_Description q) \<le> 1024 \<and>
     (scr_Kind q = SnapshotKindDisk \<or> scr_Kind q = SnapshotKindSystem \<and> \<not> scr_Quiesce q)"

definition valid_revert :: "string \<Rightarrow> SnapshotRevertRequest \<Rightarrow> bool" where
  "valid_revert sn q \<longleftrightarrow> validSnapshotLookupName sn \<and>
     (srr_State q = SnapshotRevertRecorded \<or> srr_State q = SnapshotRevertRunning \<or>
      srr_State q = SnapshotRevertPaused)"

definition valid_mode :: "PowerMode \<Rightarrow> bool" where
  "valid_mode m \<longleftrightarrow> m = PowerModeDefault \<or> m = PowerModeACPI \<or> m = PowerModeGuestAgent"

definition valid_source :: "InterfaceAddressSource \<Rightarrow> bool" where
  "valid_source s \<longleftrightarrow> s = InterfaceSourceLease \<or> s = InterfaceSourceAgent \<or> s = InterfaceSourceARP"

text \<open>The service that behaves like \<open>svc\<close> on arguments in range and like \<open>other\<close> on all others.\<close>

definition in_range :: "('h, 'c) service \<Rightarrow> ('h, 'c) service \<Rightarrow> ('h, 'c) service" where
  "in_range svc other = svc
     \<lparr>svcDomainInterfaces := (\<lambda>n source. svcDomainInterfaces (if valid_source source then svc else other) n source),
      svcCreateSnapshot := (\<lambda>ctx n q. svcCreateSnapshot (if valid_create q then svc else other) ctx n q),
      svcRevertSnapshot := (\<lambda>ctx n sn q. svcRevertSnapshot (if valid_revert sn q then svc else other) ctx n sn q),
      svcDeleteSnapshot := (\<lambda>ctx n sn c. svcDeleteSnapshot (if validSnapshotLookupName sn then svc else other) ctx n sn c),
      svcShutdown := (\<lambda>n m. svcShutdown (if valid_mode m then svc else other) n m),
      svcReboot := (\<lambda>n m. svcReboot (if valid_mode m then svc else other) n m)\<rparr>"

lemma handle_cong:
  "(\<And>e r. run_endpoint svc e r = run_endpoint svc' e r) \<Longrightarrow> handle srv svc r h = handle srv svc' r h"
proof -
  assume "\<And>e r. run_endpoint svc e r = run_endpoint svc' e r"
  then have "run_endpoint svc = run_endpoint svc'" by (intro ext)
  then have "routeHandler srv svc = routeHandler srv svc'" by (simp only: routeHandler_def[abs_def])
  then show "handle srv svc r h = handle srv svc' r h" by (simp add: handle_def New_def)
qed

lemma decodePowerMode_valid: "decodePowerMode r = Inr mode \<Longrightarrow> valid_mode mode"
  by (auto simp: decodePowerMode_def valid_mode_def Let_def split: if_splits option.splits)

lemma run_endpoint_in_range: "run_endpoint (in_range svc other) e r = run_endpoint svc e r"
proof (cases e)
  case VMInterfaces
  then show ?thesis by (simp add: vmInterfaces_def in_range_def valid_source_def Let_def)
next
  case CreateVMSnapshot
  then show ?thesis
    by (auto simp: createVMSnapshot_def in_range_def valid_create_def split: option.split)
next
  case RevertVMSnapshot
  then show ?thesis
    by (auto simp: revertVMSnapshot_def in_range_def valid_revert_def Let_def split: option.split)
next
  case DeleteVMSnapshot
  then show ?thesis
    by (auto simp: deleteVMSnapshot_def in_range_def Let_def split: option.split)
next
  case VMShutdown
  then show ?thesis
    by (auto simp: vmShutdown_def in_range_def decodePowerMode_valid split: sum.split)
next
  case VMReboot
  then show ?thesis
    by (auto simp: vmReboot_def in_range_def decodePowerMode_valid split: sum.split)
next
  case ListVMs
  then show ?thesis by (auto simp: in_range_def listVMs_def split: option.split)
next
  case SetVMAutostart
  then show ?thesis by (auto simp: in_range_def setVMAutostart_def split: option.split)
next
  case EventsEndpoint
  then show ?thesis by (simp add: in_range_def events_def cong: if_cong)
qed (simp_all add: in_range_def ready_def host_def hostStats_def vm_def vmStats_def
  vmAutostart_def vmXML_def vmViewer_def vmScreenshot_def listVMSnapshots_def
  vmStart_def vmStop_def vmPause_def vmResume_def vmReset_def)

subsection \<open>Names in paths\<close>

lemma split_on_part: "x \<notin> set a \<Longrightarrow> split_on x (a @ x # b) = a # split_on x b"
  by (induction a) auto

lemma split_on_whole: "x \<notin> set a \<Longrightarrow> split_on x a = [a]"
  by (induction a) auto

lemma unescape_without_percent: "CHR ''%'' \<notin> set s \<Longrightarrow> unescape EncPath s = Some s"
  by (induction s) auto

lemma path_unescape_plain: "CHR ''%'' \<notin> set s \<Longrightarrow> path_unescape s = s"
  by (simp add: path_unescape_def unescape_without_percent)

definition name_char :: "char \<Rightarrow> bool" where
  "name_char c \<longleftrightarrow> isASCIILetterOrNumber c \<or> c = CHR ''.'' \<or> c = CHR ''_'' \<or> c = CHR ''-''"

lemma name_char_plain: "name_char c \<Longrightarrow> byte c < 128 \<and> c \<noteq> CHR ''%'' \<and> c \<noteq> CHR ''/'' \<and> c \<noteq> CHR 0x00"
  by (auto simp: name_char_def isASCIILetterOrNumber_def)

lemma validSnapshotName_chars:
  "validSnapshotName name \<Longrightarrow>
   name \<noteq> [] \<and> length name \<le> 128 \<and> isASCIILetterOrNumber (hd name) \<and> list_all name_char name"
  by (auto simp: validSnapshotName_def name_char_def list_all_iff split: list.splits)

lemma validSnapshotName_lookup: "validSnapshotName name \<Longrightarrow> validSnapshotLookupName name"
proof -
  assume "validSnapshotName name"
  note v = validSnapshotName_chars[OF this]
  then have "list_all (\<lambda>c. byte c < 128) name" "CHR 0x00 \<notin> set name"
    using name_char_plain by (auto simp: list_all_iff)
  with v show ?thesis by (simp add: validSnapshotLookupName_def valid_utf8_ascii)
qed

text \<open>The path of a snapshot of a domain.\<close>

definition snapshot_path :: "string \<Rightarrow> string \<Rightarrow> string" where
  "snapshot_path i name = ''/api/v1/vms/'' @ i @ ''/snapshots/'' @ name"

text \<open>An escaped identifier as it can stand in a path.\<close>

definition path_identifier :: "string \<Rightarrow> bool" where
  "path_identifier i \<longleftrightarrow>
     i \<noteq> [] \<and> CHR ''/'' \<notin> set i \<and> i \<noteq> ''.'' \<and> i \<noteq> ''..'' \<and> path_unescape i \<noteq> ''/''"

lemma split_snapshot_path:
  assumes "CHR ''/'' \<notin> set i" and "CHR ''/'' \<notin> set name"
  shows "split_on (CHR ''/'') (snapshot_path i name) = [[], ''api'', ''v1'', ''vms'', i, ''snapshots'', name]"
  by (simp add: snapshot_path_def split_on_part split_on_whole assms)

lemma name_no_dots:
  "validSnapshotName name \<Longrightarrow> name \<noteq> [] \<and> name \<noteq> ''.'' \<and> name \<noteq> ''..'' \<and> last name \<noteq> CHR ''/''"
proof -
  assume "validSnapshotName name"
  note v = validSnapshotName_chars[OF this]
  then have "name_char (last name)" by (auto simp: list_all_iff)
  with v name_char_plain show ?thesis by (auto simp: isASCIILetterOrNumber_def)
qed

lemma clean_snapshot_path:
  assumes "path_identifier i" and "validSnapshotName name"
  shows "cleanPath (snapshot_path i name) = snapshot_path i name"
proof -
  have slash: "CHR ''/'' \<notin> set i" "CHR ''/'' \<notin> set name"
    using assms validSnapshotName_chars name_char_plain by (auto simp: path_identifier_def list_all_iff)
  have "clean_segments [] [[], ''api'', ''v1'', ''vms'', i, ''snapshots'', name] =
      [''api'', ''v1'', ''vms'', i, ''snapshots'', name]"
    using assms(1) name_no_dots[OF assms(2)] by (simp add: path_identifier_def)
  moreover have "take 1 (snapshot_path i name) = ''/''" by (simp add: snapshot_path_def)
  moreover have "last (snapshot_path i name) \<noteq> CHR ''/''"
    using name_no_dots[OF assms(2)] by (simp add: snapshot_path_def)
  ultimately show ?thesis
    unfolding cleanPath_def Let_def using split_snapshot_path[OF slash]
    by (simp add: snapshot_path_def)
qed

lemma snapshot_path_segments:
  assumes "path_identifier i" and "validSnapshotName name"
  shows "path_segments (snapshot_path i name) =
    [''api'', ''v1'', ''vms'', path_unescape i, ''snapshots'', name]"
proof -
  have chars: "CHR ''/'' \<notin> set i" "CHR ''/'' \<notin> set name" "CHR ''%'' \<notin> set name"
    using assms validSnapshotName_chars name_char_plain by (auto simp: path_identifier_def list_all_iff)
  then show ?thesis
    using name_no_dots[OF assms(2)] split_snapshot_path[OF chars(1,2)]
    by (simp add: path_segments_def path_unescape_plain)
qed

subsection \<open>Bodies without a length\<close>

text \<open>
  A body is taken to be empty by its length alone: an empty body that is sent without one, in
  chunks, is refused where a body of length zero means the defaults.
\<close>

lemma decode_nothing:
  "body_values b = [] \<Longrightarrow> decodeFirst setters start b = None \<and> decodeJSON setters start b = None"
  by (auto simp: decodeFirst_def decodeJSON_def decode_next_def split: prod.splits decoded.splits if_splits)

lemma empty_body_without_length:
  assumes "req_ContentLength r = - 1" and "body_values (req_Body r) = []"
  shows "decodePowerMode r =
    Inl (''invalid_request'', [Lit ''request body must be a JSON object containing mode''])"
  using assms by (simp add: decodePowerMode_def decode_nothing)

subsection \<open>The properties of validation\<close>

text \<open>
  C9: The service is never called with an argument outside its range: replacing its
  behaviour there by anything else changes no request.  Snapshots are created with a valid
  name, a description of at most 1024 bytes, one of the two kinds, and quiesced only as disk
  snapshots; they are looked up by valid names only; power modes, revert states and interface
  sources are the documented ones.
\<close>

theorem arguments_in_range:
  "handle srv (in_range svc other) r h = handle srv svc r h"
  by (rule handle_cong) (rule run_endpoint_in_range)

text \<open>
  C19: Every snapshot the API can create can be addressed by the API: a name accepted at
  creation is a valid name to look up, and its path is clean, so that it is not redirected,
  and is dispatched to the delete route of the same domain with the name unchanged.
\<close>

theorem created_names_addressable:
  assumes "path_identifier i" and "validSnapshotName name"
  shows "validSnapshotLookupName name \<and> cleanPath (snapshot_path i name) = snapshot_path i name \<and>
    (\<exists>methods. findRoute registry (snapshot_path i name) =
        Some (methods, [(''identifier'', path_unescape i), (''snapshot'', name)]) \<and>
      map_of methods ''DELETE'' = Some (scopeAdmin, DeleteVMSnapshot))"
proof -
  let ?p = "''/api/v1/vms/{identifier}/snapshots/{snapshot}''"
  have "(''DELETE'', ?p, scopeAdmin, DeleteVMSnapshot) \<in> set routes" by (simp add: routes_def)
  from registry_holds_routes[OF this] obtain ms where ms: "(?p, ms) \<in> set registry"
      "map_of ms ''DELETE'' = Some (scopeAdmin, DeleteVMSnapshot)"
    by (auto simp: registered_at_def split: Option.bind_splits dest: map_of_SomeD)
  have pattern: "parse_pattern ?p = [Literal ''api'', Literal ''v1'', Literal ''vms'',
      Wildcard ''identifier'', Literal ''snapshots'', Wildcard ''snapshot'']"
      "wildcard_names ?p = [''identifier'', ''snapshot'']" by code_simp+
  have "name \<noteq> ''/''" using name_no_dots[OF assms(2)] by auto
  then have "findRoute registry (snapshot_path i name) =
      Some (ms, [(''identifier'', path_unescape i), (''snapshot'', name)])"
    unfolding findRoute_exact snapshot_path_segments[OF assms]
    using ms(1) pattern assms(1) by (intro exI[of _ ?p]) (simp add: path_identifier_def)
  with ms(2) show ?thesis
    using validSnapshotName_lookup[OF assms(2)] clean_snapshot_path[OF assms] by blast
qed

theorem created_names_addressable_witness:
  "\<exists>methods. findRoute registry ''/api/v1/vms/web%201/snapshots/v1.2'' =
      Some (methods, [(''identifier'', ''web 1''), (''snapshot'', ''v1.2'')]) \<and>
    map_of methods ''DELETE'' = Some (scopeAdmin, DeleteVMSnapshot)"
proof -
  have "path_identifier ''web%201'' \<and> validSnapshotName ''v1.2'' \<and> path_unescape ''web%201'' = ''web 1''"
    by code_simp
  with created_names_addressable[of "''web%201''" "''v1.2''"] show ?thesis
    by (simp add: snapshot_path_def)
qed


end
