(* ===== verification/Dispatch.thy ===== *)
theory Dispatch
  imports Handler_Contract
begin

text \<open>
  From a request to the endpoint that serves it, and back to the response the client gets:
  the layers around an endpoint as one equation, and the shape every response has.
\<close>

subsection \<open>The layers around an endpoint\<close>

text \<open>The headers a request from an allowed origin gets before its endpoint runs.\<close>

definition cors_response :: "'c Request \<Rightarrow> response \<Rightarrow> response" where
  "cors_response r q =
     (if req_Header r ''Origin'' = [] then q
      else set_header ''Access-Control-Allow-Methods'' ''GET, POST, PATCH, DELETE, OPTIONS''
        (set_header ''Access-Control-Allow-Headers'' ''Authorization, Content-Type, Last-Event-ID''
          (set_header ''Vary'' ''Origin''
            (set_header ''Access-Control-Allow-Origin'' (req_Header r ''Origin'') q))))"

text \<open>A request that its path, its method and its token lead to an endpoint.\<close>

definition arrives ::
  "Server \<Rightarrow> 'c Request \<Rightarrow> endpoint \<Rightarrow> (string \<times> string) list \<Rightarrow> bool" where
  "arrives srv r e vars \<longleftrightarrow>
     origin_allowed srv r \<and> cleanPath (req_EscapedPath r) = req_EscapedPath r \<and>
     (\<exists>methods required. findRoute registry (req_EscapedPath r) = Some (methods, vars) \<and>
        map_of methods (route_method r) = Some (required, e) \<and> admits srv required r)"

lemma run_cors:
  "origin_allowed srv r \<Longrightarrow> req_Method r \<noteq> ''OPTIONS'' \<Longrightarrow>
   run_state (cors srv m r) s = run_state (m r) (s\<lparr>resp := cors_response r (resp s)\<rparr>)"
  by (auto simp: cors_def cors_response_def origin_allowed_def Let_def run_respond_with)

lemma requireScope_admits: "admits srv required r \<Longrightarrow> requireScope srv required m r = m r"
  by (auto simp: requireScope_def admits_def bearer_scope_def split: prod.splits option.splits if_splits)

lemma serveRoute_found:
  "map_of methods (route_method r) = Some matched \<Longrightarrow>
   serveRoute run methods (r\<lparr>req_Vars := vars\<rparr>) = run matched (r\<lparr>req_Vars := vars\<rparr>)"
  by (simp add: serveRoute_def Let_def route_method_def split: if_splits)

lemma no_options_route: "(m, p, f) \<in> set routes \<Longrightarrow> m \<noteq> ''OPTIONS''"
proof -
  have "list_all (\<lambda>(m, _). m \<noteq> ''OPTIONS'') routes" by code_simp
  then show "(m, p, f) \<in> set routes \<Longrightarrow> ?thesis" by (auto simp: list_all_iff)
qed

lemma inner_arrives:
  assumes "arrives srv r e vars"
  shows "run_state (inner srv svc r) s =
    run_state (run_endpoint svc e (r\<lparr>req_Vars := vars\<rparr>)) (s\<lparr>resp := cors_response r (resp s)\<rparr>)"
proof -
  from assms obtain methods required where a: "origin_allowed srv r"
      "cleanPath (req_EscapedPath r) = req_EscapedPath r"
      "findRoute registry (req_EscapedPath r) = Some (methods, vars)"
      "map_of methods (route_method r) = Some (required, e)" "admits srv required r"
    by (auto simp: arrives_def)
  have "admits srv required (r\<lparr>req_Vars := vars\<rparr>)" using a(5) by (simp add: admits_def bearer_scope_def)
  then have "serveMux (routeHandler srv svc) registry r = run_endpoint svc e (r\<lparr>req_Vars := vars\<rparr>)"
    using a by (simp add: serveMux_def Let_def serveRoute_found routeHandler_def requireScope_admits)
  moreover have "req_Method r \<noteq> ''OPTIONS''"
  proof
    assume "req_Method r = ''OPTIONS''"
    then have "map_of methods ''OPTIONS'' = Some (required, e)" using a(4) by (simp add: route_method_def)
    moreover obtain p where "(p, methods) \<in> set registry" using a(3) unfolding findRoute_exact by blast
    ultimately show False using registry_only_routes no_options_route by (metis map_of_SomeD)
  qed
  ultimately show ?thesis unfolding inner_def using run_cors[OF a(1)] by metis
qed

lemma cors_response_limited [simp]: "cors_response (limited r) q = cors_response r q"
  by (simp add: cors_response_def)

lemma arrives_limited [simp]: "arrives srv (limited r) e vars = arrives srv r e vars"
  by (simp add: arrives_def origin_allowed_def route_method_def admits_def bearer_scope_def)

text \<open>The end of a request whose inner layers return, or panic.\<close>

lemma run_outer:
  "run_state m s = (f, s') \<Longrightarrow>
   resp (snd (run_state (recoverPanic (accessLog (\<lambda>_. m)) r) s)) =
     (if f = Done then resp s'
      else write_part (PJson (error_json ''internal_error'' [Lit ''internal server error'']))
        (write_header 500 (set_header ''Content-Type'' json_type (resp s')))) \<and>
   hyp (snd (run_state (recoverPanic (accessLog (\<lambda>_. m)) r) s)) = hyp s'"
  by (cases f) (simp_all add: recoverPanic_def accessLog_def run_log_line run_writeError)

lemma handle_arrives:
  assumes "arrives srv r e vars"
    and "run_state (run_endpoint svc e ((limited r)\<lparr>req_Vars := vars\<rparr>))
      \<lparr>hyp = h, resp = cors_response r secured_response, logged = []\<rparr> = (f, s')"
  shows "resp (handle srv svc r h) =
     (if f = Done then resp s'
      else write_part (PJson (error_json ''internal_error'' [Lit ''internal server error'']))
        (write_header 500 (set_header ''Content-Type'' json_type (resp s'))))"
    and "hyp (handle srv svc r h) = hyp s'"
proof -
  have "run_state (inner srv svc (limited r)) \<lparr>hyp = h, resp = secured_response, logged = []\<rparr> = (f, s')"
    using assms by (simp add: inner_arrives)
  from run_outer[OF this, where r = r] show "hyp (handle srv svc r h) = hyp s'" and
    "resp (handle srv svc r h) =
     (if f = Done then resp s'
      else write_part (PJson (error_json ''internal_error'' [Lit ''internal server error'']))
        (write_header 500 (set_header ''Content-Type'' json_type (resp s'))))"
    by (simp_all add: handle_inner)
qed

subsection \<open>Responses before a status is written\<close>

definition unsent :: "response \<Rightarrow> bool" where
  "unsent q \<longleftrightarrow> rs_sent q = None \<and> rs_body q = []"

lemma unsent_set_header [simp]: "unsent (set_header k v q) = unsent q"
  by (simp add: unsent_def set_header_def)

lemma unsent_secured [simp]: "unsent secured_response"
  by code_simp

lemma unsent_cors [simp]: "unsent (cors_response r q) = unsent q"
  by (simp add: cors_response_def)

lemma sent_json:
  assumes "unsent q"
  shows "sent_status (write_part p (write_header status (set_header k v q))) = Some status"
    and "rs_body (write_part p (write_header status (set_header k v q))) = [p]"
    and "sent_header k (write_part p (write_header status (set_header k v q))) = Some v"
  using assms
  by (simp_all add: unsent_def sent_status_def sent_header_def write_part_def write_header_def
      set_header_def Let_def)

end
