(* ===== verification/Responses.thy ===== *)
theory Responses
  imports Dispatch
begin

text \<open>
  The shape of responses: what a client can rely on when it parses one, for every handler and
  every layer, and the one way in which it cannot.
\<close>

subsection \<open>How a handler ends\<close>

text \<open>
  An error status comes with one error object in JSON; a handler that panics has sent a status
  of success and no body.
\<close>

definition error_body :: "(string \<times> string) list \<Rightarrow> part list \<Rightarrow> bool" where
  "error_body hs parts \<longleftrightarrow>
     map_of hs ''Content-Type'' = Some json_type \<and>
     (\<exists>code message. parts = [PJson (error_json code message)])"

definition concluded :: "flow \<Rightarrow> response \<Rightarrow> bool" where
  "concluded f q \<longleftrightarrow>
     (\<exists>status hs. rs_sent q = Some (status, hs) \<and>
        (if f = Done then status < 400 \<or> error_body hs (rs_body q) else status < 400 \<and> rs_body q = []))"

definition concludes :: "('h, flow) web \<Rightarrow> bool" where
  "concludes m \<longleftrightarrow> triple (\<lambda>s. unsent (resp s)) m (\<lambda>f s. concluded f (resp s))"

lemma concludes_cases:
  "(b \<Longrightarrow> concludes m) \<Longrightarrow> (\<not> b \<Longrightarrow> concludes n) \<Longrightarrow> concludes (if b then m else n)"
  "concludes (f v) \<Longrightarrow> concludes (let x = v in f x)"
  "concludes m \<Longrightarrow> (\<And>v. concludes (k v)) \<Longrightarrow> concludes (case opt of None \<Rightarrow> m | Some v \<Rightarrow> k v)"
  "(\<And>e. concludes (g e)) \<Longrightarrow> (\<And>v. concludes (k v)) \<Longrightarrow> concludes (case res of Inl e \<Rightarrow> g e | Inr v \<Rightarrow> k v)"
  "(\<And>a b. concludes (j a b)) \<Longrightarrow> concludes (case pr of (a, b) \<Rightarrow> j a b)"
  by (simp_all split: option.split sum.split prod.split)

lemma concludes_steps:
  "concludes m \<Longrightarrow> concludes (do { respond_with (set_header k v); m })"
  "concludes m \<Longrightarrow> concludes (do { log_line l; m })"
  "(\<And>r. concludes (g r)) \<Longrightarrow> concludes (do { r \<leftarrow> serve f; g r })"
  "(\<And>s. concludes (j s)) \<Longrightarrow> concludes (do { s \<leftarrow> State_Monad.get; j s })"
  by (simp_all add: concludes_def triple_def run_respond_with run_log_line run_serve)

lemma concludes_json: "status < 400 \<Longrightarrow> concludes (writeJSON status v)"
  by (simp add: concludes_def triple_def run_writeJSON concluded_def Let_def write_part_def
      write_header_def set_header_def unsent_def)

lemma concludes_error: "concludes (writeError status code message)"
  by (auto simp: concludes_def triple_def run_writeError concluded_def error_body_def Let_def
      write_part_def write_header_def set_header_def unsent_def)

lemma concludes_service_error: "concludes (writeServiceError err)"
  unfolding writeServiceError_def by (intro concludes_cases concludes_steps concludes_error)

lemma concludes_respond: "status < 400 \<Longrightarrow> concludes (respond status encode r)"
  unfolding respond_def by (intro concludes_cases concludes_service_error concludes_json)

text \<open>A status of success, and whatever follows it.\<close>

definition keeps_status :: "('h, flow) web \<Rightarrow> bool" where
  "keeps_status m \<longleftrightarrow> (\<forall>st. triple (\<lambda>s. rs_sent (resp s) = Some st) m (\<lambda>f s. f = Done \<and> rs_sent (resp s) = Some st))"

lemma concludes_success:
  "status < 400 \<Longrightarrow> keeps_status m \<Longrightarrow> concludes (do { respond_with (write_header status); m })"
  by (auto simp: concludes_def keeps_status_def triple_def run_respond_with concluded_def unsent_def
      write_header_def)

lemma write_parts_sent: "rs_sent q = Some st \<Longrightarrow> rs_sent (write_parts ps q) = Some st"
  by (induction ps arbitrary: q) (simp_all add: write_part_def write_header_def)

lemma keeps_steps:
  "keeps_status (State_Monad.return Done)"
  "keeps_status m \<Longrightarrow> keeps_status (do { respond_with (write_part p); m })"
  "keeps_status m \<Longrightarrow> keeps_status (do { respond_with (write_parts ps); m })"
  "(\<And>r. keeps_status (k r)) \<Longrightarrow> keeps_status (do { r \<leftarrow> serve f; k r })"
  "keeps_status m \<Longrightarrow> keeps_status (do { (case opt of None \<Rightarrow> State_Monad.return () | Some e \<Rightarrow> log_line (g e)); m })"
  by (auto simp: keeps_status_def triple_def run_respond_with run_serve write_parts_sent
      write_part_def write_header_def Let_def run_log_line split: option.split)

lemmas concludes_intros =
  concludes_cases concludes_steps concludes_json concludes_error concludes_service_error
  concludes_respond concludes_success keeps_steps

subsection \<open>Every endpoint\<close>

lemma concludes_mode:
  "(\<And>mode. concludes (k mode)) \<Longrightarrow>
   concludes (case decodePowerMode r of Inl (code, message) \<Rightarrow> writeError 400 code message | Inr mode \<Rightarrow> k mode)"
  by (intro concludes_intros)

lemma run_endpoint_concludes: "concludes (run_endpoint svc e r)"
  by (cases e; simp only: run_endpoint.simps health_def ready_def host_def hostStats_def listVMs_def
      vm_def vmStats_def vmInterfaces_def vmAutostart_def setVMAutostart_def listVMSnapshots_def
      createVMSnapshot_def revertVMSnapshot_def deleteVMSnapshot_def vmXML_def vmViewer_def
      vmScreenshot_def vmStart_def vmStop_def vmPause_def vmResume_def vmReset_def vmShutdown_def
      vmReboot_def runAction_def events_def)
    (intro concludes_intros; simp)+

lemma requireScope_concludes: "(\<And>r. concludes (m r)) \<Longrightarrow> concludes (requireScope srv required m r)"
  unfolding requireScope_def unauthorized_def by (intro concludes_intros)

lemma inner_concludes: "concludes (inner srv svc r)"
proof -
  have route: "concludes (serveRoute (routeHandler srv svc) methods q)" for methods q
    unfolding serveRoute_def routeHandler_def
    by (intro concludes_intros requireScope_concludes run_endpoint_concludes)
  show ?thesis
    unfolding inner_def cors_def serveMux_def
    by (intro concludes_intros route) simp_all
qed

lemma handle_concludes:
  obtains f s' where "run_state (inner srv svc (limited r)) \<lparr>hyp = h, resp = secured_response, logged = []\<rparr> = (f, s')"
    and "concluded f (resp s')"
proof -
  obtain f s' where run:
    "run_state (inner srv svc (limited r)) \<lparr>hyp = h, resp = secured_response, logged = []\<rparr> = (f, s')"
    by (metis surj_pair)
  with inner_concludes[of srv svc "limited r"] have "concluded f (resp s')"
    by (auto simp: concludes_def triple_def dest: spec[of _ "\<lparr>hyp = h, resp = secured_response, logged = []\<rparr>"])
  with run that show ?thesis by blast
qed

lemma concluded_recovered:
  "concluded Panic q \<Longrightarrow>
   sent_status (write_part p (write_header 500 (set_header k v q))) = sent_status q \<and>
   rs_body (write_part p (write_header 500 (set_header k v q))) = [p]"
  by (auto simp: concluded_def sent_status_def write_part_def write_header_def set_header_def Let_def)

subsection \<open>The properties of responses\<close>



definition late_snapshot :: Snapshot where
  "late_snapshot =
     \<lparr>snap_Name = ''s'', snap_Description = [], snap_Parent = [], snap_State = ''running'',
      snap_CreatedAt = Some 315537897600, snap_Current = False\<rparr>"

definition snapshots_request :: "unit Request" where
  "snapshots_request =
     \<lparr>req_Method = ''GET'', req_Path = ''/api/v1/vms/web/snapshots'',
      req_EscapedPath = ''/api/v1/vms/web/snapshots'', req_RawQuery = [], req_Header = (\<lambda>_. []),
      req_ContentLength = 0,
      req_Body = \<lparr>body_values = [], body_size = 0, body_clean = True, body_limit = None\<rparr>,
      req_Context = (), req_Vars = []\<rparr>"

definition open_server :: Server where
  "open_server =
     \<lparr>bearerToken = [], readToken = [], controlToken = [], adminToken = [], allowedOrigins = []\<rparr>"


end
