(* ===== verification/Power_Api.thy ===== *)
theory Power_Api
  imports Dispatch Power_Refinement Api Validation
begin

text \<open>
  Power actions from the request to the domain: the composition of the server, the adapter and
  the abstract machine of theory \<open>Power_Refinement\<close>.
\<close>

subsection \<open>The requests\<close>

fun action_word :: "power_op \<Rightarrow> string" where
  "action_word OpStart = ''start''"
| "action_word OpStop = ''stop''"
| "action_word (OpShutdown _) = ''shutdown''"
| "action_word (OpReboot _) = ''reboot''"
| "action_word OpPause = ''pause''"
| "action_word OpResume = ''resume''"
| "action_word OpReset = ''reset''"

fun action_endpoint :: "power_op \<Rightarrow> endpoint" where
  "action_endpoint OpStart = VMStart"
| "action_endpoint OpStop = VMStop"
| "action_endpoint (OpShutdown _) = VMShutdown"
| "action_endpoint (OpReboot _) = VMReboot"
| "action_endpoint OpPause = VMPause"
| "action_endpoint OpResume = VMResume"
| "action_endpoint OpReset = VMReset"

fun action_scope :: "power_op \<Rightarrow> scope" where
  "action_scope OpStop = scopeAdmin"
| "action_scope OpReset = scopeAdmin"
| "action_scope _ = scopeControl"

fun action_status :: "power_op \<Rightarrow> int" where
  "action_status (OpShutdown _) = 202"
| "action_status (OpReboot _) = 202"
| "action_status _ = 200"

text \<open>The power mode a request asks for, where the action has one.\<close>

fun asks_mode :: "power_op \<Rightarrow> 'c Request \<Rightarrow> bool" where
  "asks_mode (OpShutdown mode) r = (decodePowerMode (limited r) = Inr mode)"
| "asks_mode (OpReboot mode) r = (decodePowerMode (limited r) = Inr mode)"
| "asks_mode _ r = True"

text \<open>A request for an action on the domain that the escaped identifier \<open>i\<close> names.\<close>

definition action_pattern :: "power_op \<Rightarrow> string" where
  "action_pattern op = ''/api/v1/vms/{identifier}/actions/'' @ action_word op"

definition action_path :: "string \<Rightarrow> power_op \<Rightarrow> string" where
  "action_path i op = ''/api/v1/vms/'' @ i @ ''/actions/'' @ action_word op"

definition power_request :: "Server \<Rightarrow> 'c Request \<Rightarrow> string \<Rightarrow> power_op \<Rightarrow> bool" where
  "power_request srv r i op \<longleftrightarrow>
     req_Method r = ''POST'' \<and> req_EscapedPath r = action_path i op \<and> path_identifier i \<and>
     origin_allowed srv r \<and> admits srv (action_scope op) r \<and> asks_mode op r"

lemma action_word_plain:
  "CHR ''/'' \<notin> set (action_word op)" "CHR ''%'' \<notin> set (action_word op)"
  "action_word op \<noteq> []" "action_word op \<noteq> ''.''" "action_word op \<noteq> ''..''"
  "last (action_word op) \<noteq> CHR ''/''"
  by (cases op; simp)+

lemma split_action_path:
  "CHR ''/'' \<notin> set i \<Longrightarrow>
   split_on (CHR ''/'') (action_path i op) = [[], ''api'', ''v1'', ''vms'', i, ''actions'', action_word op]"
  by (simp add: action_path_def split_on_part split_on_whole action_word_plain)

lemma clean_action_path:
  assumes "path_identifier i"
  shows "cleanPath (action_path i op) = action_path i op"
proof -
  have slash: "CHR ''/'' \<notin> set i" using assms by (simp add: path_identifier_def)
  have "clean_segments [] [[], ''api'', ''v1'', ''vms'', i, ''actions'', action_word op] =
      [''api'', ''v1'', ''vms'', i, ''actions'', action_word op]"
    using assms by (simp add: path_identifier_def action_word_plain)
  moreover have "last (action_path i op) \<noteq> CHR ''/''"
    by (simp add: action_path_def action_word_plain)
  ultimately show ?thesis
    unfolding cleanPath_def Let_def using split_action_path[OF slash, of op]
    by (simp add: action_path_def)
qed

lemma action_path_segments:
  assumes "path_identifier i"
  shows "path_segments (action_path i op) = [''api'', ''v1'', ''vms'', path_unescape i, ''actions'', action_word op]"
  using assms split_action_path[of i op] action_word_plain[of op]
  by (simp add: path_segments_def path_unescape_plain path_identifier_def)

lemma action_route: "(''POST'', action_pattern op, action_scope op, action_endpoint op) \<in> set routes"
  by (cases op) (simp_all add: routes_def action_pattern_def)

lemma action_pattern_parsed:
  "parse_pattern (action_pattern op) =
     [Literal ''api'', Literal ''v1'', Literal ''vms'', Wildcard ''identifier'', Literal ''actions'',
      Literal (action_word op)]"
  "wildcard_names (action_pattern op) = [''identifier'']"
  by (cases op; simp add: action_pattern_def; code_simp)+

lemma power_request_arrives:
  assumes "power_request srv r i op"
  shows "arrives srv r (action_endpoint op) [(''identifier'', path_unescape i)]"
proof -
  from assms have i: "path_identifier i" and path: "req_EscapedPath r = action_path i op"
    by (simp_all add: power_request_def)
  from registry_holds_routes[OF action_route[of op]] obtain ms where ms: "(action_pattern op, ms) \<in> set registry"
      "map_of ms ''POST'' = Some (action_scope op, action_endpoint op)"
    by (auto simp: registered_at_def split: Option.bind_splits dest: map_of_SomeD)
  have "findRoute registry (action_path i op) = Some (ms, [(''identifier'', path_unescape i)])"
    unfolding findRoute_exact action_path_segments[OF i]
    using ms(1) i by (intro exI[of _ "action_pattern op"]) (simp add: action_pattern_parsed path_identifier_def)
  with assms ms(2) clean_action_path[OF i] show ?thesis
    by (simp add: power_request_def arrives_def route_method_def)
qed

lemma run_power_endpoint:
  assumes "asks_mode op r"
  shows "run_endpoint (libvirt_service sort_func seen lv) (action_endpoint op) ((limited r)\<lparr>req_Vars := vars\<rparr>) =
    do { a \<leftarrow> serve (run_state (power_action lv op (PathValue ((limited r)\<lparr>req_Vars := vars\<rparr>) ''identifier'')));
         respond (action_status op) json_ActionResult a }"
proof -
  have "decodePowerMode ((limited r)\<lparr>req_Vars := vars\<rparr>) = decodePowerMode (limited r)"
    by (simp add: decodePowerMode_def)
  with assms show ?thesis
    by (cases op) (simp_all add: vmStart_def vmStop_def vmShutdown_def vmReboot_def vmPause_def
        vmResume_def vmReset_def runAction_def libvirt_service_def)
qed

subsection \<open>The responses\<close>

text \<open>How a response shows the reply of the abstract machine.\<close>

definition shows_reply :: "power_op \<Rightarrow> (string \<times> string) option \<Rightarrow> response \<Rightarrow> bool" where
  "shows_reply op reply q \<longleftrightarrow>
     (case reply of
        Some (state, status) \<Rightarrow> sent_status q = Some (action_status op) \<and>
          (\<exists>name uuid. rs_body q = [PJson (json_ActionResult
             \<lparr>act_Name = name, act_UUID = uuid, act_State = state, act_Status = status\<rparr>)])
      | None \<Rightarrow> sent_status q = Some 409 \<and>
          (\<exists>message. rs_body q = [PJson (error_json ''state_conflict'' message)] \<and> \<not> leaks message))"

lemma serviceError_conflict:
  "is_err e ErrConflict \<Longrightarrow> serviceError e = (409, ''state_conflict'', error_text e)"
  using is_err_unique[of e] by (auto simp: serviceError_def)

lemma respond_shows_reply:
  assumes "reply_of a = Some reply" and "sound_result a" and "unsent (resp s)"
  shows "fst (run_state (respond (action_status op) json_ActionResult a) s) = Done \<and>
    shows_reply op reply (resp (snd (run_state (respond (action_status op) json_ActionResult a) s))) \<and>
    hyp (snd (run_state (respond (action_status op) json_ActionResult a) s)) = hyp s"
proof (cases a)
  case (Inl e)
  with assms have "is_err e ErrConflict" "reply = None" "\<not> leaks (error_text e)"
    by (auto simp: reply_of_def sound_result_def presentable_def split: if_splits)
  with Inl assms(3) show ?thesis
    by (auto simp: respond_def writeServiceError_def serviceError_conflict run_writeError shows_reply_def sent_json)
next
  case (Inr v)
  moreover obtain name uuid state status where
    "v = \<lparr>act_Name = name, act_UUID = uuid, act_State = state, act_Status = status\<rparr>"
    by (cases v) auto
  ultimately show ?thesis
    using assms by (auto simp: respond_def run_writeJSON shows_reply_def sent_json Let_def reply_of_def) blast
qed

subsection \<open>A reset of a paused domain\<close>

text \<open>
  The state a reset reports is fixed and not read again: over a binding whose reset leaves a
  paused domain paused, which its documentation permits, the response says running.
\<close>

definition reset_keeps_paused :: "(string \<Rightarrow> machine, string) lv_power" where
  "reset_keeps_paused = memory_lv\<lparr>domReset := memory_move {Paused} Paused\<rparr>"

lemma reset_reports_running:
  "case run_state (Reset reset_keeps_paused ''vm'') \<lparr>world = (\<lambda>_. Paused), calls = []\<rparr> of
     (r, s) \<Rightarrow> reply_of r = Some (Some (''running'', [])) \<and> world s ''vm'' = Paused"
  by code_simp

subsection \<open>The properties of power requests\<close>


text \<open>The binding in memory with any queries and snapshots.\<close>

definition with_memory ::
  "(string \<Rightarrow> machine, string) lv_service \<Rightarrow> (string \<Rightarrow> machine, string) lv_service" where
  "with_memory lv = lv
     \<lparr>LookupDomainByName := LookupDomainByName memory_lv,
      LookupDomainByUUIDString := LookupDomainByUUIDString memory_lv,
      GetName := GetName memory_lv, GetUUIDString := GetUUIDString memory_lv, Free := Free memory_lv,
      domIsActive := domIsActive memory_lv, domGetState := domGetState memory_lv,
      domCreate := domCreate memory_lv, domShutdownFlags := domShutdownFlags memory_lv,
      domReboot := domReboot memory_lv, domSuspend := domSuspend memory_lv,
      domResume := domResume memory_lv, domReset := domReset memory_lv,
      domDestroy := domDestroy memory_lv, DOMAIN_PAUSED := DOMAIN_PAUSED memory_lv\<rparr>"

lemma with_memory_documented: "documented (with_memory lv) (\<lambda>w. w)"
  using memory_documented by (simp add: documented_def with_memory_def)

definition shutdown_request :: "Context Request" where
  "shutdown_request =
     \<lparr>req_Method = ''POST'', req_Path = ''/api/v1/vms/web 1/actions/shutdown'',
      req_EscapedPath = ''/api/v1/vms/web%201/actions/shutdown'', req_RawQuery = [],
      req_Header = (\<lambda>k. if k = ''Authorization'' then ''Bearer c'' else []), req_ContentLength = 0,
      req_Body = \<lparr>body_values = [], body_size = 0, body_clean = True, body_limit = None\<rparr>,
      req_Context = \<lparr>ctx_lock = None, ctx_check = None\<rparr>, req_Vars = []\<rparr>"


end
