(* ===== verification/Results.thy ===== *)
theory Results
  imports Libvirt_Service
begin

text \<open>
  The types of the results, beyond those Go checks: what a client can rely on in the values the
  adapter returns, whatever the binding answers.
\<close>

subsection \<open>What an operation gives when it succeeds\<close>

definition gives :: "('a \<Rightarrow> bool) \<Rightarrow> ('s, 'e + 'a) state \<Rightarrow> bool" where
  "gives K m \<longleftrightarrow> (\<forall>s. case fst (run_state m s) of Inl _ \<Rightarrow> True | Inr v \<Rightarrow> K v)"

named_theorems gives_intros \<open>rules for the results of an operation\<close>

lemma gives_return [gives_intros]:
  "gives K (State_Monad.return (Inl e))" "K v \<Longrightarrow> gives K (State_Monad.return (Inr v))"
  by (simp_all add: gives_def)

lemma gives_cases [gives_intros]:
  "(b \<Longrightarrow> gives K m) \<Longrightarrow> (\<not> b \<Longrightarrow> gives K n) \<Longrightarrow> gives K (if b then m else n)"
  "(\<And>e. gives K (f e)) \<Longrightarrow> (\<And>v. gives K (g v)) \<Longrightarrow> gives K (case res of Inl e \<Rightarrow> f e | Inr v \<Rightarrow> g v)"
  "(\<And>a b. gives K (j a b)) \<Longrightarrow> gives K (case pr of (a, b) \<Rightarrow> j a b)"
  by (simp_all split: sum.split prod.split)

text \<open>After an operation that gives \<open>J\<close>, which returns its error: the rest may rely on \<open>J\<close>.\<close>

lemma gives_then:
  "gives J m \<Longrightarrow> (\<And>e. gives K (f e)) \<Longrightarrow> (\<And>v. J v \<Longrightarrow> gives K (g v)) \<Longrightarrow>
   gives K (do { r \<leftarrow> m; case r of Inl e \<Rightarrow> f e | Inr v \<Rightarrow> g v })"
  unfolding gives_def run_state_bind by (simp split: prod.split sum.split) (metis fst_conv sum.simps(6))

lemma gives_bind: "(\<And>x. gives K (f x)) \<Longrightarrow> gives K (State_Monad.bind m f)"
  by (simp add: gives_def split: prod.split)

lemma gives_deferring [gives_intros]: "gives K m \<Longrightarrow> gives K (deferring final m)"
  unfolding gives_def deferring_def by (simp split: prod.split) (metis fst_conv)

lemma gives_withDomain [gives_intros]: "(\<And>d. gives K (body d)) \<Longrightarrow> gives K (withDomain lv n body)"
  unfolding withDomain_def by (intro gives_bind gives_intros)

lemma gives_withIdentity [gives_intros]:
  "(\<And>name uuid. gives K (body name uuid)) \<Longrightarrow> gives K (withIdentity lv d body)"
  unfolding withIdentity_def by (intro gives_bind gives_intros)

lemma gives_withActionLock [gives_intros]: "gives K m \<Longrightarrow> gives K (withActionLock uuid m)"
  unfolding withActionLock_def by (intro gives_bind gives_intros)

lemmas gives_steps = gives_intros gives_bind

subsection \<open>Domains\<close>

definition known_state :: "string \<Rightarrow> bool" where
  "known_state s \<longleftrightarrow> s \<in> insert ''unknown'' (set state_names)"

lemma known_StateName [simp]: "known_state (StateName code)"
  using StateName_in by (simp add: known_state_def)

definition domain_typed :: "Domain \<Rightarrow> bool" where
  "domain_typed d \<longleftrightarrow> known_state (dom_State d) \<and> (dom_Active d \<or> dom_ID d = - 1)"

lemma gives_domainSummary: "gives domain_typed (domainSummary lv d)"
  unfolding domainSummary_def by (intro gives_steps) (simp_all add: domain_typed_def)

lemma gives_summaries: "list_all domain_typed acc \<Longrightarrow> gives (list_all domain_typed) (summaries lv ds acc)"
proof (induction ds arbitrary: acc)
  case (Cons d ds)
  then show ?case by (simp, intro gives_then[OF gives_domainSummary] gives_intros) simp
qed (simp add: gives_return)

lemma gives_ListDomains: "gives (list_all domain_typed) (ListDomains lv which)"
  unfolding ListDomains_def by (intro gives_steps gives_summaries) simp

lemma gives_DomainDetails: "gives (\<lambda>i. domain_typed (info_Domain i)) (DomainDetails lv n)"
  unfolding DomainDetails_def
  by (intro gives_then[OF gives_domainSummary] gives_steps) simp_all

lemma gives_DomainStatistics: "gives (\<lambda>s. known_state (ds_State s)) (DomainStatistics lv n)"
  unfolding DomainStatistics_def domainReadings_def by (intro gives_steps) simp_all

subsection \<open>Changes\<close>

definition action_typed :: "string list \<Rightarrow> string \<Rightarrow> ActionResult \<Rightarrow> bool" where
  "action_typed states status a \<longleftrightarrow> act_State a \<in> set states \<and> act_Status a = status"

lemma gives_simpleAction: "gives (action_typed [res] []) (simpleAction lv n res act operation)"
  unfolding simpleAction_def by (intro gives_steps) (simp add: action_typed_def)

lemma gives_requestGracefulShutdown: "gives known_state (requestGracefulShutdown lv name d flags)"
  unfolding requestGracefulShutdown_def by (intro gives_steps) simp

definition all_states :: "string list" where
  "all_states = ''unknown'' # state_names"

lemma known_all: "known_state s \<longleftrightarrow> s \<in> set all_states"
  by (simp add: known_state_def all_states_def)

lemma gives_power:
  "gives (action_typed [''running''] []) (Start lv n)"
  "gives (action_typed [''shutoff''] []) (Stop lv n)"
  "gives (action_typed [''paused''] []) (Pause lv n)"
  "gives (action_typed [''running''] []) (Resume lv n)"
  "gives (action_typed [''running''] []) (Reset lv n)"
  "gives (action_typed all_states ''shutdown-requested'') (Shutdown lv n mode)"
  "gives (action_typed all_states ''reboot-requested'') (Reboot lv n mode)"
  unfolding Start_def Stop_def Pause_def Resume_def Reset_def Shutdown_def Reboot_def
  by (intro gives_simpleAction gives_then[OF gives_requestGracefulShutdown] gives_steps;
      simp add: action_typed_def known_all[symmetric])+

lemma gives_interfaces: "gives (\<lambda>i. ifs_Source i = source) (InterfaceList lv n source)"
  unfolding InterfaceList_def by (intro gives_steps) simp

lemma gives_SetAutostart: "gives (\<lambda>a. auto_Enabled a = enabled) (SetAutostart lv n enabled)"
  unfolding SetAutostart_def by (intro gives_steps) simp

lemma gives_snapshot_steps:
  "(\<And>x. gives K (body x)) \<Longrightarrow> gives K (withSnapshot lv d n sn body)"
  "gives K m \<Longrightarrow> gives K (withSnapshotLock ctx act n uuid m)"
  "gives K m \<Longrightarrow> gives K (unlessDone ctx act n m)"
  unfolding withSnapshot_def withSnapshotLock_def unlessDone_def
  by (intro gives_bind gives_intros; simp)
     (simp_all add: gives_intros split: option.split)

lemma gives_snapshotMetadata: "gives (\<lambda>s. snap_Current s \<longleftrightarrow> snap_Name s = cur) (snapshotMetadata lv x cur)"
  unfolding snapshotMetadata_def
  by (rule gives_bind) (auto simp: gives_def parseSnapshotDefinition_def split: sum.split option.split)

lemma gives_CreateSnapshot:
  "gives (\<lambda>s. snap_Current s \<longleftrightarrow> snap_Name s = scr_Name q) (CreateSnapshot lv ctx n q)"
  unfolding CreateSnapshot_def by (intro gives_snapshot_steps gives_snapshotMetadata gives_steps)

lemma gives_RevertSnapshot:
  "gives (\<lambda>a. sar_Snapshot a = sn \<and> sar_Status a = ''reverted'') (RevertSnapshot lv ctx n sn q)"
  unfolding RevertSnapshot_def
  by (intro gives_snapshot_steps gives_steps) (simp add: gives_def split: sum.split)

subsection \<open>The property of results\<close>

text \<open>
  C20: Whatever the binding answers, a successful result is of its documented type: a state is
  one of the nine names, a domain that is not active has the numeric id -1 in lists and
  details, an action reports the state it leads to and the documented status, interfaces name
  the source that was asked for, and changes of autostart and snapshots report what was asked.
\<close>

theorem results_typed:
  "gives (list_all domain_typed) (ListDomains lv which) \<and>
   gives (\<lambda>i. domain_typed (info_Domain i)) (DomainDetails lv n) \<and>
   gives (\<lambda>s. known_state (ds_State s)) (DomainStatistics lv n) \<and>
   gives (action_typed [''running''] []) (Start lv n) \<and>
   gives (action_typed [''shutoff''] []) (Stop lv n) \<and>
   gives (action_typed [''paused''] []) (Pause lv n) \<and>
   gives (action_typed [''running''] []) (Resume lv n) \<and>
   gives (action_typed [''running''] []) (Reset lv n) \<and>
   gives (action_typed all_states ''shutdown-requested'') (Shutdown lv n mode) \<and>
   gives (action_typed all_states ''reboot-requested'') (Reboot lv n mode) \<and>
   gives (\<lambda>i. ifs_Source i = source) (InterfaceList lv n source) \<and>
   gives (\<lambda>a. auto_Enabled a = enabled) (SetAutostart lv n enabled) \<and>
   gives (\<lambda>s. snap_Current s \<longleftrightarrow> snap_Name s = scr_Name create) (CreateSnapshot slv ctx n create) \<and>
   gives (\<lambda>a. sar_Snapshot a = sn \<and> sar_Status a = ''reverted'') (RevertSnapshot slv ctx n sn revert)"
  by (intro conjI gives_ListDomains gives_DomainDetails gives_DomainStatistics gives_power
      gives_interfaces gives_SetAutostart gives_CreateSnapshot gives_RevertSnapshot)

end
