(* ===== verification/Access.thy ===== *)
theory Access
  imports Process
begin

text \<open>
  Who may do what, from the environment of the process to the endpoints: the composition of the
  configuration loader and the server.
\<close>

lemma serverHasCredentials_of [simp]: "serverHasCredentials (server_of cfg) = hasCredentials cfg"
  by (simp add: serverHasCredentials_def hasCredentials_def server_of_def)

lemma public_routes: "(m, p, scopePublic, e) \<in> set routes \<Longrightarrow> e = Health \<or> e = ReadyCheck"
proof -
  have "list_all (\<lambda>(m, p, required, e). required = scopePublic \<longrightarrow> e = Health \<or> e = ReadyCheck) routes"
    by code_simp
  then show "(m, p, scopePublic, e) \<in> set routes \<Longrightarrow> ?thesis" by (auto simp: list_all_iff)
qed



end
