(* ===== verification/Subscription.thy ===== *)
theory Subscription
  imports EventFeed
begin

text \<open>
  The life of one subscription (\<open>internal/hypervisor/events.go\<close>, lines 93 to 113): the handler
  that defers \<open>Cancel\<close>, the goroutine that waits for the context or for the channel \<open>done\<close>, and
  the \<open>sync.Once\<close> they meet in, under every interleaving with each other and with all that
  happens to the broker.
\<close>

subsection \<open>The two goroutines\<close>

datatype who = Handler | Watcher

text \<open>
  \<open>AtWork\<close> is the loop of the handler and the \<open>select\<close> of the watcher; \<open>Calling\<close> is before
  \<open>once.Do\<close>, which makes a second caller wait until the first has finished; \<open>InOnce\<close> is before
  \<open>close(done)\<close> and \<open>Unsubscribing\<close> before the critical section.
\<close>

datatype place = AtWork | Calling | InOnce | Unsubscribing | Gone

datatype once = Fresh | Busy | Finished

record subscription =
  once_state :: once
  done_chan :: "unit channel"
  ctx_over :: bool
  places :: "who \<Rightarrow> place"

definition new_subscription :: subscription where
  "new_subscription =
     \<lparr>once_state = Fresh, done_chan = ch_make 0, ctx_over = False, places = (\<lambda>_. AtWork)\<rparr>"

definition at_place :: "who \<Rightarrow> place \<Rightarrow> subscription \<Rightarrow> subscription" where
  "at_place t x p = p\<lparr>places := (places p)(t := x)\<rparr>"

text \<open>The steps of the two goroutines for subscription \<open>i\<close>.\<close>

inductive own_step :: "nat \<Rightarrow> feed \<times> subscription \<Rightarrow> feed \<times> subscription \<Rightarrow> bool" for i where
  leave: "places p Handler = AtWork \<Longrightarrow> own_step i (s, p) (s, at_place Handler Calling p)"
| wake: "places p Watcher = AtWork \<Longrightarrow> ctx_over p \<Longrightarrow> own_step i (s, p) (s, at_place Watcher Calling p)"
| quit: "places p Watcher = AtWork \<Longrightarrow> ch_recv (done_chan p) = Ok (None, c) \<Longrightarrow>
     own_step i (s, p) (s, at_place Watcher Gone p)"
| enter: "places p t = Calling \<Longrightarrow> once_state p = Fresh \<Longrightarrow>
     own_step i (s, p) (s, (at_place t InOnce p)\<lparr>once_state := Busy\<rparr>)"
| skip: "places p t = Calling \<Longrightarrow> once_state p = Finished \<Longrightarrow> own_step i (s, p) (s, at_place t Gone p)"
| signal: "places p t = InOnce \<Longrightarrow> ch_close (done_chan p) = Ok c \<Longrightarrow>
     own_step i (s, p) (s, (at_place t Unsubscribing p)\<lparr>done_chan := c\<rparr>)"
| unsubscribe: "places p t = Unsubscribing \<Longrightarrow> perform (Cancel i) s = Ok s' \<Longrightarrow>
     own_step i (s, p) (s', (at_place t Gone p)\<lparr>once_state := Finished\<rparr>)"

text \<open>The steps of everything else: the other actions on the broker, and the end of the context.\<close>

inductive other_step :: "nat \<Rightarrow> feed \<times> subscription \<Rightarrow> feed \<times> subscription \<Rightarrow> bool" for i where
  feed: "perform a s = Ok s' \<Longrightarrow> a \<noteq> Cancel i \<Longrightarrow> other_step i (s, p) (s', p)"
| over: "other_step i (s, p) (s, p\<lparr>ctx_over := True\<rparr>)"

inductive_cases own_stepE: "own_step i (s, p) q"
inductive_cases other_stepE: "other_step i (s, p) q"

text \<open>The states after a subscription to an open broker; its closure \<open>cancel\<close> is new.\<close>

inductive living :: "string \<Rightarrow> nat \<Rightarrow> feed \<times> subscription \<Rightarrow> bool" for gen i where
  subscribed: "reachable gen s \<Longrightarrow> \<not> closed (broker s) \<Longrightarrow> i = next_chan (broker s) \<Longrightarrow>
     \<not> cancelled (broker s) i \<Longrightarrow> perform (Subscribe now cur) s = Ok s' \<Longrightarrow>
     living gen i (s', new_subscription)"
| own: "living gen i q \<Longrightarrow> own_step i q q' \<Longrightarrow> living gen i q'"
| other: "living gen i q \<Longrightarrow> other_step i q q' \<Longrightarrow> living gen i q'"

subsection \<open>Invariant\<close>

definition phase_ok :: "subscription \<Rightarrow> bool" where
  "phase_ok p \<longleftrightarrow> ch_buf (done_chan p) = [] \<and>
     (case once_state p of
        Fresh \<Rightarrow> (\<forall>t. places p t \<in> {AtWork, Calling}) \<and> \<not> ch_closed (done_chan p)
      | Busy \<Rightarrow> (\<exists>t. places p t \<in> {InOnce, Unsubscribing} \<and>
          (ch_closed (done_chan p) \<longleftrightarrow> places p t = Unsubscribing) \<and>
          (\<forall>u. u \<noteq> t \<longrightarrow> places p u \<in> {AtWork, Calling} \<or>
             u = Watcher \<and> places p u = Gone \<and> ch_closed (done_chan p)))
      | Finished \<Rightarrow> (\<forall>t. places p t \<notin> {InOnce, Unsubscribing}) \<and> ch_closed (done_chan p))"

lemma who_all: "(\<forall>t. P t) \<longleftrightarrow> P Handler \<and> P Watcher" and who_ex: "(\<exists>t. P t) \<longleftrightarrow> P Handler \<or> P Watcher"
  by (metis who.exhaust)+

lemmas phase_simps = phase_ok_def at_place_def who_all who_ex ch_close_def ch_recv_def

lemma phase_own: "own_step i (s, p) (s', p') \<Longrightarrow> phase_ok p \<Longrightarrow> phase_ok p'"
proof (erule own_stepE, goal_cases)
  case (4 t)
  then show ?case by (cases t) (auto simp: phase_simps split: once.splits)
next
  case (5 t)
  then show ?case by (cases t) (auto simp: phase_simps split: once.splits)
next
  case (6 t)
  then show ?case by (cases t) (auto simp: phase_simps split: once.splits if_splits)
next
  case (7 t)
  then show ?case by (cases t) (auto simp: phase_simps split: once.splits)
qed (auto simp: phase_simps split: once.splits list.splits if_splits)

lemma phase_over [simp]: "phase_ok (p\<lparr>ctx_over := over\<rparr>) = phase_ok p"
  by (cases "once_state p") (simp_all add: phase_ok_def)

lemma cancel_gone:
  "feed_inv gen s \<Longrightarrow> \<not> cancelled (broker s) i \<Longrightarrow> perform (Cancel i) s = Ok s' \<Longrightarrow>
   i \<notin> set (subscribers (broker s')) \<and> next_chan (broker s') = next_chan (broker s)"
  using cancel_effect[of "broker s" i] by (auto simp: feed_inv_def)

lemma other_frame:
  assumes inv: "feed_inv gen s" and small: "length (published s) < 2 ^ 64"
    and run: "perform a s = Ok s'" and "a \<noteq> Cancel i" and "i < next_chan (broker s)"
  shows "cancelled (broker s') i = cancelled (broker s) i \<and> next_chan (broker s) \<le> next_chan (broker s') \<and>
    (i \<notin> set (subscribers (broker s)) \<longrightarrow> i \<notin> set (subscribers (broker s')))"
proof -
  have ok: "subs_ok (broker s)" using inv by (simp add: feed_inv_def)
  show ?thesis
  proof (cases a)
    case (Publish now name uuid event detail)
    then show ?thesis
      using run publish_effect[OF ok]
      by (cases "closed (broker s)") (auto simp: publish_def Let_def after_delivery_def)
  next
    case (Subscribe now cur)
    obtain after unreplayable where r: "replayPoint (broker s) cur = (after, unreplayable)"
      by (cases "replayPoint (broker s) cur")
    show ?thesis
      using run Subscribe subscribe_effect[OF inv small r] assms(5)
      by (cases "closed (broker s)") (auto simp: Let_def r)
  next
    case (Cancel j)
    with assms(4) run cancel_effect[OF ok, of j] show ?thesis by (auto split: if_splits)
  next
    case (Receive j)
    with run show ?thesis by (auto simp: bind_outcome_Ok)
  next
    case CloseBroker
    then show ?thesis
      using run close_effect[OF ok] by (cases "closed (broker s)") (auto simp: close_def)
  qed
qed

text \<open>What holds of a living subscription at every moment.\<close>

definition subscription_inv :: "string \<Rightarrow> nat \<Rightarrow> feed \<times> subscription \<Rightarrow> bool" where
  "subscription_inv gen i q \<longleftrightarrow>
     (case q of (s, p) \<Rightarrow>
        reachable gen s \<and> i < next_chan (broker s) \<and> phase_ok p \<and>
        (if once_state p = Finished then i \<notin> set (subscribers (broker s))
         else \<not> cancelled (broker s) i))"

lemma own_published: "own_step i (s, p) (s', p') \<Longrightarrow> published s' = published s"
  by (erule own_stepE) (auto simp: bind_outcome_Ok)

lemma own_once:
  "own_step i (s, p) (s', p') \<Longrightarrow> phase_ok p \<Longrightarrow>
   s' = s \<and> (once_state p' = Finished \<longleftrightarrow> once_state p = Finished) \<or>
   once_state p = Busy \<and> once_state p' = Finished \<and> perform (Cancel i) s = Ok s'"
proof (erule own_stepE, goal_cases)
  case (7 t)
  then show ?case by (cases t) (auto simp: phase_simps split: once.splits)
qed (auto simp: at_place_def)

lemma subscription_inv_own:
  assumes "subscription_inv gen i (s, p)" and "own_step i (s, p) (s', p')"
    and "length (published s) < 2 ^ 64"
  shows "subscription_inv gen i (s', p')"
proof -
  from assms(1) have inv: "feed_inv gen s" "phase_ok p" "reachable gen s" "i < next_chan (broker s)"
    using reachable_inv assms(3) by (auto simp: subscription_inv_def)
  have "phase_ok p'" by (rule phase_own[OF assms(2) inv(2)])
  with own_once[OF assms(2) inv(2)] assms(1) inv cancel_gone[OF inv(1)] show ?thesis
    by (auto simp: subscription_inv_def simp del: perform.simps intro: reachable.step)
qed

lemma subscription_inv_other:
  assumes "subscription_inv gen i (s, p)" and "other_step i (s, p) (s', p')"
    and "length (published s) < 2 ^ 64"
  shows "subscription_inv gen i (s', p')"
proof -
  from assms(2) consider (feed) a where "perform a s = Ok s'" "a \<noteq> Cancel i" "p' = p"
    | (over) "s' = s" "p' = p\<lparr>ctx_over := True\<rparr>"
    by (auto elim!: other_stepE simp del: perform.simps)
  then show ?thesis
  proof cases
    case feed
    have "feed_inv gen s" "i < next_chan (broker s)"
      using assms(1,3) reachable_inv by (auto simp: subscription_inv_def)
    from other_frame[OF this(1) assms(3) feed(1,2) this(2)] feed assms(1) show ?thesis
      by (auto simp: subscription_inv_def simp del: perform.simps intro: reachable.step)
  next
    case over
    with assms(1) show ?thesis by (simp add: subscription_inv_def)
  qed
qed

lemma subscribe_published: "perform (Subscribe now cur) s = Ok s' \<Longrightarrow> published s' = published s"
  by (cases "replayPoint (broker s) cur") (auto simp: bind_outcome_Ok Let_def)

lemma living_inv:
  "living gen i q \<Longrightarrow> length (published (fst q)) < 2 ^ 64 \<Longrightarrow> subscription_inv gen i q"
proof (induction rule: living.induct)
  case (subscribed s now cur s')
  have "published s' = published s"
    using subscribed(5) by (rule subscribe_published)
  then have small: "length (published s) < 2 ^ 64" using subscribed(6) by simp
  have inv: "feed_inv gen s" using reachable_inv[OF subscribed(1) small] .
  obtain after unreplayable where r: "replayPoint (broker s) cur = (after, unreplayable)"
    by (cases "replayPoint (broker s) cur")
  have "next_chan (broker s') = Suc i \<and> cancelled (broker s') i = cancelled (broker s) i"
    using subscribed(3,5) subscribe_effect[OF inv small r] by (auto simp: Let_def r)
  with subscribed show ?case
    by (auto simp: subscription_inv_def new_subscription_def phase_ok_def ch_make_def simp del: perform.simps intro: reachable.step)
next
  case (own q q')
  obtain s p s' p' where q: "q = (s, p)" "q' = (s', p')" by (cases q, cases q')
  with own own_published show ?case using subscription_inv_own by (metis fst_conv)
next
  case (other q q')
  obtain s p s' p' where q: "q = (s, p)" "q' = (s', p')" by (cases q, cases q')
  have "length (published s) \<le> length (published s')"
    using other(2) perform_published unfolding q by (auto elim!: other_stepE)
  with other q show ?case using subscription_inv_other by (metis fst_conv le_less_trans)
qed

subsection \<open>Progress\<close>

fun steps_left :: "place \<Rightarrow> nat" where
  "steps_left AtWork = 4"
| "steps_left Calling = 3"
| "steps_left InOnce = 2"
| "steps_left Unsubscribing = 1"
| "steps_left Gone = 0"

definition work :: "subscription \<Rightarrow> nat" where
  "work p = steps_left (places p Handler) + steps_left (places p Watcher)"

lemma at_place_work: "steps_left x < steps_left (places p t) \<Longrightarrow> work (at_place t x p) < work p"
  by (cases t) (simp_all add: work_def at_place_def)

lemma work_fields [simp]: "work (p\<lparr>once_state := o'\<rparr>) = work p" "work (p\<lparr>done_chan := c\<rparr>) = work p"
  by (simp_all add: work_def)

lemma own_work: "own_step i (s, p) (s', p') \<Longrightarrow> work p' < work p"
  by (erule own_stepE) (auto intro!: at_place_work)

lemma holder_moves:
  assumes "subscription_inv gen i (s, p)" and "length (published s) < 2 ^ 64" and "once_state p = Busy"
  shows "\<exists>s' p' t. own_step i (s, p) (s', p') \<and> places p t \<in> {InOnce, Unsubscribing} \<and>
    (\<forall>u. u \<noteq> t \<longrightarrow> places p' u = places p u)"
proof -
  have inv: "feed_inv gen s" and ph: "phase_ok p" using assms reachable_inv by (auto simp: subscription_inv_def)
  from ph assms(3) obtain t where t: "places p t \<in> {InOnce, Unsubscribing}"
      "ch_closed (done_chan p) \<longleftrightarrow> places p t = Unsubscribing"
    by (auto simp: phase_ok_def)
  show ?thesis
  proof (cases "places p t = InOnce")
    case True
    with t have "ch_close (done_chan p) = Ok ((done_chan p)\<lparr>ch_closed := True\<rparr>)" by (simp add: ch_close_def)
    from own_step.signal[OF True this] t(1) show ?thesis
      by (intro exI conjI) (assumption, assumption, simp add: at_place_def)
  next
    case False
    with t have un: "places p t = Unsubscribing" by simp
    obtain s' where "perform (Cancel i) s = Ok s'" using perform_ok[OF inv assms(2), of "Cancel i"] by auto
    from own_step.unsubscribe[OF un this] t(1) show ?thesis
      by (intro exI conjI) (assumption, assumption, simp add: at_place_def)
  qed
qed

lemma watcher_moves:
  assumes inv: "subscription_inv gen i (s, p)" and small: "length (published s) < 2 ^ 64"
    and "ctx_over p \<or> places p Handler \<noteq> AtWork" and "places p Watcher \<noteq> Gone"
  shows "\<exists>s' p'. own_step i (s, p) (s', p') \<and> (places p Handler \<noteq> AtWork \<or> places p' Handler = AtWork)"
proof -
  have ph: "phase_ok p" using inv by (simp add: subscription_inv_def)
  show ?thesis
  proof (cases "once_state p")
    case Busy
    from holder_moves[OF inv small this] obtain s' p' t where "own_step i (s, p) (s', p')"
        "places p t \<in> {InOnce, Unsubscribing}" "\<forall>u. u \<noteq> t \<longrightarrow> places p' u = places p u" by blast
    then show ?thesis by (cases "t = Handler") force+
  next
    case Fresh
    show ?thesis
    proof (cases "places p Watcher = Calling")
      case True
      from own_step.enter[OF True Fresh] show ?thesis by (intro exI conjI, assumption) (simp add: at_place_def)
    next
      case False
      with ph Fresh have w: "places p Watcher = AtWork" "places p Handler \<in> {AtWork, Calling}"
        by (auto simp: phase_ok_def)
      show ?thesis
      proof (cases "ctx_over p")
        case True
        from own_step.wake[OF w(1) True] show ?thesis by (intro exI conjI, assumption) (simp add: at_place_def)
      next
        case False
        with assms(3) w have h: "places p Handler = Calling" by auto
        from own_step.enter[OF h Fresh] show ?thesis by (intro exI conjI, assumption) (simp add: h)
      qed
    qed
  next
    case Finished
    with ph assms(4) have w: "places p Watcher = AtWork \<or> places p Watcher = Calling"
      and c: "ch_recv (done_chan p) = Ok (None, done_chan p)"
      by (cases "places p Watcher"; auto simp: phase_ok_def ch_recv_def)+
    from w show ?thesis
    proof
      assume "places p Watcher = AtWork"
      from own_step.quit[OF this c] show ?thesis by (intro exI conjI, assumption) (simp add: at_place_def)
    next
      assume "places p Watcher = Calling"
      from own_step.skip[OF this Finished] show ?thesis by (intro exI conjI, assumption) (simp add: at_place_def)
    qed
  qed
qed

subsection \<open>The property of subscriptions\<close>

text \<open>
  C22: A subscription is released once and its goroutine does not leak: under every
  interleaving, as soon as the handler has begun to return or the context is done, the watcher
  has ended or one of the two goroutines can take a step, other than the handler leaving, and
  every such step brings the end closer, so that it comes after at most eight; \<open>done\<close> is not
  closed twice, at most one of them is inside \<open>once\<close>, and when \<open>Cancel\<close> has returned to the
  handler the subscriber is removed and its channel is closed.
\<close>

theorem subscription_released:
  assumes "living gen i (s, p)" and "length (published s) < 2 ^ 64"
  shows "work p \<le> 8 \<and>
    (ctx_over p \<or> places p Handler \<noteq> AtWork \<longrightarrow> places p Watcher = Gone \<or>
      (\<exists>s' p'. own_step i (s, p) (s', p') \<and> work p' < work p \<and>
         (places p Handler \<noteq> AtWork \<or> places p' Handler = AtWork))) \<and>
    (\<forall>t. places p t = InOnce \<longrightarrow> ch_close (done_chan p) \<noteq> Panicked) \<and>
    \<not> (places p Handler \<in> {InOnce, Unsubscribing} \<and> places p Watcher \<in> {InOnce, Unsubscribing}) \<and>
    (places p Handler = Gone \<longrightarrow>
       i \<notin> set (subscribers (broker s)) \<and> ch_closed (chans (broker s) i))"
proof -
  have inv: "subscription_inv gen i (s, p)" using living_inv[OF assms(1)] assms(2) by simp
  then have ph: "phase_ok p" and ok: "subs_ok (broker s)" and i: "i < next_chan (broker s)"
    and off: "once_state p = Finished \<Longrightarrow> i \<notin> set (subscribers (broker s))"
    using reachable_inv[OF _ assms(2)] by (auto simp: subscription_inv_def feed_inv_def)
  have "work p \<le> 8" by (cases "places p Handler"; cases "places p Watcher"; simp add: work_def)
  moreover have "ctx_over p \<or> places p Handler \<noteq> AtWork \<longrightarrow> places p Watcher = Gone \<or>
      (\<exists>s' p'. own_step i (s, p) (s', p') \<and> work p' < work p \<and>
         (places p Handler \<noteq> AtWork \<or> places p' Handler = AtWork))"
    using watcher_moves[OF inv assms(2)] own_work by blast
  moreover have "\<forall>t. places p t = InOnce \<longrightarrow> ch_close (done_chan p) \<noteq> Panicked"
    using ph by (auto simp: phase_simps split: once.splits)
  moreover have "\<not> (places p Handler \<in> {InOnce, Unsubscribing} \<and> places p Watcher \<in> {InOnce, Unsubscribing})"
    using ph by (auto simp: phase_simps split: once.splits)
  moreover have "places p Handler = Gone \<Longrightarrow> once_state p = Finished"
    using ph by (auto simp: phase_simps split: once.splits)
  ultimately show ?thesis using off ok i by (auto simp: subs_ok_def)
qed

theorem subscription_released_witness:
  "\<exists>s p. living ''g'' 0 (s, p) \<and> places p Handler = Gone \<and> places p Watcher = AtWork \<and>
     0 \<notin> set (subscribers (broker s)) \<and> ch_closed (chans (broker s) 0) \<and>
     (\<exists>s' p'. own_step 0 (s, p) (s', p'))"
proof -
  let ?f = "initial_feed ''g''"
  let ?p1 = "at_place Handler Calling new_subscription"
  let ?p2 = "(at_place Handler InOnce ?p1)\<lparr>once_state := Busy\<rparr>"
  let ?c = "(done_chan ?p2)\<lparr>ch_closed := True\<rparr>"
  let ?p3 = "(at_place Handler Unsubscribing ?p2)\<lparr>done_chan := ?c\<rparr>"
  let ?p4 = "(at_place Handler Gone ?p3)\<lparr>once_state := Finished\<rparr>"
  note simps = new_subscription_def at_place_def ch_make_def
  have "case perform (Subscribe 1 []) ?f of
      Ok s \<Rightarrow> (case perform (Cancel 0) s of Ok s' \<Rightarrow> published s' = [] | _ \<Rightarrow> False) | _ \<Rightarrow> False"
    by code_simp
  then obtain s1 s2 where run: "perform (Subscribe 1 []) ?f = Ok s1" "perform (Cancel 0) s1 = Ok s2"
      "published s2 = []"
    by (auto split: outcome.splits)
  have "living ''g'' 0 (s1, new_subscription)"
    by (rule living.subscribed[OF reachable.start _ _ _ run(1)]) (simp_all add: initial_feed_def empty_broker_def)
  then have "living ''g'' 0 (s1, ?p1)"
    by (rule living.own) (rule own_step.leave, simp add: simps)
  then have "living ''g'' 0 (s1, ?p2)"
    by (rule living.own) (rule own_step.enter, simp_all add: simps)
  then have "living ''g'' 0 (s1, ?p3)"
    by (rule living.own) (rule own_step.signal, simp_all add: simps ch_close_def)
  then have l: "living ''g'' 0 (s2, ?p4)"
    by (rule living.own) (rule own_step.unsubscribe[OF _ run(2)], simp add: simps)
  have p4: "places ?p4 Handler = Gone" "places ?p4 Watcher = AtWork" by (simp_all add: simps)
  from subscription_released[OF l] run(3) p4
  have "0 \<notin> set (subscribers (broker s2)) \<and> ch_closed (chans (broker s2) 0) \<and>
      (\<exists>s' p'. own_step 0 (s2, ?p4) (s', p'))"
    by auto
  with l p4 show ?thesis by blast
qed

end
