(* ===== verification/Spec2Isabelle.thy ===== *)
theory Spec2Isabelle
  imports EventFeed Config Power_Refinement Snapshots Process Event_Stream Validation
    Responses Power_Api Results Access Subscription
begin

text \<open>
  A verification development for libvirt-rest-api, a service that manages libvirt virtual
  machines over HTTP.  It models the whole of the program under \<open>cmd\<close> and \<open>internal\<close>; the
  libvirt binding, the network and the clock are parameters.

  \<^bold>\<open>The program.\<close>  \<open>main\<close> (\<open>cmd/libvirt-rest-api/main.go\<close>) loads the configuration from the
  environment (\<open>internal/config/config.go\<close>), connects the libvirt adapter
  (\<open>internal/hypervisor\<close>) and serves the API (\<open>internal/api/server.go\<close>) until the server stops
  or a signal comes, and closes the adapter.  A request passes the layers of \<open>New\<close> (recovery
  from panics, access log, security headers with the limit of the body, CORS), the
  multiplexer with its route registry, the check of the token's scope, and its handler, which
  calls one operation of the interface \<open>Service\<close>; the adapter implements it by calls of the
  binding under a lock per domain.  Lifecycle callbacks of libvirt go to an event broker, from
  which the events endpoint streams.

  \<^bold>\<open>The theories.\<close>  In the order of their imports:

  \<^item> \<open>Prelude\<close>: collections, lists, and the triples \<open>triple P m Q\<close> over the state monad that
    most proofs about effects are made of.  \<open>Go_Strings\<close>, \<open>Go_Net\<close>, \<open>Go_Channel\<close>, \<open>Xml\<close>: what
    the code uses of Go's standard library, as functions of the same names.
  \<^item> \<open>Service\<close> (\<open>service.go\<close>): the data types, the sentinel errors and wrapped errors with their
    messages in parts, so that text of the library can be told apart.
  \<^item> \<open>Events\<close>, \<open>EventFeed\<close>, \<open>Subscription\<close> (\<open>events.go\<close>): the broker's operations, one per
    critical section; the broker with its subscribers under every interleaving of them; and
    the two goroutines of a subscription with the \<open>sync.Once\<close> they share.
  \<^item> \<open>Config\<close> (\<open>config.go\<close>): \<open>Load\<close> and every function it calls.
  \<^item> \<open>Locks\<close> (\<open>libvirt.go\<close>, lines 17 to 34 and 794 to 840): the table of action locks and its
    protocol, as a step relation for any number of goroutines.
  \<^item> \<open>Libvirt_Core\<close>, \<open>Libvirt_Power\<close>, \<open>Libvirt_Query\<close>, \<open>Snapshots\<close> (\<open>libvirt.go\<close>,
    \<open>snapshots.go\<close>): the adapter.  The binding is a record of functions on a world of its own;
    every call is recorded in a trace, on which \<open>monitor\<close> judges the use of handles and lock.
    An operation is an element of the state monad that returns an error or a result.
    \<open>Power_Refinement\<close> has the abstract machine of a domain, \<open>Results\<close> the types of results.
  \<^item> \<open>Connection\<close> (\<open>libvirt.go\<close>): \<open>Connect\<close>, \<open>Close\<close>, \<open>Subscribe\<close>, the event loop that is started
    once and the lifecycle callback.  \<open>Libvirt_Service\<close>: the adapter as a \<open>Service\<close>.
  \<^item> \<open>Json\<close>, \<open>Http\<close>, \<open>Handlers\<close>, \<open>Router\<close> (\<open>server.go\<close>): encoding and decoding, the response
    writer, one definition per handler, and the routes, the multiplexer and the layers; \<open>handle\<close>
    is the server on one request.  \<open>Routing\<close>, \<open>Handler_Contract\<close>, \<open>Dispatch\<close>, \<open>Responses\<close>,
    \<open>Validation\<close>, \<open>Event_Stream\<close>, \<open>Api\<close> are about them.
  \<^item> \<open>Process\<close> (\<open>main.go\<close>): \<open>run\<close> from the environment to the exit code.  \<open>Access\<close> and
    \<open>Power_Api\<close> compose the configuration, the server and the adapter.

  \<^bold>\<open>The contracts.\<close>  \<open>bounded_queue\<close> is what the broker relies on in a channel and \<open>sorter\<close> what
  the list of snapshots relies on in \<open>slices.SortFunc\<close>; both are interpreted by the models.
  \<open>service_contract\<close> is what the handlers rely on in a service, \<open>response_contract\<close> what a property
  of responses must bear, and \<open>handler_contract\<close> joins them: under it every request is
  answered and the properties are kept.  They are interpreted for the well-formedness of
  responses over every service, and for the silence about library text over the adapter.

  \<^bold>\<open>What the properties show.\<close>  Events: no subscriber loses or repeats an event silently, a cursor
  resumes exactly or is answered by a reset, a client that reconnects misses nothing, no
  operation of the broker panics or blocks, subscriptions are released.  Locks: mutual
  exclusion, an exact table, progress.  Adapter: handles are freed once, changes are made
  under the lock, errors shown to clients have no library text, power actions refine the
  abstract machine, the definition of a snapshot reads back as requested, a cancelled request
  changes nothing.  Server: requests are dispatched by the table of routes, changes stay within
  the scope of the token, refused requests touch nothing, arguments are in range, every
  response is secured and every failure is one JSON object; where an encoding fails, the
  response says success, which is a fault of the code.  Process: no start without credentials
  by accident, and every connection is released.

  \<^bold>\<open>Bounds and fuel.\<close>  Identifiers and times are words of 64 bits; properties of the feed assume
  fewer than \<open>2 ^ 64\<close> published events, since the code does not handle the wrap of the counter.
  \<open>event_run\<close> is a partial function that is undefined exactly on endless streams.  The reader of
  the snapshot definition, which only the round trip uses, has fuel for 10 steps along a path of
  the tree; the definition needs five, and the round trip shows that it is enough.

  \<^bold>\<open>Not modelled.\<close>  The bytes of JSON and XML documents: a request body is the sequence of its
  values with their offsets, and reading the tree from the XML of libvirt is a parameter; the
  decoding of either into the structs is modelled.  The bytes of a screenshot and the pipe
  they pass through; the handles of the copy are.  The loop that runs the events of
  the binding, which never returns and is one recorded call.  The inside of \<open>slices.SortFunc\<close>, of
  \<open>http.Server\<close> and of \<open>ServeMux\<close> beyond the patterns this code registers (the target of a
  redirect, the header \<open>Connection\<close> after a body that is too large, a \<open>CONNECT\<close> request without a
  path); failures to write a response other than an event stream, which the handlers do not
  see; fractions of a second; the contents of log lines beyond their kind.  Tests, build files
  and documentation are no program.
\<close>

subsection \<open>The libvirt adapter as a whole\<close>

text \<open>
  An operation is disciplined: run from no handle it ends with no handle and no lock, and
  an error that may be shown to a client has no library text in it.
\<close>

definition disciplined :: "('w, 'd, goerr + 'a) io \<Rightarrow> bool" where
  "disciplined m \<longleftrightarrow>
     (\<forall>w. monitor (calls (snd (run_state m \<lparr>world = w, calls = []\<rparr>))) = NoHandle \<and>
        (case fst (run_state m \<lparr>world = w, calls = []\<rparr>) of Inl e \<Rightarrow> presentable e | Inr _ \<Rightarrow> True))"

lemma disciplinedI:
  "triple (at NoHandle) m (\<lambda>r s. at NoHandle s \<and> sound_result r) \<Longrightarrow> disciplined m"
  by (simp add: disciplined_def triple_def at_def sound_result_def)


text \<open>
  C35: A screenshot that succeeds hands the domain and the stream to the copying goroutine,
  and the copy releases both, whether the stream ends, fails or the client goes away; a
  screenshot that fails has released what it took.
\<close>

theorem screenshot_releases:
  "(case run_state (ScreenshotOf lv n) \<lparr>world = w, calls = []\<rparr> of
      (Inl e, s) \<Rightarrow> monitor (calls s) = NoHandle
    | (Inr shot, s) \<Rightarrow> monitor (calls (snd (run_state (copyScreenshot lv shot rcvd stopped) s))) = NoHandle)"
proof -
  obtain r s where run: "run_state (ScreenshotOf lv n) \<lparr>world = w, calls = []\<rparr> = (r, s)"
    by (metis surj_pair)
  have "at NoHandle \<lparr>world = w, calls = []\<rparr>" by (simp add: at_def)
  from tripleD[OF ScreenshotOf_sound this run] show ?thesis
    using copyScreenshot_releases[of "projr r" lv rcvd stopped] run
    by (auto simp: at_def triple_def split: sum.splits)
qed

end
